theory Spec2Isabelle
  imports Main "HOL-Library.Word" "HOL-Library.Char_ord" "HOL-Library.List_Lexorder"
begin

section \<open>Shared data model\<close>

text \<open>
  Go strings are byte strings: \<open>string\<close> (a list of \<open>char\<close>, one per byte), so
  \<open>length\<close> is Go's \<open>len\<close> and the order of \<open>List_Lexorder\<close> over \<open>Char_ord\<close> is Go's
  \<open><\<close> on strings (bytewise lexicographic).
\<close>

text \<open>
  \<open>endpoint.TTL\<close> is an \<open>int64\<close>; \<open>sint\<close> reads the signed value.
\<close>

type_synonym TTL = "64 word"

text \<open>
  \<open>endpoint.Endpoint\<close>. \<open>Labels\<close> is a Go map, that is a reference to a map object:
  the type of the field is a parameter, a map value where a provider never writes to
  it and an address into a store of maps where the aliasing matters (CoreDNS).
\<close>

record 'l Endpoint =
  DNSName :: string
  Targets :: "string list"
  RecordType :: string
  SetIdentifier :: string
  RecordTTL :: TTL
  Labels :: 'l

text \<open>
  Errors: \<open>errors.New\<close> and \<open>fmt.Errorf\<close> give a plain error, \<open>provider.NewSoftError\<close>
  and \<open>provider.NewSoftErrorf\<close> a soft one. The string is the message. A run-time panic
  (a write to a nil map, an index out of range, a nil pointer dereference) ends the
  call without a return value: it is the third way a call can fail.
\<close>

datatype error = PlainError string | SoftError string | Panic string

fun errText :: "error \<Rightarrow> string" where
  "errText (PlainError m) = m"
| "errText (SoftError m) = m"
| "errText (Panic m) = m"

fun isSoft :: "error \<Rightarrow> bool" where
  "isSoft (SoftError m) = True"
| "isSoft (PlainError m) = False"
| "isSoft (Panic m) = False"

fun isPanic :: "error \<Rightarrow> bool" where
  "isPanic (Panic m) = True"
| "isPanic (PlainError m) = False"
| "isPanic (SoftError m) = False"

definition nilDereference :: error where
  "nilDereference = Panic ''invalid memory address or nil pointer dereference''"

definition nilMapWrite :: error where
  "nilMapWrite = Panic ''assignment to entry in nil map''"

definition indexOutOfRange :: error where
  "indexOutOfRange = Panic ''index out of range''"

definition sliceOutOfRange :: error where
  "sliceOutOfRange = Panic ''slice bounds out of range''"

text \<open>\<open>%v\<close> of an error variable that may still be nil.\<close>

fun fmtErr :: "error option \<Rightarrow> string" where
  "fmtErr None = ''<nil>''"
| "fmtErr (Some e) = errText e"

text \<open>
  \<open>endpoint.DomainFilter\<close> is not part of the sources at hand: its \<open>Filters\<close> field and
  its methods \<open>IsConfigured\<close> and \<open>Match\<close> are taken as they are given.
\<close>

record DomainFilter =
  Filters :: "string list"
  IsConfigured :: bool
  Match :: "string \<Rightarrow> bool"

text \<open>\<open>strings.HasSuffix\<close>.\<close>

definition HasSuffix :: "string \<Rightarrow> string \<Rightarrow> bool" where
  "HasSuffix s suf \<longleftrightarrow>
     length suf \<le> length s \<and> drop (length s - length suf) s = suf"

text \<open>
  \<open>sort.SliceStable\<close> with the comparison \<open>lt\<close>: the stable sort, as insertion
  from the right. An element goes behind exactly the elements that are not greater.
\<close>

fun insertStable :: "('a \<Rightarrow> 'a \<Rightarrow> bool) \<Rightarrow> 'a \<Rightarrow> 'a list \<Rightarrow> 'a list" where
  "insertStable lt x [] = [x]"
| "insertStable lt x (y # ys) =
     (if lt y x then y # insertStable lt x ys else x # y # ys)"

definition SliceStable :: "('a \<Rightarrow> 'a \<Rightarrow> bool) \<Rightarrow> 'a list \<Rightarrow> 'a list" where
  "SliceStable lt xs = foldr (insertStable lt) xs []"

section \<open>PowerDNS provider (provider/pdns/pdns.go)\<close>

type_synonym pdnsChangeType = string

definition PdnsDelete :: pdnsChangeType where
  "PdnsDelete = ''DELETE''"

definition PdnsReplace :: pdnsChangeType where
  "PdnsReplace = ''REPLACE''"

definition defaultTTL :: int where
  "defaultTTL = 300"

definition retryLimit :: nat where
  "retryLimit = 3"

text \<open>\<open>retryAfterTime\<close>, in milliseconds.\<close>

definition retryAfterTime :: nat where
  "retryAfterTime = 250"

text \<open>\<open>math.MaxInt32\<close>.\<close>

definition MaxInt32 :: int where
  "MaxInt32 = 2147483647"

text \<open>
  The structs of the generated PowerDNS client (\<open>pgo.Record\<close>, \<open>pgo.RrSet\<close>,
  \<open>pgo.Zone\<close>), with the fields the provider reads or writes. \<open>Ttl\<close> is an \<open>int32\<close>;
  a struct literal leaves the fields it does not name at their zero value.
\<close>

record Record =
  Content :: string
  Disabled :: bool

record RrSet =
  rr_Name :: string
  rr_Type :: string
  rr_Ttl :: "32 word"
  rr_Changetype :: string
  rr_Records :: "Record list"

record Zone =
  zone_Id :: string
  zone_Name :: string
  zone_Rrsets :: "RrSet list"

text \<open>
  The HTTP API behind \<open>c.client.ZonesApi\<close> is the environment. Every raw call and
  every \<open>time.Sleep\<close> is appended to a trace, and the answer to a raw call is a
  function of the trace so far, so that an environment can answer each attempt
  differently.
\<close>

datatype pdns_event =
    RawListZones
  | RawPatchZone string Zone
  | Sleep nat

type_synonym pdns_trace = "pdns_event list"

record ZonesApi =
  api_ListZones :: "pdns_trace \<Rightarrow> error + Zone list"
  api_PatchZone :: "pdns_trace \<Rightarrow> string \<Rightarrow> Zone \<Rightarrow> error option"

record PDNSAPIClient =
  pdns_dryRun :: bool
  pdns_serverID :: string
  pdns_client :: ZonesApi
  pdns_domainFilter :: DomainFilter

text \<open>
  \<open>PDNSAPIClient.ListZones\<close>: the loop \<open>for i := 0; i < retryLimit; i++\<close>. \<open>err\<close> is
  the error of the last attempt (nil before the first).
\<close>

function ListZones_loop ::
  "PDNSAPIClient \<Rightarrow> nat \<Rightarrow> error option \<Rightarrow> pdns_trace \<Rightarrow> (error + Zone list) \<times> pdns_trace" where
  "ListZones_loop c i err tr =
     (if i < retryLimit then
        (case api_ListZones (pdns_client c) tr of
           Inl e \<Rightarrow>
             ListZones_loop c (i + 1) (Some e)
               (tr @ [RawListZones, Sleep (retryAfterTime * 2 ^ i)])
         | Inr zones \<Rightarrow> (Inr zones, tr @ [RawListZones]))
      else (Inl (SoftError (''unable to list zones: '' @ fmtErr err)), tr))"
  by pat_completeness auto
termination
  by (relation "measure (\<lambda>(c, i, err, tr). retryLimit - i)") auto

declare ListZones_loop.simps [simp del]

definition ListZones :: "PDNSAPIClient \<Rightarrow> pdns_trace \<Rightarrow> (error + Zone list) \<times> pdns_trace" where
  "ListZones c tr = ListZones_loop c 0 None tr"

text \<open>\<open>PDNSAPIClient.PartitionZones\<close>.\<close>

definition PartitionZones :: "PDNSAPIClient \<Rightarrow> Zone list \<Rightarrow> Zone list \<times> Zone list" where
  "PartitionZones c zones =
     (if IsConfigured (pdns_domainFilter c) then
        (filter (\<lambda>zone. Match (pdns_domainFilter c) (zone_Name zone)) zones,
         filter (\<lambda>zone. \<not> Match (pdns_domainFilter c) (zone_Name zone)) zones)
      else (zones, []))"

text \<open>\<open>PDNSAPIClient.PatchZone\<close>: \<open>None\<close> is the nil error.\<close>

function PatchZone_loop ::
  "PDNSAPIClient \<Rightarrow> string \<Rightarrow> Zone \<Rightarrow> nat \<Rightarrow> error option \<Rightarrow> pdns_trace
     \<Rightarrow> error option \<times> pdns_trace" where
  "PatchZone_loop c zoneID zoneStruct i err tr =
     (if i < retryLimit then
        (case api_PatchZone (pdns_client c) tr zoneID zoneStruct of
           Some e \<Rightarrow>
             PatchZone_loop c zoneID zoneStruct (i + 1) (Some e)
               (tr @ [RawPatchZone zoneID zoneStruct, Sleep (retryAfterTime * 2 ^ i)])
         | None \<Rightarrow> (None, tr @ [RawPatchZone zoneID zoneStruct]))
      else (Some (SoftError (''unable to patch zone: '' @ fmtErr err)), tr))"
  by pat_completeness auto
termination
  by (relation "measure (\<lambda>(c, z, s, i, err, tr). retryLimit - i)") auto

declare PatchZone_loop.simps [simp del]

definition PatchZone ::
  "PDNSAPIClient \<Rightarrow> string \<Rightarrow> Zone \<Rightarrow> pdns_trace \<Rightarrow> error option \<times> pdns_trace" where
  "PatchZone c zoneID zoneStruct tr = PatchZone_loop c zoneID zoneStruct 0 None tr"

text \<open>
  \<open>PDNSProvider\<close>: its \<open>client\<close> is the \<open>PDNSAPIClient\<close> that \<open>NewPDNSProvider\<close> builds.
\<close>

record PDNSProvider =
  client :: PDNSAPIClient

record TLSConfig =
  SkipTLSVerify :: bool
  CAFilePath :: string
  ClientCertFilePath :: string
  ClientCertKeyFilePath :: string

record PDNSConfig =
  cfg_DomainFilter :: DomainFilter
  cfg_DryRun :: bool
  cfg_Server :: string
  cfg_ServerID :: string
  cfg_APIKey :: string
  cfg_TLSConfig :: TLSConfig

text \<open>
  \<open>NewPDNSProvider\<close>. \<open>setHTTPClient\<close> is the outcome of \<open>TLSConfig.setHTTPClient\<close>
  (it reads certificate files through \<open>tlsutils.NewTLSConfig\<close>), \<open>api\<close> the client that
  \<open>pgo.NewAPIClient\<close> returns.
\<close>

definition NewPDNSProvider ::
  "(TLSConfig \<Rightarrow> error option) \<Rightarrow> ZonesApi \<Rightarrow> PDNSConfig \<Rightarrow> error + PDNSProvider" where
  "NewPDNSProvider setHTTPClient api config =
     (if cfg_APIKey config = [] then
        Inl (PlainError ''missing API Key for PDNS. Specify using --pdns-api-key='')
      else if cfg_DryRun config then
        Inl (PlainError ''PDNS Provider does not currently support dry-run'')
      else
        (case setHTTPClient (cfg_TLSConfig config) of
           Some err \<Rightarrow> Inl err
         | None \<Rightarrow>
             Inr \<lparr>client =
                   \<lparr>pdns_dryRun = cfg_DryRun config,
                    pdns_serverID = cfg_ServerID config,
                    pdns_client = api,
                    pdns_domainFilter = cfg_DomainFilter config\<rparr>\<rparr>))"

text \<open>
  Modelled from the spec: \<open>endpoint.NewEndpointWithTTL\<close> (package \<open>endpoint\<close> is not
  part of the sources at hand) builds the Endpoint of the data model from a name, a
  record type, a TTL and targets; the labels are a new map, given here by the caller.
\<close>

definition NewEndpointWithTTL :: "string \<Rightarrow> string \<Rightarrow> TTL \<Rightarrow> string list \<Rightarrow> 'l \<Rightarrow> 'l Endpoint" where
  "NewEndpointWithTTL dnsName recordType ttl targets labels =
     \<lparr>DNSName = dnsName, Targets = targets, RecordType = recordType,
      SetIdentifier = [], RecordTTL = ttl, Labels = labels\<rparr>"

text \<open>
  \<open>PDNSProvider.convertRRSetToEndpoints\<close>. \<open>endpoint.TTL(rr.Ttl)\<close> widens the \<open>int32\<close>
  with its sign.
\<close>

definition convertRRSetToEndpoints ::
  "RrSet \<Rightarrow> error + (string \<rightharpoonup> string) Endpoint list" where
  "convertRRSetToEndpoints rr =
     (let targets = map Content (filter (\<lambda>record. \<not> Disabled record) (rr_Records rr));
          rrType' = (if rr_Type rr = ''ALIAS'' then ''CNAME'' else rr_Type rr)
      in Inr [NewEndpointWithTTL (rr_Name rr) rrType' (scast (rr_Ttl rr)) targets Map.empty])"

text \<open>The comparison of the first \<open>sort.SliceStable\<close> in \<open>ConvertEndpointsToZones\<close>.\<close>

definition endpointLess :: "'l Endpoint \<Rightarrow> 'l Endpoint \<Rightarrow> bool" where
  "endpointLess a b =
     (if DNSName a = DNSName b then RecordType a < RecordType b
      else DNSName a < DNSName b)"

text \<open>The comparison of the second one: longer zone names first.\<close>

definition zoneLonger :: "Zone \<Rightarrow> Zone \<Rightarrow> bool" where
  "zoneLonger a b \<longleftrightarrow> length (zone_Name a) > length (zone_Name b)"

text \<open>
  The test of lines 316 and 374:
  \<open>dnsname == zone.Name || strings.HasSuffix(dnsname, "."+zone.Name)\<close>.
\<close>

definition zoneMatches :: "string \<Rightarrow> Zone \<Rightarrow> bool" where
  "zoneMatches dnsname zone \<longleftrightarrow>
     dnsname = zone_Name zone \<or> HasSuffix dnsname (''.'' @ zone_Name zone)"

text \<open>
  The body of the inner loop for a matched endpoint (lines 320 to 352): the rrset, or
  the soft error of the TTL check. \<open>EnsureTrailingDot\<close> stands for
  \<open>provider.EnsureTrailingDot\<close>, which is not part of the sources at hand.
  \<open>int32(ep.RecordTTL)\<close> is the \<open>int32\<close> of the same value modulo \<open>2^32\<close> (the low 32
  bits).
\<close>

definition endpointRecords :: "(string \<Rightarrow> string) \<Rightarrow> 'l Endpoint \<Rightarrow> Record list" where
  "endpointRecords EnsureTrailingDot ep =
     map (\<lambda>t. \<lparr>Content =
                 (if RecordType ep = ''CNAME'' \<or> RecordType ep = ''ALIAS''
                     \<or> RecordType ep = ''MX'' \<or> RecordType ep = ''SRV''
                  then EnsureTrailingDot t else t),
               Disabled = False\<rparr>)
       (Targets ep)"

definition endpointRrset ::
  "(string \<Rightarrow> string) \<Rightarrow> pdnsChangeType \<Rightarrow> Zone \<Rightarrow> 'l Endpoint \<Rightarrow> error + RrSet" where
  "endpointRrset EnsureTrailingDot changetype zone ep =
     (let dnsname = EnsureTrailingDot (DNSName ep);
          RecordType' =
            (if dnsname = zone_Name zone \<and> RecordType ep = ''CNAME'' then ''ALIAS''
             else RecordType ep);
          rrset = \<lparr>rr_Name = dnsname, rr_Type = RecordType', rr_Ttl = 0,
                   rr_Changetype = changetype,
                   rr_Records = endpointRecords EnsureTrailingDot ep\<rparr>
      in if changetype = PdnsReplace then
           (if sint (RecordTTL ep) > MaxInt32 then
              Inl (SoftError ''value of record TTL overflows, limited to int32'')
            else if RecordTTL ep = 0 then Inr (rrset\<lparr>rr_Ttl := word_of_int defaultTTL\<rparr>)
            else Inr (rrset\<lparr>rr_Ttl := word_of_int (sint (RecordTTL ep))\<rparr>))
         else Inr rrset)"

text \<open>
  The inner loop \<open>for i := 0; i < len(endpoints); { ... }\<close> over one filtered zone: a
  matched endpoint is popped (\<open>append(endpoints[0:i], endpoints[i+1:]...)\<close>) and \<open>i\<close>
  stays, an unmatched one is stepped over.
\<close>

function zoneEndpoints_loop ::
  "(string \<Rightarrow> string) \<Rightarrow> pdnsChangeType \<Rightarrow> Zone \<Rightarrow> 'l Endpoint list \<Rightarrow> nat
     \<Rightarrow> error + (Zone \<times> 'l Endpoint list)" where
  "zoneEndpoints_loop EnsureTrailingDot changetype zone endpoints i =
     (if i < length endpoints then
        (if zoneMatches (EnsureTrailingDot (DNSName (endpoints ! i))) zone then
           (case endpointRrset EnsureTrailingDot changetype zone (endpoints ! i) of
              Inl err \<Rightarrow> Inl err
            | Inr rrset \<Rightarrow>
                zoneEndpoints_loop EnsureTrailingDot changetype
                  (zone\<lparr>zone_Rrsets := zone_Rrsets zone @ [rrset]\<rparr>)
                  (take i endpoints @ drop (i + 1) endpoints) i)
         else zoneEndpoints_loop EnsureTrailingDot changetype zone endpoints (i + 1))
      else Inr (zone, endpoints))"
  by pat_completeness auto
termination
  by (relation "measure (\<lambda>(e, c, z, endpoints, i). length endpoints - i)") auto

declare zoneEndpoints_loop.simps [simp del]

text \<open>The loop over the filtered zones (lines 311 to 366).\<close>

fun filteredZones_loop ::
  "(string \<Rightarrow> string) \<Rightarrow> pdnsChangeType \<Rightarrow> Zone list \<Rightarrow> 'l Endpoint list \<Rightarrow> Zone list
     \<Rightarrow> error + (Zone list \<times> 'l Endpoint list)" where
  "filteredZones_loop EnsureTrailingDot changetype [] endpoints zoneList =
     Inr (zoneList, endpoints)"
| "filteredZones_loop EnsureTrailingDot changetype (zone # zones) endpoints zoneList =
     (case zoneEndpoints_loop EnsureTrailingDot changetype (zone\<lparr>zone_Rrsets := []\<rparr>)
             endpoints 0 of
        Inl err \<Rightarrow> Inl err
      | Inr (zone', endpoints') \<Rightarrow>
          filteredZones_loop EnsureTrailingDot changetype zones endpoints'
            (if length (zone_Rrsets zone') > 0 then zoneList @ [zone'] else zoneList))"

text \<open>The loops over the residual zones (lines 370 to 382): matched endpoints are popped.\<close>

function residualEndpoints_loop ::
  "(string \<Rightarrow> string) \<Rightarrow> Zone \<Rightarrow> 'l Endpoint list \<Rightarrow> nat \<Rightarrow> 'l Endpoint list" where
  "residualEndpoints_loop EnsureTrailingDot zone endpoints i =
     (if i < length endpoints then
        (if zoneMatches (EnsureTrailingDot (DNSName (endpoints ! i))) zone then
           residualEndpoints_loop EnsureTrailingDot zone
             (take i endpoints @ drop (i + 1) endpoints) i
         else residualEndpoints_loop EnsureTrailingDot zone endpoints (i + 1))
      else endpoints)"
  by pat_completeness auto
termination
  by (relation "measure (\<lambda>(e, z, endpoints, i). length endpoints - i)") auto

declare residualEndpoints_loop.simps [simp del]

fun residualZones_loop ::
  "(string \<Rightarrow> string) \<Rightarrow> Zone list \<Rightarrow> 'l Endpoint list \<Rightarrow> 'l Endpoint list" where
  "residualZones_loop EnsureTrailingDot [] endpoints = endpoints"
| "residualZones_loop EnsureTrailingDot (zone # zones) endpoints =
     residualZones_loop EnsureTrailingDot zones
       (residualEndpoints_loop EnsureTrailingDot zone endpoints 0)"

text \<open>
  \<open>PDNSProvider.ConvertEndpointsToZones\<close>. Beside the zone list the model returns the
  endpoints that are left when the loops are over: the ones the function warns about
  (\<open>No matching zones were found for the following endpoints\<close>) when there are any.
\<close>

definition ConvertEndpointsToZones_warn ::
  "(string \<Rightarrow> string) \<Rightarrow> PDNSProvider \<Rightarrow> 'l Endpoint list \<Rightarrow> pdnsChangeType \<Rightarrow> pdns_trace
     \<Rightarrow> (error + (Zone list \<times> 'l Endpoint list)) \<times> pdns_trace" where
  "ConvertEndpointsToZones_warn EnsureTrailingDot p eps changetype tr =
     (let endpoints = SliceStable endpointLess eps in
      case ListZones (client p) tr of
        (Inl err, tr') \<Rightarrow> (Inl err, tr')
      | (Inr zones, tr') \<Rightarrow>
          (case PartitionZones (client p) zones of
             (filteredZones, residualZones) \<Rightarrow>
               (case filteredZones_loop EnsureTrailingDot changetype
                       (SliceStable zoneLonger filteredZones) endpoints [] of
                  Inl err \<Rightarrow> (Inl err, tr')
                | Inr (zoneList, endpoints') \<Rightarrow>
                    (Inr (zoneList,
                          residualZones_loop EnsureTrailingDot residualZones endpoints'),
                     tr'))))"

definition ConvertEndpointsToZones ::
  "(string \<Rightarrow> string) \<Rightarrow> PDNSProvider \<Rightarrow> 'l Endpoint list \<Rightarrow> pdnsChangeType \<Rightarrow> pdns_trace
     \<Rightarrow> (error + Zone list) \<times> pdns_trace" where
  "ConvertEndpointsToZones EnsureTrailingDot p eps changetype tr =
     (case ConvertEndpointsToZones_warn EnsureTrailingDot p eps changetype tr of
        (Inl err, tr') \<Rightarrow> (Inl err, tr')
      | (Inr (zoneList, left), tr') \<Rightarrow> (Inr zoneList, tr'))"

text \<open>
  \<open>provider.EnsureTrailingDot\<close> is a parameter of the functions above. For the runs on
  concrete input below: what it does to a host name that is not an IP address, one
  dot at the end.
\<close>

definition trailingDot :: "string \<Rightarrow> string" where
  "trailingDot hostname =
     (if hostname \<noteq> [] \<and> last hostname = CHR ''.'' then hostname else hostname @ ''.'')"

text \<open>
  \<open>plan.Changes\<close> and \<open>plan.Update\<close> (package \<open>plan\<close> is not part of the sources at
  hand): the fields as the providers and the tests use them. \<open>UpdateOld()\<close> and
  \<open>UpdateNew()\<close> give the old and the new endpoints of the updates, in order. The
  element type is an endpoint where a provider only reads the endpoints, and the
  address of one where it writes to them.
\<close>

record 'e Update =
  Old :: 'e
  New :: 'e

record 'e Changes =
  Create :: "'e list"
  Update :: "'e Update list"
  Delete :: "'e list"

definition UpdateOld :: "'e Changes \<Rightarrow> 'e list" where
  "UpdateOld changes = map Old (Update changes)"

definition UpdateNew :: "'e Changes \<Rightarrow> 'e list" where
  "UpdateNew changes = map New (Update changes)"

text \<open>\<open>PDNSProvider.mutateRecords\<close>: the loop over the zone list, then the function.\<close>

fun patchZones_loop :: "PDNSProvider \<Rightarrow> Zone list \<Rightarrow> pdns_trace \<Rightarrow> error option \<times> pdns_trace" where
  "patchZones_loop p [] tr = (None, tr)"
| "patchZones_loop p (zone # zonelist) tr =
     (case PatchZone (client p) (zone_Id zone) zone tr of
        (Some err, tr') \<Rightarrow> (Some err, tr')
      | (None, tr') \<Rightarrow> patchZones_loop p zonelist tr')"

definition mutateRecords ::
  "(string \<Rightarrow> string) \<Rightarrow> PDNSProvider \<Rightarrow> 'l Endpoint list \<Rightarrow> pdnsChangeType \<Rightarrow> pdns_trace
     \<Rightarrow> error option \<times> pdns_trace" where
  "mutateRecords EnsureTrailingDot p endpoints changetype tr =
     (case ConvertEndpointsToZones EnsureTrailingDot p endpoints changetype tr of
        (Inl err, tr') \<Rightarrow> (Some err, tr')
      | (Inr zonelist, tr') \<Rightarrow> patchZones_loop p zonelist tr')"

text \<open>\<open>PDNSProvider.ApplyChanges\<close>: Create, then UpdateNew, then Delete.\<close>

definition PDNSProvider_ApplyChanges ::
  "(string \<Rightarrow> string) \<Rightarrow> PDNSProvider \<Rightarrow> 'l Endpoint Changes \<Rightarrow> pdns_trace
     \<Rightarrow> error option \<times> pdns_trace" where
  "PDNSProvider_ApplyChanges EnsureTrailingDot p changes tr =
     (case (if length (Create changes) > 0
            then mutateRecords EnsureTrailingDot p (Create changes) PdnsReplace tr
            else (None, tr)) of
        (Some err, tr1) \<Rightarrow> (Some err, tr1)
      | (None, tr1) \<Rightarrow>
          (case (if length (UpdateNew changes) > 0
                 then mutateRecords EnsureTrailingDot p (UpdateNew changes) PdnsReplace tr1
                 else (None, tr1)) of
             (Some err, tr2) \<Rightarrow> (Some err, tr2)
           | (None, tr2) \<Rightarrow>
               (if length (Delete changes) > 0
                then mutateRecords EnsureTrailingDot p (Delete changes) PdnsDelete tr2
                else (None, tr2))))"

section \<open>Azure Private DNS provider (provider/azure/azure_private_dns.go)\<close>

text \<open>
  The structs of the Azure SDK (\<open>armprivatedns\<close>) that the provider reads or builds. A
  field that is a pointer is an \<open>option\<close>, \<open>None\<close> the nil pointer; the entries of a
  slice of pointers are taken to be non-nil. \<open>TTL\<close> is an \<open>int64\<close>, \<open>Preference\<close> an
  \<open>int32\<close>.
\<close>

record PrivateZone =
  pz_ID :: "string option"
  pz_Name :: "string option"

record ARecord =
  IPv4Address :: "string option"

record AaaaRecord =
  IPv6Address :: "string option"

record CnameRecord =
  Cname :: "string option"

record MxRecord =
  Preference :: "32 word option"
  Exchange :: "string option"

record TxtRecord =
  Value :: "string option list"

record RecordSetProperties =
  props_TTL :: "64 word option"
  ARecords :: "ARecord list"
  AaaaRecords :: "AaaaRecord list"
  CnameRecord :: "CnameRecord option"
  MxRecords :: "MxRecord list"
  TxtRecords :: "TxtRecord list"

record RecordSet =
  rs_Name :: "string option"
  rs_Type :: "string option"
  rs_Properties :: "RecordSetProperties option"

text \<open>
  Modelled from the spec: the zones cache (\<open>zonesCache\<close> is not part of the sources at
  hand) holds a value, the time of its last refresh and a duration; \<open>Get\<close> returns the
  value, \<open>Expired\<close> is \<open>now - timestamp >= duration\<close> (a duration of 0 is always
  expired), \<open>Reset\<close> overwrites the value and the time.
\<close>

record 'a zonesCache =
  zc_timestamp :: int
  zc_duration :: int
  zc_value :: "'a list"

definition Expired :: "int \<Rightarrow> 'a zonesCache \<Rightarrow> bool" where
  "Expired now c \<longleftrightarrow> now - zc_timestamp c \<ge> zc_duration c"

definition Get :: "'a zonesCache \<Rightarrow> 'a list" where
  "Get c = zc_value c"

definition Reset :: "int \<Rightarrow> 'a list \<Rightarrow> 'a zonesCache \<Rightarrow> 'a zonesCache" where
  "Reset now zones c = c\<lparr>zc_value := zones, zc_timestamp := now\<rparr>"

text \<open>
  The record sets client is the backend. \<open>Delete\<close> and \<open>CreateOrUpdate\<close> are its
  mutating calls, with the resource group, the zone, the record type and the record
  set name: each is appended to the list of calls made. The provider only logs the
  error of such a call, so no answer is needed. A pager is the list of its pages, each
  the outcome of one \<open>NextPage\<close>.
\<close>

datatype azure_call =
    RecordSets_Delete string string string string
  | RecordSets_CreateOrUpdate string string string string RecordSet

record PrivateRecordSetsClient =
  NewListPager :: "string \<Rightarrow> string \<Rightarrow> (error + RecordSet list) list"

record AzurePrivateDNSProvider =
  az_domainFilter :: DomainFilter
  az_zoneNameFilter :: DomainFilter
  az_zoneIDFilter :: "string \<Rightarrow> bool"
  az_dryRun :: bool
  az_resourceGroup :: string
  az_zonesClient :: "string \<Rightarrow> (error + PrivateZone list) list"
  az_recordSetsClient :: PrivateRecordSetsClient

text \<open>What a call can change: the zones cache of the provider and the backend.\<close>

record azure_state =
  st_zonesCache :: "PrivateZone zonesCache"
  st_calls :: "azure_call list"

text \<open>
  What the provider uses of its package and of packages \<open>endpoint\<close> and \<open>provider\<close>
  that is not part of the sources at hand, taken as given: \<open>formatAzureDNSName\<close>,
  \<open>parseMxTarget\<close>, the constant \<open>defaultTTL\<close> of package \<open>azure\<close> and
  \<open>TTL.IsConfigured\<close>.
\<close>

record azure_package =
  formatAzureDNSName :: "string \<Rightarrow> string \<Rightarrow> string"
  parseMxTarget :: "string \<Rightarrow> error + MxRecord"
  azure_defaultTTL :: "64 word"
  TTL_IsConfigured :: "TTL \<Rightarrow> bool"

text \<open>
  \<open>AzurePrivateDNSProvider.zones\<close>. The condition of line 202 and of line 204 for
  one zone of a page: \<open>*zone.Name\<close> is read before the nil checks (line 200), and
  \<open>*zone.ID\<close> when the domain filter matches.
\<close>

definition zoneSelected :: "AzurePrivateDNSProvider \<Rightarrow> PrivateZone \<Rightarrow> error + bool" where
  "zoneSelected p zone =
     (case pz_Name zone of
        None \<Rightarrow> Inl nilDereference
      | Some name \<Rightarrow>
          (case (if Match (az_domainFilter p) name
                 then (case pz_ID zone of
                         None \<Rightarrow> Inl nilDereference
                       | Some zid \<Rightarrow> Inr (az_zoneIDFilter p zid))
                 else Inr False) of
             Inl err \<Rightarrow> Inl err
           | Inr first \<Rightarrow>
               Inr (first \<or>
                    (length (Filters (az_zoneNameFilter p)) > 0
                     \<and> Match (az_zoneNameFilter p) name))))"

fun zones_page ::
  "AzurePrivateDNSProvider \<Rightarrow> PrivateZone list \<Rightarrow> PrivateZone list \<Rightarrow> error + PrivateZone list" where
  "zones_page p [] zones = Inr zones"
| "zones_page p (zone # rest) zones =
     (case zoneSelected p zone of
        Inl err \<Rightarrow> Inl err
      | Inr sel \<Rightarrow> zones_page p rest (if sel then zones @ [zone] else zones))"

fun zones_pager ::
  "AzurePrivateDNSProvider \<Rightarrow> (error + PrivateZone list) list \<Rightarrow> PrivateZone list
     \<Rightarrow> error + PrivateZone list" where
  "zones_pager p [] zones = Inr zones"
| "zones_pager p (Inl err # pager) zones = Inl err"
| "zones_pager p (Inr nextResult # pager) zones =
     (case zones_page p nextResult zones of
        Inl err \<Rightarrow> Inl err
      | Inr zones' \<Rightarrow> zones_pager p pager zones')"

definition zones ::
  "AzurePrivateDNSProvider \<Rightarrow> int \<Rightarrow> azure_state \<Rightarrow> (error + PrivateZone list) \<times> azure_state" where
  "zones p now st =
     (if \<not> Expired now (st_zonesCache st) then (Inr (Get (st_zonesCache st)), st)
      else
        (case zones_pager p (az_zonesClient p (az_resourceGroup p)) [] of
           Inl err \<Rightarrow> (Inl err, st)
         | Inr zs \<Rightarrow> (Inr zs, st\<lparr>st_zonesCache := Reset now zs (st_zonesCache st)\<rparr>)))"

text \<open>\<open>strings.TrimPrefix\<close> and \<open>strings.TrimSuffix\<close>.\<close>

definition TrimPrefix :: "string \<Rightarrow> string \<Rightarrow> string" where
  "TrimPrefix s pre = (if take (length pre) s = pre then drop (length pre) s else s)"

definition TrimSuffix :: "string \<Rightarrow> string \<Rightarrow> string" where
  "TrimSuffix s suf = (if HasSuffix s suf then take (length s - length suf) s else s)"

text \<open>\<open>%d\<close> of an integer: decimal digits, with a minus sign below zero.\<close>

definition digit :: "nat \<Rightarrow> char" where
  "digit d = char_of (48 + d)"

function decimal :: "nat \<Rightarrow> string" where
  "decimal n = (if n < 10 then [digit n] else decimal (n div 10) @ [digit (n mod 10)])"
  by pat_completeness auto
termination
  by (relation "measure (\<lambda>n. n)") auto

declare decimal.simps [simp del]

definition fmt_d :: "int \<Rightarrow> string" where
  "fmt_d i = (if i < 0 then ''-'' @ decimal (nat (- i)) else decimal (nat i))"

text \<open>
  Dereferencing every pointer of a list, as the loops
  \<open>targets[i] = *aRecord.IPv4Address\<close> do: the first nil pointer panics.
\<close>

fun derefAll :: "'a option list \<Rightarrow> error + 'a list" where
  "derefAll [] = Inr []"
| "derefAll (None # ps) = Inl nilDereference"
| "derefAll (Some v # ps) = (case derefAll ps of Inl err \<Rightarrow> Inl err | Inr vs \<Rightarrow> Inr (v # vs))"

definition mxTarget :: "MxRecord \<Rightarrow> string option" where
  "mxTarget mxRecord =
     (case (Preference mxRecord, Exchange mxRecord) of
        (Some pref, Some exch) \<Rightarrow> Some (fmt_d (sint pref) @ '' '' @ exch)
      | _ \<Rightarrow> None)"

text \<open>\<open>extractAzurePrivateDNSTargets\<close>.\<close>

definition extractAzurePrivateDNSTargets :: "RecordSet \<Rightarrow> error + string list" where
  "extractAzurePrivateDNSTargets recordSet =
     (case rs_Properties recordSet of
        None \<Rightarrow> Inr []
      | Some properties \<Rightarrow>
          if length (ARecords properties) > 0
             \<and> IPv4Address (hd (ARecords properties)) \<noteq> None
          then derefAll (map IPv4Address (ARecords properties))
          else if length (AaaaRecords properties) > 0
             \<and> IPv6Address (hd (AaaaRecords properties)) \<noteq> None
          then derefAll (map IPv6Address (AaaaRecords properties))
          else if CnameRecord properties \<noteq> None
             \<and> Cname (the (CnameRecord properties)) \<noteq> None
          then Inr [the (Cname (the (CnameRecord properties)))]
          else if length (MxRecords properties) > 0
             \<and> Exchange (hd (MxRecords properties)) \<noteq> None
          then derefAll (map mxTarget (MxRecords properties))
          else if length (TxtRecords properties) > 0
             \<and> length (Value (hd (TxtRecords properties))) > 0
          then derefAll [hd (Value (hd (TxtRecords properties)))]
          else Inr [])"

text \<open>
  \<open>AzurePrivateDNSProvider.Records\<close>. One record set of a page (lines 121 to 158):
  \<open>None\<close> is \<open>continue\<close>. \<open>recordSet.Properties.TTL\<close> is read after targets were found,
  which a record set without properties does not have.
\<close>

definition recordSetEndpoint ::
  "azure_package \<Rightarrow> AzurePrivateDNSProvider \<Rightarrow> string \<Rightarrow> RecordSet
     \<Rightarrow> error + (string \<rightharpoonup> string) Endpoint option" where
  "recordSetEndpoint pkg p zoneName recordSet =
     (case rs_Type recordSet of
        None \<Rightarrow> Inr None
      | Some rtype \<Rightarrow>
          (case rs_Name recordSet of
             None \<Rightarrow> Inr None
           | Some rname \<Rightarrow>
               (let recordType = TrimPrefix rtype ''Microsoft.Network/privateDnsZones/'';
                    name = formatAzureDNSName pkg rname zoneName
                in if length (Filters (az_zoneNameFilter p)) > 0
                      \<and> \<not> Match (az_domainFilter p) name
                   then Inr None
                   else
                     (case extractAzurePrivateDNSTargets recordSet of
                        Inl err \<Rightarrow> Inl err
                      | Inr targets \<Rightarrow>
                          if length targets = 0 then Inr None
                          else
                            (case rs_Properties recordSet of
                               None \<Rightarrow> Inl nilDereference
                             | Some properties \<Rightarrow>
                                 Inr (Some (NewEndpointWithTTL name recordType
                                   (case props_TTL properties of None \<Rightarrow> 0 | Some t \<Rightarrow> t)
                                   targets Map.empty)))))))"

fun records_page ::
  "azure_package \<Rightarrow> AzurePrivateDNSProvider \<Rightarrow> string \<Rightarrow> RecordSet list
     \<Rightarrow> (string \<rightharpoonup> string) Endpoint list \<Rightarrow> error + (string \<rightharpoonup> string) Endpoint list" where
  "records_page pkg p zoneName [] endpoints = Inr endpoints"
| "records_page pkg p zoneName (recordSet # rest) endpoints =
     (case recordSetEndpoint pkg p zoneName recordSet of
        Inl err \<Rightarrow> Inl err
      | Inr None \<Rightarrow> records_page pkg p zoneName rest endpoints
      | Inr (Some ep) \<Rightarrow> records_page pkg p zoneName rest (endpoints @ [ep]))"

fun records_pager ::
  "azure_package \<Rightarrow> AzurePrivateDNSProvider \<Rightarrow> string \<Rightarrow> (error + RecordSet list) list
     \<Rightarrow> (string \<rightharpoonup> string) Endpoint list \<Rightarrow> error + (string \<rightharpoonup> string) Endpoint list" where
  "records_pager pkg p zoneName [] endpoints = Inr endpoints"
| "records_pager pkg p zoneName (Inl err # pager) endpoints =
     Inl (SoftError (''failed to fetch dns records: '' @ errText err))"
| "records_pager pkg p zoneName (Inr nextResult # pager) endpoints =
     (case records_page pkg p zoneName nextResult endpoints of
        Inl err \<Rightarrow> Inl err
      | Inr endpoints' \<Rightarrow> records_pager pkg p zoneName pager endpoints')"

fun records_zones ::
  "azure_package \<Rightarrow> AzurePrivateDNSProvider \<Rightarrow> PrivateZone list
     \<Rightarrow> (string \<rightharpoonup> string) Endpoint list \<Rightarrow> error + (string \<rightharpoonup> string) Endpoint list" where
  "records_zones pkg p [] endpoints = Inr endpoints"
| "records_zones pkg p (zone # rest) endpoints =
     (case pz_Name zone of
        None \<Rightarrow> Inl nilDereference
      | Some zoneName \<Rightarrow>
          (case records_pager pkg p zoneName
                  (NewListPager (az_recordSetsClient p) (az_resourceGroup p) zoneName)
                  endpoints of
             Inl err \<Rightarrow> Inl err
           | Inr endpoints' \<Rightarrow> records_zones pkg p rest endpoints'))"

definition AzurePrivateDNSProvider_Records ::
  "azure_package \<Rightarrow> AzurePrivateDNSProvider \<Rightarrow> int \<Rightarrow> azure_state
     \<Rightarrow> (error + (string \<rightharpoonup> string) Endpoint list) \<times> azure_state" where
  "AzurePrivateDNSProvider_Records pkg p now st =
     (case zones p now st of
        (Inl err, st') \<Rightarrow> (Inl err, st')
      | (Inr zs, st') \<Rightarrow> (records_zones pkg p zs [], st'))"

text \<open>
  Modelled from the spec: \<open>provider.ZoneIDName\<close> and its \<open>FindZone\<close> (package \<open>provider\<close>
  is not part of the sources at hand). Among all known zones whose name is a
  suffix-match for the name, with the boundary at a label separator (the name equals
  the zone name, or ends with a dot followed by the zone name), \<open>FindZone\<close> selects the
  one with the longest name. When no zone matches it returns the empty string, which
  is what \<open>mapChanges\<close> tests. \<open>mapChanges\<close> adds every zone under its name, so the known
  zones are the list of their names.
\<close>

definition suffixMatch :: "string \<Rightarrow> string \<Rightarrow> bool" where
  "suffixMatch name zoneName \<longleftrightarrow> name = zoneName \<or> HasSuffix name (''.'' @ zoneName)"

definition FindZone :: "string list \<Rightarrow> string \<Rightarrow> string" where
  "FindZone zoneNames name =
     foldl (\<lambda>best zoneName.
              if suffixMatch name zoneName \<and> length zoneName > length best
              then zoneName else best)
       [] zoneNames"

text \<open>
  \<open>azurePrivateDNSChangeMap\<close>, and \<open>AzurePrivateDNSProvider.mapChanges\<close> with its closure
  \<open>mapChange\<close>. The map \<open>ignored\<close> only keeps the log from repeating itself.
\<close>

type_synonym 'l azurePrivateDNSChangeMap = "string \<rightharpoonup> 'l Endpoint list"

definition mapChange ::
  "string list \<Rightarrow> 'l azurePrivateDNSChangeMap \<Rightarrow> 'l Endpoint \<Rightarrow> 'l azurePrivateDNSChangeMap" where
  "mapChange zoneNameIDMapper changeMap change =
     (let zone = FindZone zoneNameIDMapper (DNSName change)
      in if zone = [] then changeMap
         else changeMap(zone \<mapsto>
                (case changeMap zone of None \<Rightarrow> [] | Some eps \<Rightarrow> eps) @ [change]))"

definition mapChanges ::
  "PrivateZone list \<Rightarrow> 'l Endpoint Changes
     \<Rightarrow> 'l azurePrivateDNSChangeMap \<times> 'l azurePrivateDNSChangeMap" where
  "mapChanges zs changes =
     (let zoneNameIDMapper = List.map_filter pz_Name zs
      in (foldl (mapChange zoneNameIDMapper) Map.empty (Delete changes),
          foldl (mapChange zoneNameIDMapper)
            (foldl (mapChange zoneNameIDMapper) Map.empty (Create changes))
            (UpdateNew changes)))"

text \<open>
  \<open>recordSetNameForZone\<close>: \<open>name[:len(name)-len(zone)]\<close> panics when the zone is longer
  than the name.
\<close>

definition recordSetNameForZone :: "string \<Rightarrow> 'l Endpoint \<Rightarrow> error + string" where
  "recordSetNameForZone zone ep =
     (if length zone > length (DNSName ep) then Inl sliceOutOfRange
      else
        (let name = TrimSuffix (take (length (DNSName ep) - length zone) (DNSName ep)) ''.''
         in if name = [] then Inr ''@'' else Inr name))"

text \<open>
  \<open>AzurePrivateDNSProvider.deleteRecords\<close>. Go leaves the order of a \<open>range\<close> over a map
  open: \<open>order\<close> is the order the run takes the keys in. The error of \<open>Delete\<close> is
  logged and dropped. The result is the panic, if there was one, and the calls made.
\<close>

fun deleteRecords_zone ::
  "AzurePrivateDNSProvider \<Rightarrow> string \<Rightarrow> 'l Endpoint list \<Rightarrow> azure_call list
     \<Rightarrow> error option \<times> azure_call list" where
  "deleteRecords_zone p zone [] calls = (None, calls)"
| "deleteRecords_zone p zone (ep # endpoints) calls =
     (case recordSetNameForZone zone ep of
        Inl err \<Rightarrow> (Some err, calls)
      | Inr name \<Rightarrow>
          if \<not> Match (az_domainFilter p) (DNSName ep)
          then deleteRecords_zone p zone endpoints calls
          else if az_dryRun p
          then deleteRecords_zone p zone endpoints calls
          else deleteRecords_zone p zone endpoints
                 (calls @ [RecordSets_Delete (az_resourceGroup p) zone (RecordType ep) name]))"

fun deleteRecords ::
  "AzurePrivateDNSProvider \<Rightarrow> 'l azurePrivateDNSChangeMap \<Rightarrow> string list \<Rightarrow> azure_call list
     \<Rightarrow> error option \<times> azure_call list" where
  "deleteRecords p deleted [] calls = (None, calls)"
| "deleteRecords p deleted (zone # order) calls =
     (case deleteRecords_zone p zone
             (case deleted zone of None \<Rightarrow> [] | Some endpoints \<Rightarrow> endpoints) calls of
        (Some err, calls') \<Rightarrow> (Some err, calls')
      | (None, calls') \<Rightarrow> deleteRecords p deleted order calls')"

text \<open>
  \<open>AzurePrivateDNSProvider.newRecordSet\<close>. \<open>endpoint.Targets[0]\<close> panics on an endpoint
  without targets.
\<close>

fun parseMxTargets :: "azure_package \<Rightarrow> string list \<Rightarrow> error + MxRecord list" where
  "parseMxTargets pkg [] = Inr []"
| "parseMxTargets pkg (target # targets) =
     (case parseMxTarget pkg target of
        Inl err \<Rightarrow> Inl err
      | Inr mxRecord \<Rightarrow>
          (case parseMxTargets pkg targets of
             Inl err \<Rightarrow> Inl err
           | Inr mxRecords \<Rightarrow> Inr (mxRecord # mxRecords)))"

definition emptyProperties :: "64 word \<Rightarrow> RecordSetProperties" where
  "emptyProperties ttl =
     \<lparr>props_TTL = Some ttl, ARecords = [], AaaaRecords = [], CnameRecord = None,
      MxRecords = [], TxtRecords = []\<rparr>"

definition recordSetOf :: "RecordSetProperties \<Rightarrow> RecordSet" where
  "recordSetOf properties = \<lparr>rs_Name = None, rs_Type = None, rs_Properties = Some properties\<rparr>"

definition newRecordSet :: "azure_package \<Rightarrow> 'l Endpoint \<Rightarrow> error + RecordSet" where
  "newRecordSet pkg ep =
     (let ttl = (if TTL_IsConfigured pkg (RecordTTL ep) then RecordTTL ep
                 else azure_defaultTTL pkg)
      in if RecordType ep = ''A'' then
           Inr (recordSetOf ((emptyProperties ttl)
                  \<lparr>ARecords := map (\<lambda>target. \<lparr>IPv4Address = Some target\<rparr>) (Targets ep)\<rparr>))
         else if RecordType ep = ''AAAA'' then
           Inr (recordSetOf ((emptyProperties ttl)
                  \<lparr>AaaaRecords := map (\<lambda>target. \<lparr>IPv6Address = Some target\<rparr>) (Targets ep)\<rparr>))
         else if RecordType ep = ''CNAME'' then
           (case Targets ep of
              [] \<Rightarrow> Inl indexOutOfRange
            | target # _ \<Rightarrow>
                Inr (recordSetOf ((emptyProperties ttl)
                       \<lparr>CnameRecord := Some \<lparr>Cname = Some target\<rparr>\<rparr>)))
         else if RecordType ep = ''MX'' then
           (case parseMxTargets pkg (Targets ep) of
              Inl err \<Rightarrow> Inl err
            | Inr mxRecords \<Rightarrow>
                Inr (recordSetOf ((emptyProperties ttl)\<lparr>MxRecords := mxRecords\<rparr>)))
         else if RecordType ep = ''TXT'' then
           (case Targets ep of
              [] \<Rightarrow> Inl indexOutOfRange
            | target # _ \<Rightarrow>
                Inr (recordSetOf ((emptyProperties ttl)
                       \<lparr>TxtRecords := [\<lparr>Value = [Some target]\<rparr>]\<rparr>)))
         else Inl (PlainError (''unsupported record type '' @ [CHR 0x27] @ RecordType ep
                                @ [CHR 0x27])))"

text \<open>
  \<open>AzurePrivateDNSProvider.updateRecords\<close>. The error of \<open>newRecordSet\<close> and the error of
  \<open>CreateOrUpdate\<close> are logged and dropped; a panic of \<open>newRecordSet\<close> is not.
\<close>

fun updateRecords_zone ::
  "azure_package \<Rightarrow> AzurePrivateDNSProvider \<Rightarrow> string \<Rightarrow> 'l Endpoint list \<Rightarrow> azure_call list
     \<Rightarrow> error option \<times> azure_call list" where
  "updateRecords_zone pkg p zone [] calls = (None, calls)"
| "updateRecords_zone pkg p zone (ep # endpoints) calls =
     (case recordSetNameForZone zone ep of
        Inl err \<Rightarrow> (Some err, calls)
      | Inr name \<Rightarrow>
          if \<not> Match (az_domainFilter p) (DNSName ep)
          then updateRecords_zone pkg p zone endpoints calls
          else if az_dryRun p
          then updateRecords_zone pkg p zone endpoints calls
          else
            (case newRecordSet pkg ep of
               Inl err \<Rightarrow>
                 if isPanic err then (Some err, calls)
                 else updateRecords_zone pkg p zone endpoints calls
             | Inr recordSet \<Rightarrow>
                 updateRecords_zone pkg p zone endpoints
                   (calls @ [RecordSets_CreateOrUpdate (az_resourceGroup p) zone
                               (RecordType ep) name recordSet])))"

fun updateRecords ::
  "azure_package \<Rightarrow> AzurePrivateDNSProvider \<Rightarrow> 'l azurePrivateDNSChangeMap \<Rightarrow> string list
     \<Rightarrow> azure_call list \<Rightarrow> error option \<times> azure_call list" where
  "updateRecords pkg p updated [] calls = (None, calls)"
| "updateRecords pkg p updated (zone # order) calls =
     (case updateRecords_zone pkg p zone
             (case updated zone of None \<Rightarrow> [] | Some endpoints \<Rightarrow> endpoints) calls of
        (Some err, calls') \<Rightarrow> (Some err, calls')
      | (None, calls') \<Rightarrow> updateRecords pkg p updated order calls')"

text \<open>
  \<open>AzurePrivateDNSProvider.ApplyChanges\<close>. \<open>deletedOrder\<close> and \<open>updatedOrder\<close> are the
  orders the two \<open>range\<close> loops take the zones in.
\<close>

definition AzurePrivateDNSProvider_ApplyChanges ::
  "azure_package \<Rightarrow> AzurePrivateDNSProvider \<Rightarrow> 'l Endpoint Changes \<Rightarrow> string list
     \<Rightarrow> string list \<Rightarrow> int \<Rightarrow> azure_state \<Rightarrow> error option \<times> azure_state" where
  "AzurePrivateDNSProvider_ApplyChanges pkg p changes deletedOrder updatedOrder now st =
     (case zones p now st of
        (Inl err, st') \<Rightarrow> (Some err, st')
      | (Inr zs, st') \<Rightarrow>
          (case mapChanges zs changes of
             (deleted, updated) \<Rightarrow>
               (case deleteRecords p deleted deletedOrder (st_calls st') of
                  (Some err, calls1) \<Rightarrow> (Some err, st'\<lparr>st_calls := calls1\<rparr>)
                | (None, calls1) \<Rightarrow>
                    (case updateRecords pkg p updated updatedOrder calls1 of
                       (err, calls2) \<Rightarrow> (err, st'\<lparr>st_calls := calls2\<rparr>)))))"

section \<open>CoreDNS provider (provider/coredns/coredns.go)\<close>

definition priority :: int where
  "priority = 10"

definition randomPrefixLabel :: string where
  "randomPrefixLabel = ''prefix''"

definition RecordTypeTXT :: string where
  "RecordTypeTXT = ''TXT''"

definition RecordTypeA :: string where
  "RecordTypeA = ''A''"

definition RecordTypeCNAME :: string where
  "RecordTypeCNAME = ''CNAME''"

text \<open>\<open>Service\<close>, the CoreDNS etcd record. \<open>TTL\<close> is a \<open>uint32\<close>.\<close>

record Service =
  Host :: string
  Port :: int
  Priority :: int
  Weight :: int
  Text :: string
  Mail :: bool
  svc_TTL :: "32 word"
  TargetStrip :: int
  Group :: string
  Key :: string

text \<open>
  The provider holds endpoints by pointer, and the labels of an endpoint are a map,
  which is a pointer too: two endpoints can hold the same map. So the endpoints and
  the maps live in a store, by address. An endpoint's \<open>Labels\<close> is the address of its
  map, \<open>None\<close> the nil map. A map is the list of its entries, each key once.

  The etcd client behind \<open>coreDNSClient\<close> is the backend: \<open>SaveService\<close> and
  \<open>DeleteService\<close> are its mutating calls, each appended to \<open>w_calls\<close>.
\<close>

datatype coredns_call = SaveService Service | DeleteService string

record coredns_world =
  w_endpoints :: "nat \<Rightarrow> nat option Endpoint"
  w_labels :: "nat \<Rightarrow> (string \<times> string) list"
  w_nextEndpoint :: nat
  w_nextLabels :: nat
  w_calls :: "coredns_call list"
  w_randCount :: nat
  w_rangeCount :: nat

text \<open>
  What the run does not decide: the answers of the client (functions of the calls
  made before), the values of \<open>rand.Int31()\<close> (the k-th call returns \<open>Int31 k\<close>, below
  \<open>2^31\<close>), the order in which the k-th \<open>range\<close> over a map takes its keys
  (\<open>rangeOrder k\<close>, which rearranges the keys), and whether \<open>net.ParseIP\<close> accepts a
  string.
\<close>

record coredns_env =
  GetServices_answer :: "coredns_call list \<Rightarrow> string \<Rightarrow> error + Service list"
  SaveService_answer :: "coredns_call list \<Rightarrow> Service \<Rightarrow> error option"
  DeleteService_answer :: "coredns_call list \<Rightarrow> string \<Rightarrow> error option"
  Int31 :: "nat \<Rightarrow> int"
  rangeOrder :: "nat \<Rightarrow> string list \<Rightarrow> string list"
  ParseIP_ok :: "string \<Rightarrow> bool"

record coreDNSProvider =
  cd_dryRun :: bool
  coreDNSPrefix :: string
  cd_domainFilter :: DomainFilter

text \<open>Reading and writing a Go map: a missing key reads as the empty string.\<close>

definition mapGet :: "(string \<times> string) list \<Rightarrow> string \<Rightarrow> string" where
  "mapGet m k = (case map_of m k of None \<Rightarrow> [] | Some v \<Rightarrow> v)"

fun mapSet :: "(string \<times> 'v) list \<Rightarrow> string \<Rightarrow> 'v \<Rightarrow> (string \<times> 'v) list" where
  "mapSet [] k v = [(k, v)]"
| "mapSet ((k', v') # m) k v = (if k' = k then (k, v) # m else (k', v') # mapSet m k v)"

text \<open>\<open>ep.Labels[k]\<close> and \<open>ep.Labels[k] = v\<close> for the endpoint at an address.\<close>

definition labelGet :: "coredns_world \<Rightarrow> nat \<Rightarrow> string \<Rightarrow> string" where
  "labelGet w ep k =
     (case Labels (w_endpoints w ep) of
        None \<Rightarrow> []
      | Some a \<Rightarrow> mapGet (w_labels w a) k)"

definition labelSet :: "coredns_world \<Rightarrow> nat \<Rightarrow> string \<Rightarrow> string \<Rightarrow> error + coredns_world" where
  "labelSet w ep k v =
     (case Labels (w_endpoints w ep) of
        None \<Rightarrow> Inl nilMapWrite
      | Some a \<Rightarrow> Inr (w\<lparr>w_labels := (w_labels w)(a := mapSet (w_labels w a) k v)\<rparr>))"

text \<open>
  \<open>endpoint.NewEndpointWithTTL\<close> in the store: a new endpoint with a new, empty map.
  \<open>endpoint.NewEndpoint\<close> is the same without a TTL.
\<close>

definition newEndpointWithTTL ::
  "coredns_world \<Rightarrow> string \<Rightarrow> string \<Rightarrow> TTL \<Rightarrow> string list \<Rightarrow> nat \<times> coredns_world" where
  "newEndpointWithTTL w dnsName recordType ttl targets =
     (w_nextEndpoint w,
      w\<lparr>w_endpoints := (w_endpoints w)
            (w_nextEndpoint w :=
               NewEndpointWithTTL dnsName recordType ttl targets (Some (w_nextLabels w))),
        w_labels := (w_labels w)(w_nextLabels w := []),
        w_nextEndpoint := Suc (w_nextEndpoint w),
        w_nextLabels := Suc (w_nextLabels w)\<rparr>)"

definition newEndpoint ::
  "coredns_world \<Rightarrow> string \<Rightarrow> string \<Rightarrow> string list \<Rightarrow> nat \<times> coredns_world" where
  "newEndpoint w dnsName recordType targets = newEndpointWithTTL w dnsName recordType 0 targets"

text \<open>\<open>strings.Split\<close> and \<open>strings.Join\<close> with a separator of one byte, \<open>strings.Count\<close>.\<close>

fun Split :: "string \<Rightarrow> char \<Rightarrow> string list" where
  "Split [] sep = [[]]"
| "Split (c # s) sep =
     (if c = sep then [] # Split s sep
      else (case Split s sep of
              [] \<Rightarrow> [[c]]
            | part # parts \<Rightarrow> (c # part) # parts))"

fun Join :: "string list \<Rightarrow> string \<Rightarrow> string" where
  "Join [] sep = []"
| "Join [part] sep = part"
| "Join (part # parts) sep = part @ sep @ Join parts sep"

definition Count :: "string \<Rightarrow> char \<Rightarrow> nat" where
  "Count s sep = length (filter (\<lambda>c. c = sep) s)"

text \<open>\<open>reverse\<close>: the loop \<open>for i := range len(slice) / 2\<close> that swaps in place.\<close>

function reverse_loop :: "string list \<Rightarrow> nat \<Rightarrow> string list" where
  "reverse_loop items i =
     (if i < length items div 2
      then reverse_loop
             (items[i := items ! (length items - i - 1), length items - i - 1 := items ! i])
             (i + 1)
      else items)"
  by pat_completeness auto
termination
  by (relation "measure (\<lambda>(items, i). length items div 2 - i)") auto

declare reverse_loop.simps [simp del]

definition reverse :: "string list \<Rightarrow> string list" where
  "reverse items = reverse_loop items 0"

text \<open>\<open>findEp\<close>, over the addresses in the slice.\<close>

fun findEp :: "coredns_world \<Rightarrow> nat list \<Rightarrow> string \<Rightarrow> nat option" where
  "findEp w [] dnsName = None"
| "findEp w (item # items) dnsName =
     (if DNSName (w_endpoints w item) = dnsName then Some item else findEp w items dnsName)"

text \<open>\<open>findLabelInTargets\<close>: whether it finds the label.\<close>

fun findLabelInTargets :: "string list \<Rightarrow> string \<Rightarrow> bool" where
  "findLabelInTargets [] label = False"
| "findLabelInTargets (target # targets) label =
     (if target = label then True else findLabelInTargets targets label)"

definition guessRecordType :: "coredns_env \<Rightarrow> string \<Rightarrow> string" where
  "guessRecordType env target = (if ParseIP_ok env target then RecordTypeA else RecordTypeCNAME)"

text \<open>
  \<open>coreDNSProvider.Records\<close>: the body of the loop for one service. \<open>result\<close> is the
  slice of addresses built so far. \<open>domains[service.TargetStrip:]\<close> panics when
  \<open>TargetStrip\<close> is negative or beyond the length.
\<close>

definition Records_host ::
  "coredns_env \<Rightarrow> Service \<Rightarrow> string \<Rightarrow> string \<Rightarrow> nat list \<Rightarrow> coredns_world
     \<Rightarrow> (error + nat list) \<times> coredns_world" where
  "Records_host env service dnsName prefix result w =
     (case (case findEp w result dnsName of
              Some ep \<Rightarrow>
                (ep, w\<lparr>w_endpoints := (w_endpoints w)
                         (ep := (w_endpoints w ep)
                            \<lparr>Targets := Targets (w_endpoints w ep) @ [Host service]\<rparr>)\<rparr>)
            | None \<Rightarrow>
                newEndpointWithTTL w dnsName (guessRecordType env (Host service))
                  (ucast (svc_TTL service)) [Host service]) of
        (ep, w1) \<Rightarrow>
          (case labelSet w1 ep ''originalText'' (Text service) of
             Inl err \<Rightarrow> (Inl err, w1)
           | Inr w2 \<Rightarrow>
               (case labelSet w2 ep randomPrefixLabel prefix of
                  Inl err \<Rightarrow> (Inl err, w2)
                | Inr w3 \<Rightarrow>
                    (case labelSet w3 ep (Host service) prefix of
                       Inl err \<Rightarrow> (Inl err, w3)
                     | Inr w4 \<Rightarrow> (Inr (result @ [ep]), w4)))))"

definition Records_text ::
  "Service \<Rightarrow> string \<Rightarrow> string \<Rightarrow> nat list \<Rightarrow> coredns_world
     \<Rightarrow> (error + nat list) \<times> coredns_world" where
  "Records_text service dnsName prefix result w =
     (case newEndpoint w dnsName RecordTypeTXT [Text service] of
        (ep, w1) \<Rightarrow>
          (case labelSet w1 ep randomPrefixLabel prefix of
             Inl err \<Rightarrow> (Inl err, w1)
           | Inr w2 \<Rightarrow> (Inr (result @ [ep]), w2)))"

definition Records_service ::
  "coredns_env \<Rightarrow> coreDNSProvider \<Rightarrow> Service \<Rightarrow> nat list \<Rightarrow> coredns_world
     \<Rightarrow> (error + nat list) \<times> coredns_world" where
  "Records_service env p service result w =
     (let domains = reverse (Split (TrimPrefix (Key service) (coreDNSPrefix p)) CHR ''/'')
      in if TargetStrip service < 0 \<or> TargetStrip service > int (length domains)
         then (Inl sliceOutOfRange, w)
         else
           (let dnsName = Join (drop (nat (TargetStrip service)) domains) ''.''
            in if \<not> Match (cd_domainFilter p) dnsName then (Inr result, w)
               else
                 (let prefix = Join (take (nat (TargetStrip service)) domains) ''.''
                  in case (if Host service \<noteq> []
                           then Records_host env service dnsName prefix result w
                           else (Inr result, w)) of
                       (Inl err, w1) \<Rightarrow> (Inl err, w1)
                     | (Inr result1, w1) \<Rightarrow>
                         (if Text service \<noteq> []
                          then Records_text service dnsName prefix result1 w1
                          else (Inr result1, w1)))))"

fun Records_loop ::
  "coredns_env \<Rightarrow> coreDNSProvider \<Rightarrow> Service list \<Rightarrow> nat list \<Rightarrow> coredns_world
     \<Rightarrow> (error + nat list) \<times> coredns_world" where
  "Records_loop env p [] result w = (Inr result, w)"
| "Records_loop env p (service # services) result w =
     (case Records_service env p service result w of
        (Inl err, w1) \<Rightarrow> (Inl err, w1)
      | (Inr result1, w1) \<Rightarrow> Records_loop env p services result1 w1)"

definition coreDNSProvider_Records ::
  "coredns_env \<Rightarrow> coreDNSProvider \<Rightarrow> coredns_world \<Rightarrow> (error + nat list) \<times> coredns_world" where
  "coreDNSProvider_Records env p w =
     (case GetServices_answer env (w_calls w) (coreDNSPrefix p) of
        Inl err \<Rightarrow> (Inl err, w)
      | Inr services \<Rightarrow> Records_loop env p services [] w)"

text \<open>
  The key of the endpoint at an address: \<open>(DNSName, RecordType, SetIdentifier)\<close>.
\<close>

definition endpointKey :: "coredns_world \<Rightarrow> nat \<Rightarrow> string \<times> string \<times> string" where
  "endpointKey w a =
     (DNSName (w_endpoints w a), RecordType (w_endpoints w a), SetIdentifier (w_endpoints w a))"

text \<open>The two mutating calls of the client: the call is recorded, the answer returned.\<close>

definition callSaveService ::
  "coredns_env \<Rightarrow> Service \<Rightarrow> coredns_world \<Rightarrow> error option \<times> coredns_world" where
  "callSaveService env service w =
     (SaveService_answer env (w_calls w) service,
      w\<lparr>w_calls := w_calls w @ [SaveService service]\<rparr>)"

definition callDeleteService ::
  "coredns_env \<Rightarrow> string \<Rightarrow> coredns_world \<Rightarrow> error option \<times> coredns_world" where
  "callDeleteService env k w =
     (DeleteService_answer env (w_calls w) k,
      w\<lparr>w_calls := w_calls w @ [DeleteService k]\<rparr>)"

text \<open>\<open>fmt.Sprintf("%08x", rand.Int31())\<close>: eight hexadecimal digits.\<close>

definition hexDigit :: "int \<Rightarrow> char" where
  "hexDigit d = (if d < 10 then char_of (48 + d) else char_of (87 + d))"

definition fmt_08x :: "int \<Rightarrow> string" where
  "fmt_08x n = map (\<lambda>k. hexDigit ((n div 16 ^ k) mod 16)) [7, 6, 5, 4, 3, 2, 1, 0::nat]"

definition randomPrefix :: "coredns_env \<Rightarrow> coredns_world \<Rightarrow> string \<times> coredns_world" where
  "randomPrefix env w =
     (fmt_08x (Int31 env (w_randCount w) mod 2 ^ 31), w\<lparr>w_randCount := Suc (w_randCount w)\<rparr>)"

text \<open>\<open>coreDNSProvider.etcdKeyFor\<close>.\<close>

definition etcdKeyFor :: "coreDNSProvider \<Rightarrow> string \<Rightarrow> string" where
  "etcdKeyFor p dnsName = coreDNSPrefix p @ Join (reverse (Split dnsName CHR ''.'')) ''/''"

definition shouldSkipLabel :: "string \<Rightarrow> bool" where
  "shouldSkipLabel label = findLabelInTargets [''originalText'', ''prefix'', ''resource''] label"

text \<open>A service with every field at its zero value.\<close>

definition zeroService :: Service where
  "zeroService =
     \<lparr>Host = [], Port = 0, Priority = 0, Weight = 0, Text = [], Mail = False, svc_TTL = 0,
      TargetStrip = 0, Group = [], Key = []\<rparr>"

text \<open>
  \<open>coreDNSProvider.createServicesForEndpoint\<close>. The first loop, over the targets the
  endpoint has when the loop starts; \<open>ep.Labels[target] = prefix\<close> panics on a nil map.
\<close>

fun createServices_targets ::
  "coredns_env \<Rightarrow> coreDNSProvider \<Rightarrow> string \<Rightarrow> nat \<Rightarrow> string list \<Rightarrow> Service list
     \<Rightarrow> coredns_world \<Rightarrow> (error + Service list) \<times> coredns_world" where
  "createServices_targets env p dnsName ep [] services w = (Inr services, w)"
| "createServices_targets env p dnsName ep (target # targets) services w =
     (case (if labelGet w ep target = [] then randomPrefix env w
            else (labelGet w ep target, w)) of
        (prefix, w1) \<Rightarrow>
          (case labelSet w1 ep target prefix of
             Inl err \<Rightarrow> (Inl err, w1)
           | Inr w2 \<Rightarrow>
               createServices_targets env p dnsName ep targets
                 (services @
                    [zeroService
                       \<lparr>Host := target,
                        Text := labelGet w1 ep ''originalText'',
                        Key := etcdKeyFor p (prefix @ ''.'' @ dnsName),
                        TargetStrip := int (Count prefix CHR ''.'') + 1,
                        svc_TTL := ucast (RecordTTL (w_endpoints w1 ep))\<rparr>])
                 w2))"

text \<open>
  The second loop, \<open>for label, labelPrefix := range ep.Labels\<close>, over the keys in the
  order the run takes them: outdated labels are deleted from the backend, unless
  \<open>dryRun\<close>.
\<close>

fun createServices_labels ::
  "coredns_env \<Rightarrow> coreDNSProvider \<Rightarrow> string \<Rightarrow> nat \<Rightarrow> string list \<Rightarrow> coredns_world
     \<Rightarrow> error option \<times> coredns_world" where
  "createServices_labels env p dnsName ep [] w = (None, w)"
| "createServices_labels env p dnsName ep (label # rest) w =
     (if shouldSkipLabel label then createServices_labels env p dnsName ep rest w
      else if \<not> findLabelInTargets (Targets (w_endpoints w ep)) label then
        (if cd_dryRun p then createServices_labels env p dnsName ep rest w
         else
           (case callDeleteService env
                   (etcdKeyFor p (labelGet w ep label @ ''.'' @ dnsName)) w of
              (Some err, w1) \<Rightarrow> (Some err, w1)
            | (None, w1) \<Rightarrow> createServices_labels env p dnsName ep rest w1))
      else createServices_labels env p dnsName ep rest w)"

definition createServicesForEndpoint ::
  "coredns_env \<Rightarrow> coreDNSProvider \<Rightarrow> string \<Rightarrow> nat \<Rightarrow> coredns_world
     \<Rightarrow> (error + Service list) \<times> coredns_world" where
  "createServicesForEndpoint env p dnsName ep w =
     (case createServices_targets env p dnsName ep (Targets (w_endpoints w ep)) [] w of
        (Inl err, w1) \<Rightarrow> (Inl err, w1)
      | (Inr services, w1) \<Rightarrow>
          (case createServices_labels env p dnsName ep
                  (rangeOrder env (w_rangeCount w1)
                     (case Labels (w_endpoints w1 ep) of
                        None \<Rightarrow> []
                      | Some a \<Rightarrow> map fst (w_labels w1 a)))
                  (w1\<lparr>w_rangeCount := Suc (w_rangeCount w1)\<rparr>) of
             (Some err, w2) \<Rightarrow> (Inl err, w2)
           | (None, w2) \<Rightarrow> (Inr services, w2)))"

text \<open>
  \<open>coreDNSProvider.updateTXTRecords\<close>: the loop over the group with its \<open>index\<close>, then
  the loop that clears the text of the services from \<open>index\<close> on. \<open>ep.Targets[0]\<close>
  panics on an endpoint without targets.
\<close>

fun updateTXTRecords_loop ::
  "coredns_env \<Rightarrow> coreDNSProvider \<Rightarrow> string \<Rightarrow> nat list \<Rightarrow> Service list \<Rightarrow> nat
     \<Rightarrow> coredns_world \<Rightarrow> (error + Service list \<times> nat) \<times> coredns_world" where
  "updateTXTRecords_loop env p dnsName [] services index w = (Inr (services, index), w)"
| "updateTXTRecords_loop env p dnsName (ep # grp) services index w =
     (if RecordType (w_endpoints w ep) \<noteq> RecordTypeTXT
      then updateTXTRecords_loop env p dnsName grp services index w
      else
        (case (if index \<ge> length services then
                 (case (if labelGet w ep randomPrefixLabel = [] then randomPrefix env w
                        else (labelGet w ep randomPrefixLabel, w)) of
                    (prefix, w1) \<Rightarrow>
                      (services @
                         [zeroService
                            \<lparr>Key := etcdKeyFor p (prefix @ ''.'' @ dnsName),
                             TargetStrip := int (Count prefix CHR ''.'') + 1,
                             svc_TTL := ucast (RecordTTL (w_endpoints w ep))\<rparr>],
                       w1))
               else (services, w)) of
           (services1, w1) \<Rightarrow>
             (case Targets (w_endpoints w1 ep) of
                [] \<Rightarrow> (Inl indexOutOfRange, w1)
              | target # _ \<Rightarrow>
                  updateTXTRecords_loop env p dnsName grp
                    (services1[index := (services1 ! index)\<lparr>Text := target\<rparr>])
                    (index + 1) w1)))"

definition updateTXTRecords ::
  "coredns_env \<Rightarrow> coreDNSProvider \<Rightarrow> string \<Rightarrow> nat list \<Rightarrow> Service list \<Rightarrow> coredns_world
     \<Rightarrow> (error + Service list) \<times> coredns_world" where
  "updateTXTRecords env p dnsName grp services w =
     (case updateTXTRecords_loop env p dnsName grp services 0 w of
        (Inl err, w1) \<Rightarrow> (Inl err, w1)
      | (Inr (services1, index), w1) \<Rightarrow>
          (Inr (if index > 0
                then take index services1
                       @ map (\<lambda>service. service\<lparr>Text := []\<rparr>) (drop index services1)
                else services1),
           w1))"

text \<open>\<open>coreDNSProvider.applyGroup\<close>: its first and its last loop, then the function.\<close>

fun applyGroup_create ::
  "coredns_env \<Rightarrow> coreDNSProvider \<Rightarrow> string \<Rightarrow> nat list \<Rightarrow> Service list \<Rightarrow> coredns_world
     \<Rightarrow> (error + Service list) \<times> coredns_world" where
  "applyGroup_create env p dnsName [] services w = (Inr services, w)"
| "applyGroup_create env p dnsName (ep # grp) services w =
     (if RecordType (w_endpoints w ep) \<noteq> RecordTypeTXT then
        (case createServicesForEndpoint env p dnsName ep w of
           (Inl err, w1) \<Rightarrow> (Inl err, w1)
         | (Inr srvs, w1) \<Rightarrow> applyGroup_create env p dnsName grp (services @ srvs) w1)
      else applyGroup_create env p dnsName grp services w)"

fun applyGroup_save ::
  "coredns_env \<Rightarrow> coreDNSProvider \<Rightarrow> Service list \<Rightarrow> coredns_world
     \<Rightarrow> error option \<times> coredns_world" where
  "applyGroup_save env p [] w = (None, w)"
| "applyGroup_save env p (service # services) w =
     (if cd_dryRun p then applyGroup_save env p services w
      else
        (case callSaveService env service w of
           (Some err, w1) \<Rightarrow> (Some err, w1)
         | (None, w1) \<Rightarrow> applyGroup_save env p services w1))"

definition applyGroup ::
  "coredns_env \<Rightarrow> coreDNSProvider \<Rightarrow> string \<Rightarrow> nat list \<Rightarrow> coredns_world
     \<Rightarrow> error option \<times> coredns_world" where
  "applyGroup env p dnsName grp w =
     (case applyGroup_create env p dnsName grp [] w of
        (Inl err, w1) \<Rightarrow> (Some err, w1)
      | (Inr services, w1) \<Rightarrow>
          (case updateTXTRecords env p dnsName grp services w1 of
             (Inl err, w2) \<Rightarrow> (Some err, w2)
           | (Inr services1, w2) \<Rightarrow> applyGroup_save env p services1 w2))"

text \<open>
  \<open>coreDNSProvider.groupEndpoints\<close>. \<open>grouped[name] = append(grouped[name], ep)\<close>, then
  the two loops. The second one assigns the labels of the old endpoint of an update to
  the new one (\<open>ep.Labels = updateOld[i].Labels\<close>): the address of the map.
\<close>

definition groupAppend :: "(string \<times> nat list) list \<Rightarrow> string \<Rightarrow> nat \<Rightarrow> (string \<times> nat list) list" where
  "groupAppend grouped name ep =
     mapSet grouped name ((case map_of grouped name of None \<Rightarrow> [] | Some g \<Rightarrow> g) @ [ep])"

fun groupEndpoints_create ::
  "nat list \<Rightarrow> (string \<times> nat list) list \<Rightarrow> coredns_world \<Rightarrow> (string \<times> nat list) list" where
  "groupEndpoints_create [] grouped w = grouped"
| "groupEndpoints_create (ep # eps) grouped w =
     groupEndpoints_create eps (groupAppend grouped (DNSName (w_endpoints w ep)) ep) w"

fun groupEndpoints_update ::
  "(nat \<times> nat) list \<Rightarrow> (string \<times> nat list) list \<Rightarrow> coredns_world
     \<Rightarrow> (string \<times> nat list) list \<times> coredns_world" where
  "groupEndpoints_update [] grouped w = (grouped, w)"
| "groupEndpoints_update ((ep, old) # rest) grouped w =
     groupEndpoints_update rest
       (groupAppend grouped (DNSName (w_endpoints w ep)) ep)
       (w\<lparr>w_endpoints := (w_endpoints w)
             (ep := (w_endpoints w ep)\<lparr>Labels := Labels (w_endpoints w old)\<rparr>)\<rparr>)"

definition groupEndpoints ::
  "nat Changes \<Rightarrow> coredns_world \<Rightarrow> (string \<times> nat list) list \<times> coredns_world" where
  "groupEndpoints changes w =
     groupEndpoints_update (zip (UpdateNew changes) (UpdateOld changes))
       (groupEndpoints_create (Create changes) [] w) w"

text \<open>\<open>coreDNSProvider.deleteEndpoints\<close>.\<close>

fun deleteEndpoints ::
  "coredns_env \<Rightarrow> coreDNSProvider \<Rightarrow> nat list \<Rightarrow> coredns_world \<Rightarrow> error option \<times> coredns_world" where
  "deleteEndpoints env p [] w = (None, w)"
| "deleteEndpoints env p (ep # endpoints) w =
     (if cd_dryRun p then deleteEndpoints env p endpoints w
      else
        (case callDeleteService env
                (etcdKeyFor p
                   (if labelGet w ep randomPrefixLabel \<noteq> []
                    then labelGet w ep randomPrefixLabel @ ''.'' @ DNSName (w_endpoints w ep)
                    else DNSName (w_endpoints w ep))) w of
           (Some err, w1) \<Rightarrow> (Some err, w1)
         | (None, w1) \<Rightarrow> deleteEndpoints env p endpoints w1))"

text \<open>
  \<open>coreDNSProvider.ApplyChanges\<close>: the loop over the groups, in the order the run takes
  the names, then the function.
\<close>

fun ApplyChanges_groups ::
  "coredns_env \<Rightarrow> coreDNSProvider \<Rightarrow> (string \<times> nat list) list \<Rightarrow> string list \<Rightarrow> coredns_world
     \<Rightarrow> error option \<times> coredns_world" where
  "ApplyChanges_groups env p grouped [] w = (None, w)"
| "ApplyChanges_groups env p grouped (dnsName # rest) w =
     (if \<not> Match (cd_domainFilter p) dnsName then ApplyChanges_groups env p grouped rest w
      else
        (case applyGroup env p dnsName
                (case map_of grouped dnsName of None \<Rightarrow> [] | Some g \<Rightarrow> g) w of
           (Some err, w1) \<Rightarrow> (Some err, w1)
         | (None, w1) \<Rightarrow> ApplyChanges_groups env p grouped rest w1))"

definition coreDNSProvider_ApplyChanges ::
  "coredns_env \<Rightarrow> coreDNSProvider \<Rightarrow> nat Changes \<Rightarrow> coredns_world
     \<Rightarrow> error option \<times> coredns_world" where
  "coreDNSProvider_ApplyChanges env p changes w =
     (case groupEndpoints changes w of
        (grouped, w1) \<Rightarrow>
          (case ApplyChanges_groups env p grouped
                  (rangeOrder env (w_rangeCount w1) (map fst grouped))
                  (w1\<lparr>w_rangeCount := Suc (w_rangeCount w1)\<rparr>) of
             (Some err, w2) \<Rightarrow> (Some err, w2)
           | (None, w2) \<Rightarrow> deleteEndpoints env p (Delete changes) w2))"

section \<open>Ingress source (source/ingress.go)\<close>

definition IngressClassAnnotationKey :: string where
  "IngressClassAnnotationKey = ''kubernetes.io/ingress.class''"

text \<open>
  \<open>NewIngressSource\<close>. What it calls is not part of the sources at hand and is taken as
  given: \<open>fqdn.ParseTemplate\<close> (its error, if any), \<open>getLabelSelector\<close> (its error, or
  the keys of the requirements of the selector, in order) and the start of the
  informer with \<open>informers.WaitForCacheSync\<close> (its error, if any). \<open>ingressClassNames\<close>
  is a slice, \<open>None\<close> the nil slice. The result is the error or the configuration the
  source is built with, and whether the informer was started.
\<close>

record ingress_package =
  ParseTemplate :: "string \<Rightarrow> error option"
  getLabelSelector :: "string \<Rightarrow> error + string list"
  WaitForCacheSync :: "error option"

record ingressSource =
  src_namespace :: string
  src_annotationFilter :: string
  src_ingressClassNames :: "string list option"
  src_fqdnTemplate :: string
  src_combineFQDNAnnotation :: bool
  src_ignoreHostnameAnnotation :: bool
  src_ignoreIngressTLSSpec :: bool
  src_ignoreIngressRulesSpec :: bool

fun hasIngressClassRequirement :: "string list \<Rightarrow> bool" where
  "hasIngressClassRequirement [] = False"
| "hasIngressClassRequirement (k # requirements) =
     (if k = ''kubernetes.io/ingress.class'' then True
      else hasIngressClassRequirement requirements)"

definition NewIngressSource ::
  "ingress_package \<Rightarrow> string \<Rightarrow> string \<Rightarrow> string \<Rightarrow> bool \<Rightarrow> bool \<Rightarrow> bool \<Rightarrow> bool
     \<Rightarrow> string list option \<Rightarrow> (error + ingressSource) \<times> bool" where
  "NewIngressSource pkg namespace annotationFilter fqdnTemplate combineFqdnAnnotation
     ignoreHostnameAnnotation ignoreIngressTLSSpec ignoreIngressRulesSpec ingressClassNames =
     (case ParseTemplate pkg fqdnTemplate of
        Some err \<Rightarrow> (Inl err, False)
      | None \<Rightarrow>
          (case (if ingressClassNames \<noteq> None \<and> annotationFilter \<noteq> []
                 then (case getLabelSelector pkg annotationFilter of
                         Inl err \<Rightarrow> Some err
                       | Inr requirements \<Rightarrow>
                           if hasIngressClassRequirement requirements
                           then Some (PlainError
                             ''--ingress-class is mutually exclusive with the kubernetes.io/ingress.class annotation filter'')
                           else None)
                 else None) of
             Some err \<Rightarrow> (Inl err, False)
           | None \<Rightarrow>
               (case WaitForCacheSync pkg of
                  Some err \<Rightarrow> (Inl err, True)
                | None \<Rightarrow>
                    (Inr \<lparr>src_namespace = namespace,
                          src_annotationFilter = annotationFilter,
                          src_ingressClassNames = ingressClassNames,
                          src_fqdnTemplate = fqdnTemplate,
                          src_combineFQDNAnnotation = combineFqdnAnnotation,
                          src_ignoreHostnameAnnotation = ignoreHostnameAnnotation,
                          src_ignoreIngressTLSSpec = ignoreIngressTLSSpec,
                          src_ignoreIngressRulesSpec = ignoreIngressRulesSpec\<rparr>,
                     True))))"

section \<open>Reading the traces\<close>

text \<open>
  The change types of the rrsets that a raw PowerDNS call sends: those of the zone of a
  \<open>PatchZone\<close>, none for the other calls.
\<close>

fun sentChangetypes :: "pdns_event \<Rightarrow> string list" where
  "sentChangetypes (RawPatchZone zoneID zoneStruct) =
     map rr_Changetype (zone_Rrsets zoneStruct)"
| "sentChangetypes RawListZones = []"
| "sentChangetypes (Sleep d) = []"

text \<open>
  What \<open>k\<close> failed attempts of a PowerDNS call leave in the trace, for the call \<open>ev\<close>:
  the call and the sleep after it, \<open>k\<close> times, the sleep doubling from 250 ms.
\<close>

definition failedAttempts :: "pdns_event \<Rightarrow> nat \<Rightarrow> pdns_trace" where
  "failedAttempts ev k = concat (map (\<lambda>i. [ev, Sleep (retryAfterTime * 2 ^ i)]) [0..<k])"

text \<open>The two kinds of mutating calls to the Azure record sets client.\<close>

fun isDeleteCall :: "azure_call \<Rightarrow> bool" where
  "isDeleteCall (RecordSets_Delete rg zone rtype name) = True"
| "isDeleteCall (RecordSets_CreateOrUpdate rg zone rtype name recordSet) = False"

fun isCreateOrUpdateCall :: "azure_call \<Rightarrow> bool" where
  "isCreateOrUpdateCall (RecordSets_Delete rg zone rtype name) = False"
| "isCreateOrUpdateCall (RecordSets_CreateOrUpdate rg zone rtype name recordSet) = True"

section \<open>Concrete inputs\<close>

text \<open>
  A PowerDNS server with the zones \<open>example.com.\<close> and \<open>zone1.example.com.\<close> that
  answers every call without an error, a provider for it without a domain filter, and
  endpoints to convert.
\<close>

definition noFilter :: DomainFilter where
  "noFilter = \<lparr>Filters = [], IsConfigured = False, Match = (\<lambda>name. True)\<rparr>"

definition example_zones :: "Zone list" where
  "example_zones =
     [\<lparr>zone_Id = ''example.com.'', zone_Name = ''example.com.'', zone_Rrsets = []\<rparr>,
      \<lparr>zone_Id = ''zone1.example.com.'', zone_Name = ''zone1.example.com.'', zone_Rrsets = []\<rparr>]"

definition example_api :: ZonesApi where
  "example_api =
     \<lparr>api_ListZones = (\<lambda>tr. Inr example_zones),
      api_PatchZone = (\<lambda>tr zoneID zoneStruct. None)\<rparr>"

definition example_pdns :: PDNSProvider where
  "example_pdns =
     \<lparr>client = \<lparr>pdns_dryRun = False, pdns_serverID = ''localhost'',
                 pdns_client = example_api, pdns_domainFilter = noFilter\<rparr>\<rparr>"

definition example_endpoint :: "string \<Rightarrow> string \<Rightarrow> TTL \<Rightarrow> string list \<Rightarrow> unit Endpoint" where
  "example_endpoint dnsName recordType ttl targets =
     NewEndpointWithTTL dnsName recordType ttl targets ()"

definition example_foo :: "unit Endpoint" where
  "example_foo = example_endpoint ''foo.zone1.example.com'' ''A'' 0 [''1.2.3.4'']"

definition example_foo_zones :: "Zone list" where
  "example_foo_zones =
     [\<lparr>zone_Id = ''zone1.example.com.'', zone_Name = ''zone1.example.com.'',
       zone_Rrsets =
         [\<lparr>rr_Name = ''foo.zone1.example.com.'', rr_Type = ''A'', rr_Ttl = 300,
           rr_Changetype = ''REPLACE'',
           rr_Records = [\<lparr>Content = ''1.2.3.4'', Disabled = False\<rparr>]\<rparr>]\<rparr>]"

text \<open>
  An apex record, \<open>example.com\<close> as a CNAME; an endpoint with a TTL of \<open>2^31\<close> seconds;
  an endpoint that no zone matches; a record
  to create and one of another type to delete at the same name; and a server whose
  every answer is an error.
\<close>

definition example_apex :: "unit Endpoint" where
  "example_apex = example_endpoint ''example.com'' ''CNAME'' 0 [''other.org'']"

definition example_apex_zones :: "Zone list" where
  "example_apex_zones =
     [\<lparr>zone_Id = ''example.com.'', zone_Name = ''example.com.'',
       zone_Rrsets =
         [\<lparr>rr_Name = ''example.com.'', rr_Type = ''ALIAS'', rr_Ttl = 300,
           rr_Changetype = ''REPLACE'',
           rr_Records = [\<lparr>Content = ''other.org.'', Disabled = False\<rparr>]\<rparr>]\<rparr>]"

definition long_lived :: "unit Endpoint" where
  "long_lived = example_endpoint ''foo.zone1.example.com'' ''A'' 2147483648 [''1.2.3.4'']"

definition example_nope :: "unit Endpoint" where
  "example_nope = example_endpoint ''nope.org'' ''A'' 0 [''4.4.4.4'']"

definition example_switch :: "unit Endpoint Changes" where
  "example_switch =
     \<lparr>Create = [example_endpoint ''a.example.com'' ''A'' 0 [''1.2.3.4'']],
      Update = [],
      Delete = [example_endpoint ''a.example.com'' ''CNAME'' 0 [''other.org'']]\<rparr>"

definition failing_pdns :: PDNSProvider where
  "failing_pdns =
     \<lparr>client = \<lparr>pdns_dryRun = False, pdns_serverID = ''localhost'',
                 pdns_client =
                   \<lparr>api_ListZones = (\<lambda>tr. Inl (PlainError ''connection refused'')),
                    api_PatchZone = (\<lambda>tr zoneID zoneStruct.
                                       Some (PlainError ''connection refused''))\<rparr>,
                 pdns_domainFilter = noFilter\<rparr>\<rparr>"

text \<open>
  An Azure provider for the private zone \<open>example.com\<close>, with an empty zones cache that
  is always expired, in dry run and not, and one whose record sets cannot be fetched.
  The package functions are stand-ins: names are joined to the zone with a dot, no MX
  target parses, the default TTL is 300 and a TTL is configured when it is positive.
\<close>

definition example_private_zones :: "PrivateZone list" where
  "example_private_zones =
     [\<lparr>pz_ID = Some ''/privateDnsZones/example.com'', pz_Name = Some ''example.com''\<rparr>]"

definition example_azure :: AzurePrivateDNSProvider where
  "example_azure =
     \<lparr>az_domainFilter = noFilter, az_zoneNameFilter = noFilter,
      az_zoneIDFilter = (\<lambda>zid. True), az_dryRun = True, az_resourceGroup = ''group'',
      az_zonesClient = (\<lambda>rg. [Inr example_private_zones]),
      az_recordSetsClient = \<lparr>NewListPager = (\<lambda>rg zone. [Inr []])\<rparr>\<rparr>"

definition example_azure_live :: AzurePrivateDNSProvider where
  "example_azure_live = example_azure\<lparr>az_dryRun := False\<rparr>"

definition failing_azure :: AzurePrivateDNSProvider where
  "failing_azure =
     example_azure\<lparr>az_recordSetsClient :=
       \<lparr>NewListPager = (\<lambda>rg zone. [Inl (PlainError ''timeout'')])\<rparr>\<rparr>"

definition example_azure_state :: azure_state where
  "example_azure_state =
     \<lparr>st_zonesCache = \<lparr>zc_timestamp = 0, zc_duration = 0, zc_value = []\<rparr>, st_calls = []\<rparr>"

definition example_azure_package :: azure_package where
  "example_azure_package =
     \<lparr>formatAzureDNSName = (\<lambda>recordName zoneName. recordName @ ''.'' @ zoneName),
      parseMxTarget = (\<lambda>target. Inl (PlainError ''no MX target'')),
      azure_defaultTTL = 300,
      TTL_IsConfigured = (\<lambda>ttl. sint ttl > 0)\<rparr>"

definition example_azure_changes :: "unit Endpoint Changes" where
  "example_azure_changes =
     \<lparr>Create = [example_endpoint ''a.example.com'' ''A'' 0 [''1.2.3.4''], example_nope],
      Update = [],
      Delete = [example_endpoint ''a.example.com'' ''CNAME'' 0 [''other.org'']]\<rparr>"

text \<open>
  A CoreDNS provider in dry run with the prefix \<open>/skydns/\<close>. The backend holds two
  services for \<open>www.example.com\<close>, with the hosts \<open>1.1.1.1\<close> and \<open>2.2.2.2\<close>, and answers
  every call without an error; \<open>rand.Int31()\<close> returns 0, a \<open>range\<close> takes the keys in
  the order they were added, and \<open>net.ParseIP\<close> accepts the two hosts. The store first
  holds nothing; then the endpoints of an update, the old one at address 0 and the new
  one at address 1, each with a map of its own.
\<close>

definition example_coredns :: coreDNSProvider where
  "example_coredns =
     \<lparr>cd_dryRun = True, coreDNSPrefix = ''/skydns/'', cd_domainFilter = noFilter\<rparr>"

definition example_services :: "Service list" where
  "example_services =
     [zeroService\<lparr>Host := ''1.1.1.1'', Priority := 10, TargetStrip := 1,
                  Key := ''/skydns/com/example/www/aaaa''\<rparr>,
      zeroService\<lparr>Host := ''2.2.2.2'', Priority := 10, TargetStrip := 1,
                  Key := ''/skydns/com/example/www/bbbb''\<rparr>]"

definition example_coredns_env :: coredns_env where
  "example_coredns_env =
     \<lparr>GetServices_answer = (\<lambda>calls prefix. Inr example_services),
      SaveService_answer = (\<lambda>calls service. None),
      DeleteService_answer = (\<lambda>calls k. None),
      Int31 = (\<lambda>k. 0),
      rangeOrder = (\<lambda>k keys. keys),
      ParseIP_ok = (\<lambda>target. target = ''1.1.1.1'' \<or> target = ''2.2.2.2'')\<rparr>"

definition empty_world :: coredns_world where
  "empty_world =
     \<lparr>w_endpoints = (\<lambda>a. NewEndpointWithTTL [] [] 0 [] None),
      w_labels = (\<lambda>a. []),
      w_nextEndpoint = 0, w_nextLabels = 0, w_calls = [], w_randCount = 0,
      w_rangeCount = 0\<rparr>"

definition update_world :: coredns_world where
  "update_world =
     empty_world
       \<lparr>w_endpoints := (w_endpoints empty_world)
          (0 := NewEndpointWithTTL ''www.example.com'' ''A'' 0 [''1.1.1.1''] (Some 0),
           1 := NewEndpointWithTTL ''www.example.com'' ''A'' 0 [''2.2.2.2''] (Some 1)),
        w_labels := (w_labels empty_world)
          (0 := [(''1.1.1.1'', ''aaaa''), (''prefix'', ''aaaa'')]),
        w_nextEndpoint := 2, w_nextLabels := 2\<rparr>"

definition example_update :: "nat Changes" where
  "example_update = \<lparr>Create = [], Update = [\<lparr>Old = 0, New = 1\<rparr>], Delete = []\<rparr>"

text \<open>An ingress source configuration in which every call succeeds.\<close>

definition example_ingress_package :: ingress_package where
  "example_ingress_package =
     \<lparr>ParseTemplate = (\<lambda>t. None),
      getLabelSelector = (\<lambda>annotationFilter. Inr [''kubernetes.io/ingress.class'']),
      WaitForCacheSync = None\<rparr>"

text \<open>
  Two PowerDNS configurations that differ in what they leave out: the first asks for a
  dry run, the second has no API key.
\<close>

definition example_tls :: TLSConfig where
  "example_tls =
     \<lparr>SkipTLSVerify = False, CAFilePath = [], ClientCertFilePath = [],
      ClientCertKeyFilePath = []\<rparr>"

definition dry_run_config :: PDNSConfig where
  "dry_run_config =
     \<lparr>cfg_DomainFilter = noFilter, cfg_DryRun = True, cfg_Server = ''http://localhost'',
      cfg_ServerID = ''localhost'', cfg_APIKey = ''secret'', cfg_TLSConfig = example_tls\<rparr>"

definition no_key_config :: PDNSConfig where
  "no_key_config = dry_run_config\<lparr>cfg_DryRun := False, cfg_APIKey := []\<rparr>"

section \<open>PowerDNS: the conversion loops\<close>

lemma zoneMatches_Rrsets [simp]:
  "zoneMatches n (z\<lparr>zone_Rrsets := r\<rparr>) = zoneMatches n z"
  by (simp add: zoneMatches_def)

lemma endpointRrset_Rrsets [simp]:
  "endpointRrset etd ct (z\<lparr>zone_Rrsets := r\<rparr>) ep = endpointRrset etd ct z ep"
  by (simp add: endpointRrset_def)

lemma pop_drop: "i < length xs \<Longrightarrow> drop i (take i xs @ drop (Suc i) xs) = drop (Suc i) xs"
  by simp

lemma pop_take: "i < length xs \<Longrightarrow> take i (take i xs @ drop (Suc i) xs) = take i xs"
  by simp

lemma zoneEndpoints_loop_Inr:
  "zoneEndpoints_loop etd ct zone eps i = Inr (zone', eps') \<Longrightarrow>
     eps' = take i eps @ filter (\<lambda>e. \<not> zoneMatches (etd (DNSName e)) zone) (drop i eps) \<and>
     (\<exists>rs. zone' = zone\<lparr>zone_Rrsets := zone_Rrsets zone @ rs\<rparr> \<and>
        list_all2 (\<lambda>e r. endpointRrset etd ct zone e = Inr r)
          (filter (\<lambda>e. zoneMatches (etd (DNSName e)) zone) (drop i eps)) rs)"
proof (induction etd ct zone eps i arbitrary: zone' eps' rule: zoneEndpoints_loop.induct)
  case (1 etd ct zone eps i)
  show ?case
  proof (cases "i < length eps")
    case False
    with "1.prems" show ?thesis
      by (simp add: zoneEndpoints_loop.simps)
  next
    case lt: True
    have dr: "drop i eps = eps ! i # drop (Suc i) eps"
      using lt by (simp add: Cons_nth_drop_Suc)
    show ?thesis
    proof (cases "zoneMatches (etd (DNSName (eps ! i))) zone")
      case m: True
      from "1.prems" lt m obtain rrset where
        rr: "endpointRrset etd ct zone (eps ! i) = Inr rrset" and
        rec: "zoneEndpoints_loop etd ct (zone\<lparr>zone_Rrsets := zone_Rrsets zone @ [rrset]\<rparr>)
                (take i eps @ drop (i + 1) eps) i = Inr (zone', eps')"
        by (subst (asm) zoneEndpoints_loop.simps) (auto split: sum.splits)
      from "1.IH"(1)[OF lt m rr rec] lt
      obtain rs where
        e: "eps' = take i eps @ filter (\<lambda>e. \<not> zoneMatches (etd (DNSName e)) zone) (drop (Suc i) eps)" and
        z: "zone' = zone\<lparr>zone_Rrsets := zone_Rrsets zone @ [rrset] @ rs\<rparr>" and
        l: "list_all2 (\<lambda>e r. endpointRrset etd ct zone e = Inr r)
              (filter (\<lambda>e. zoneMatches (etd (DNSName e)) zone) (drop (Suc i) eps)) rs"
        by auto
      show ?thesis
        using e z l m rr by (auto simp: dr intro!: exI[of _ "rrset # rs"])
    next
      case nm: False
      from "1.prems" lt nm have
        rec: "zoneEndpoints_loop etd ct zone eps (i + 1) = Inr (zone', eps')"
        by (subst (asm) zoneEndpoints_loop.simps) auto
      from "1.IH"(2)[OF lt nm rec] lt nm show ?thesis
        by (auto simp: dr take_Suc_conv_app_nth)
    qed
  qed
qed

lemma zoneEndpoints_loop_Inl:
  "zoneEndpoints_loop etd ct zone eps i = Inl err \<Longrightarrow>
     \<exists>e \<in> set (drop i eps). zoneMatches (etd (DNSName e)) zone \<and>
        endpointRrset etd ct zone e = Inl err"
proof (induction etd ct zone eps i rule: zoneEndpoints_loop.induct)
  case (1 etd ct zone eps i)
  show ?case
  proof (cases "i < length eps")
    case False
    with "1.prems" show ?thesis
      by (simp add: zoneEndpoints_loop.simps)
  next
    case lt: True
    have dr: "drop i eps = eps ! i # drop (Suc i) eps"
      using lt by (simp add: Cons_nth_drop_Suc)
    show ?thesis
    proof (cases "zoneMatches (etd (DNSName (eps ! i))) zone")
      case m: True
      show ?thesis
      proof (cases "endpointRrset etd ct zone (eps ! i)")
        case (Inl a)
        with "1.prems" lt m have "a = err"
          by (subst (asm) zoneEndpoints_loop.simps) auto
        with Inl m show ?thesis by (auto simp: dr)
      next
        case (Inr rrset)
        with "1.prems" lt m have
          rec: "zoneEndpoints_loop etd ct (zone\<lparr>zone_Rrsets := zone_Rrsets zone @ [rrset]\<rparr>)
                (take i eps @ drop (i + 1) eps) i = Inl err"
          by (subst (asm) zoneEndpoints_loop.simps) auto
        from "1.IH"(1)[OF lt m Inr rec] lt show ?thesis
          by (auto simp: dr)
      qed
    next
      case nm: False
      from "1.prems" lt nm have
        rec: "zoneEndpoints_loop etd ct zone eps (i + 1) = Inl err"
        by (subst (asm) zoneEndpoints_loop.simps) auto
      from "1.IH"(2)[OF lt nm rec] show ?thesis
        by (auto simp: dr)
    qed
  qed
qed


lemma list_all2_right:
  "list_all2 P xs ys \<Longrightarrow> y \<in> set ys \<Longrightarrow> \<exists>x \<in> set xs. P x y"
  by (induction rule: list_all2_induct) auto

lemma list_all2_left:
  "list_all2 P xs ys \<Longrightarrow> x \<in> set xs \<Longrightarrow> \<exists>y \<in> set ys. P x y"
  by (induction rule: list_all2_induct) auto

lemma filteredZones_loop_mono:
  "filteredZones_loop etd ct zs eps zl = Inr (zl', eps') \<Longrightarrow> set zl \<subseteq> set zl'"
proof (induction zs arbitrary: eps zl)
  case Nil
  then show ?case by simp
next
  case (Cons z zs)
  then show ?case
    by (fastforce split: sum.splits if_splits)
qed

lemma filteredZones_loop_rest:
  "filteredZones_loop etd ct zs eps zl = Inr (zl', eps') \<Longrightarrow>
     eps' = filter (\<lambda>e. \<forall>z \<in> set zs. \<not> zoneMatches (etd (DNSName e)) z) eps"
proof (induction zs arbitrary: eps zl)
  case Nil
  then show ?case by simp
next
  case (Cons z zs)
  from Cons.prems obtain z1 eps1 where
    l: "zoneEndpoints_loop etd ct (z\<lparr>zone_Rrsets := []\<rparr>) eps 0 = Inr (z1, eps1)" and
    r: "filteredZones_loop etd ct zs eps1
          (if length (zone_Rrsets z1) > 0 then zl @ [z1] else zl) = Inr (zl', eps')"
    by (auto split: sum.splits)
  from zoneEndpoints_loop_Inr[OF l]
  have e1: "eps1 = filter (\<lambda>e. \<not> zoneMatches (etd (DNSName e)) z) eps"
    by simp
  from Cons.IH[OF r] show ?case
    by (auto simp: e1 intro: filter_cong)
qed

lemma filteredZones_loop_sound:
  "filteredZones_loop etd ct zs eps zl = Inr (zl', eps') \<Longrightarrow>
   y \<in> set zl' \<Longrightarrow> r \<in> set (zone_Rrsets y) \<Longrightarrow>
     y \<in> set zl \<or>
     (\<exists>pre z post e. zs = pre @ z # post \<and>
        zone_Id y = zone_Id z \<and> zone_Name y = zone_Name z \<and>
        e \<in> set eps \<and> endpointRrset etd ct z e = Inr r \<and>
        zoneMatches (etd (DNSName e)) z \<and>
        (\<forall>u \<in> set pre. \<not> zoneMatches (etd (DNSName e)) u))"
proof (induction zs arbitrary: eps zl)
  case Nil
  then show ?case by simp
next
  case (Cons z zs)
  from Cons.prems(1) obtain z1 eps1 where
    l: "zoneEndpoints_loop etd ct (z\<lparr>zone_Rrsets := []\<rparr>) eps 0 = Inr (z1, eps1)" and
    rec: "filteredZones_loop etd ct zs eps1
          (if length (zone_Rrsets z1) > 0 then zl @ [z1] else zl) = Inr (zl', eps')"
    by (auto split: sum.splits)
  from zoneEndpoints_loop_Inr[OF l] obtain rs where
    e1: "eps1 = filter (\<lambda>e. \<not> zoneMatches (etd (DNSName e)) z) eps" and
    z1: "z1 = z\<lparr>zone_Rrsets := rs\<rparr>" and
    la: "list_all2 (\<lambda>e r. endpointRrset etd ct z e = Inr r)
           (filter (\<lambda>e. zoneMatches (etd (DNSName e)) z) eps) rs"
    by auto
  from Cons.IH[OF rec Cons.prems(2,3)]
  consider (old) "y \<in> set zl" | (new) "y = z1"
    | (later) pre z' post e where "zs = pre @ z' # post"
        "zone_Id y = zone_Id z'" "zone_Name y = zone_Name z'" "e \<in> set eps1"
        "endpointRrset etd ct z' e = Inr r" "zoneMatches (etd (DNSName e)) z'"
        "\<forall>u \<in> set pre. \<not> zoneMatches (etd (DNSName e)) u"
    by (auto split: if_splits)
  then show ?case
  proof cases
    case old
    then show ?thesis by simp
  next
    case new
    with Cons.prems(3) z1 have "r \<in> set rs" by simp
    from list_all2_right[OF la this] obtain e where
      "e \<in> set (filter (\<lambda>e. zoneMatches (etd (DNSName e)) z) eps)"
      "endpointRrset etd ct z e = Inr r"
      by blast
    with new z1 have
      "z # zs = [] @ z # zs \<and> zone_Id y = zone_Id z \<and> zone_Name y = zone_Name z \<and>
        e \<in> set eps \<and> endpointRrset etd ct z e = Inr r \<and>
        zoneMatches (etd (DNSName e)) z \<and>
        (\<forall>u \<in> set []. \<not> zoneMatches (etd (DNSName e)) u)"
      by simp
    then show ?thesis by blast
  next
    case later
    with e1 have
      "z # zs = (z # pre) @ z' # post \<and> zone_Id y = zone_Id z' \<and> zone_Name y = zone_Name z' \<and>
        e \<in> set eps \<and> endpointRrset etd ct z' e = Inr r \<and>
        zoneMatches (etd (DNSName e)) z' \<and>
        (\<forall>u \<in> set (z # pre). \<not> zoneMatches (etd (DNSName e)) u)"
      by simp
    then show ?thesis by blast
  qed
qed

lemma filteredZones_loop_complete:
  "filteredZones_loop etd ct zs eps zl = Inr (zl', eps') \<Longrightarrow>
   e \<in> set eps \<Longrightarrow> zs = pre @ z # post \<Longrightarrow> zoneMatches (etd (DNSName e)) z \<Longrightarrow>
   \<forall>u \<in> set pre. \<not> zoneMatches (etd (DNSName e)) u \<Longrightarrow>
     \<exists>y \<in> set zl'. \<exists>r \<in> set (zone_Rrsets y).
        zone_Id y = zone_Id z \<and> zone_Name y = zone_Name z \<and>
        endpointRrset etd ct z e = Inr r"
proof (induction zs arbitrary: eps zl pre)
  case Nil
  then show ?case by simp
next
  case (Cons z0 zs)
  from Cons.prems(1) obtain z1 eps1 where
    l: "zoneEndpoints_loop etd ct (z0\<lparr>zone_Rrsets := []\<rparr>) eps 0 = Inr (z1, eps1)" and
    rec: "filteredZones_loop etd ct zs eps1
          (if length (zone_Rrsets z1) > 0 then zl @ [z1] else zl) = Inr (zl', eps')"
    by (auto split: sum.splits)
  from zoneEndpoints_loop_Inr[OF l] obtain rs where
    e1: "eps1 = filter (\<lambda>e. \<not> zoneMatches (etd (DNSName e)) z0) eps" and
    z1: "z1 = z0\<lparr>zone_Rrsets := rs\<rparr>" and
    la: "list_all2 (\<lambda>e r. endpointRrset etd ct z0 e = Inr r)
           (filter (\<lambda>e. zoneMatches (etd (DNSName e)) z0) eps) rs"
    by auto
  show ?case
  proof (cases pre)
    case Nil
    with Cons.prems(3) have zz: "z0 = z" by simp
    with Cons.prems(2,4) have
      "e \<in> set (filter (\<lambda>e. zoneMatches (etd (DNSName e)) z0) eps)" by simp
    from list_all2_left[OF la this]
    obtain r where r: "r \<in> set rs" "endpointRrset etd ct z0 e = Inr r"
      by blast
    with z1 have "z1 \<in> set (if length (zone_Rrsets z1) > 0 then zl @ [z1] else zl)"
      by auto
    with filteredZones_loop_mono[OF rec] have "z1 \<in> set zl'" by blast
    with r z1 zz show ?thesis
      by (intro bexI[of _ z1] bexI[of _ r]) auto
  next
    case (Cons u pre')
    with Cons.prems(3,5) have nm: "\<not> zoneMatches (etd (DNSName e)) z0"
      and zs: "zs = pre' @ z # post"
      and pre': "\<forall>u \<in> set pre'. \<not> zoneMatches (etd (DNSName e)) u"
      by auto
    from nm Cons.prems(2) e1 have "e \<in> set eps1" by simp
    from Cons.IH[OF rec this zs Cons.prems(4) pre'] show ?thesis .
  qed
qed

lemma filteredZones_loop_Inl:
  "filteredZones_loop etd ct zs eps zl = Inl err \<Longrightarrow>
     \<exists>e \<in> set eps. \<exists>z \<in> set zs. zoneMatches (etd (DNSName e)) z \<and>
        endpointRrset etd ct z e = Inl err"
proof (induction zs arbitrary: eps zl)
  case Nil
  then show ?case by simp
next
  case (Cons z zs)
  show ?case
  proof (cases "zoneEndpoints_loop etd ct (z\<lparr>zone_Rrsets := []\<rparr>) eps 0")
    case (Inl a)
    with Cons.prems have "a = err" by simp
    with zoneEndpoints_loop_Inl[OF Inl] show ?thesis by auto
  next
    case (Inr b)
    obtain z1 eps1 where b: "b = (z1, eps1)" by (cases b)
    from Inr b Cons.prems have
      rec: "filteredZones_loop etd ct zs eps1
          (if length (zone_Rrsets z1) > 0 then zl @ [z1] else zl) = Inl err"
      by simp
    from zoneEndpoints_loop_Inr[OF Inr[unfolded b]]
    have "set eps1 \<subseteq> set eps" by auto
    with Cons.IH[OF rec] show ?thesis by auto
  qed
qed

lemma set_insertStable [simp]: "set (insertStable lt x ys) = insert x (set ys)"
  by (induction ys) auto

lemma set_SliceStable [simp]: "set (SliceStable lt xs) = set xs"
  by (induction xs) (auto simp: SliceStable_def)

lemma sorted_insertStable_zoneLonger:
  "sorted_wrt (\<lambda>a b. length (zone_Name b) \<le> length (zone_Name a)) ys \<Longrightarrow>
   sorted_wrt (\<lambda>a b. length (zone_Name b) \<le> length (zone_Name a)) (insertStable zoneLonger x ys)"
  by (induction ys) (auto simp: zoneLonger_def)

lemma sorted_SliceStable_zoneLonger:
  "sorted_wrt (\<lambda>a b. length (zone_Name b) \<le> length (zone_Name a)) (SliceStable zoneLonger zs)"
proof (induction zs)
  case Nil
  then show ?case by (simp add: SliceStable_def)
next
  case (Cons z zs)
  then show ?case
    using sorted_insertStable_zoneLonger[of "SliceStable zoneLonger zs" z]
    by (simp add: SliceStable_def)
qed

lemma ConvertEndpointsToZones_Inr:
  assumes "ConvertEndpointsToZones etd p eps ct tr = (Inr zl, tr2)"
  shows "\<exists>zs left. ListZones (client p) tr = (Inr zs, tr2) \<and>
    filteredZones_loop etd ct (SliceStable zoneLonger (fst (PartitionZones (client p) zs)))
       (SliceStable endpointLess eps) [] = Inr (zl, left)"
  using assms
  by (auto simp: ConvertEndpointsToZones_def ConvertEndpointsToZones_warn_def Let_def
      split: prod.splits sum.splits)

lemma ConvertEndpointsToZones_Inl:
  assumes "ConvertEndpointsToZones etd p eps ct tr = (Inl err, tr2)"
  shows "ListZones (client p) tr = (Inl err, tr2) \<or>
     (\<exists>zs. ListZones (client p) tr = (Inr zs, tr2) \<and>
        filteredZones_loop etd ct (SliceStable zoneLonger (fst (PartitionZones (client p) zs)))
          (SliceStable endpointLess eps) [] = Inl err)"
  using assms
  by (auto simp: ConvertEndpointsToZones_def ConvertEndpointsToZones_warn_def Let_def
      split: prod.splits sum.splits)

lemma endpointRrset_Name:
  "endpointRrset etd ct z e = Inr r \<Longrightarrow> rr_Name r = etd (DNSName e)"
  by (auto simp: endpointRrset_def Let_def split: if_splits)

lemma first_match_unique:
  assumes "xs = pre @ z # post" "P z" "\<forall>u \<in> set pre. \<not> P u"
      and "xs = pre' @ z' # post'" "P z'" "\<forall>u \<in> set pre'. \<not> P u"
  shows "z = z'"
  using assms
proof (induction pre arbitrary: xs pre')
  case Nil
  then show ?case by (cases pre') auto
next
  case (Cons a pre)
  then show ?case by (cases pre') auto
qed

lemma sorted_first_longest:
  assumes "sorted_wrt (\<lambda>a b. length (zone_Name b) \<le> length (zone_Name a)) (pre @ z # post)"
      and "z' \<in> set (pre @ z # post)" "z' \<notin> set pre"
  shows "length (zone_Name z') \<le> length (zone_Name z)"
  using assms by (auto simp: sorted_wrt_append)



lemma endpointRrset_zone_Name:
  "zone_Name y = zone_Name z \<Longrightarrow> endpointRrset etd ct y e = endpointRrset etd ct z e"
  by (simp add: endpointRrset_def)

lemma zoneMatches_zone_Name:
  "zone_Name y = zone_Name z \<Longrightarrow> zoneMatches n y = zoneMatches n z"
  by (simp add: zoneMatches_def)

lemma filteredZones_loop_sound_Nil:
  assumes "filteredZones_loop etd ct zs eps [] = Inr (zl', eps')"
      and "y \<in> set zl'" "r \<in> set (zone_Rrsets y)"
  shows "\<exists>pre z post e. zs = pre @ z # post \<and>
        zone_Id y = zone_Id z \<and> zone_Name y = zone_Name z \<and>
        e \<in> set eps \<and> endpointRrset etd ct z e = Inr r \<and>
        zoneMatches (etd (DNSName e)) z \<and>
        (\<forall>u \<in> set pre. \<not> zoneMatches (etd (DNSName e)) u)"
  using filteredZones_loop_sound[OF assms] by (elim disjE) simp_all


lemma ConvertEndpointsToZones_assigns:
  assumes lz: "ListZones (client p) tr = (Inr zs, tr')"
      and conv: "ConvertEndpointsToZones EnsureTrailingDot p eps changetype tr = (Inr zoneList, tr'')"
      and ep: "ep \<in> set eps"
      and z: "z \<in> set (fst (PartitionZones (client p) zs))"
      and m: "zoneMatches (EnsureTrailingDot (DNSName ep)) z"
  shows "\<exists>y \<in> set zoneList.
           (\<exists>r \<in> set (zone_Rrsets y). endpointRrset EnsureTrailingDot changetype y ep = Inr r)
           \<and> zoneMatches (EnsureTrailingDot (DNSName ep)) y
           \<and> (\<exists>f \<in> set (fst (PartitionZones (client p) zs)).
                 zone_Id y = zone_Id f \<and> zone_Name y = zone_Name f)
           \<and> (\<forall>z' \<in> set (fst (PartitionZones (client p) zs)).
                 zoneMatches (EnsureTrailingDot (DNSName ep)) z'
                 \<longrightarrow> length (zone_Name z') \<le> length (zone_Name y))
           \<and> (\<forall>y' \<in> set zoneList. \<forall>r' \<in> set (zone_Rrsets y').
                 rr_Name r' = EnsureTrailingDot (DNSName ep)
                 \<longrightarrow> zone_Id y' = zone_Id y \<and> zone_Name y' = zone_Name y)"
proof -
  define n where "n = EnsureTrailingDot (DNSName ep)"
  define F where "F = SliceStable zoneLonger (fst (PartitionZones (client p) zs))"
  define E where "E = SliceStable endpointLess eps"
  from ConvertEndpointsToZones_Inr[OF conv] lz obtain left where
    loop: "filteredZones_loop EnsureTrailingDot changetype F E [] = Inr (zoneList, left)"
    unfolding F_def E_def by auto
  have F_set: "set F = set (fst (PartitionZones (client p) zs))"
    by (simp add: F_def)
  have F_sorted: "sorted_wrt (\<lambda>a b. length (zone_Name b) \<le> length (zone_Name a)) F"
    unfolding F_def by (rule sorted_SliceStable_zoneLonger)
  have epE: "ep \<in> set E" using ep by (simp add: E_def)
  from z m have "\<exists>u \<in> set F. zoneMatches n u"
    using F_set n_def by blast
  from split_list_first_prop[OF this] obtain pre z0 post where
    dec: "F = pre @ z0 # post" and m0: "zoneMatches n z0"
    and pre: "\<forall>u \<in> set pre. \<not> zoneMatches n u"
    by blast
  from filteredZones_loop_complete[OF loop epE dec m0[unfolded n_def] pre[unfolded n_def]]
  obtain y r where y: "y \<in> set zoneList" and r: "r \<in> set (zone_Rrsets y)"
    and id: "zone_Id y = zone_Id z0" and nm: "zone_Name y = zone_Name z0"
    and rr: "endpointRrset EnsureTrailingDot changetype z0 ep = Inr r"
    by blast
  have c1: "\<exists>r \<in> set (zone_Rrsets y). endpointRrset EnsureTrailingDot changetype y ep = Inr r"
    using r rr endpointRrset_zone_Name[OF nm] by metis
  have c2: "zoneMatches n y"
    using m0 zoneMatches_zone_Name[OF nm] by simp
  have z0F: "z0 \<in> set (fst (PartitionZones (client p) zs))"
    using dec F_set by auto
  have c3: "\<exists>f \<in> set (fst (PartitionZones (client p) zs)).
              zone_Id y = zone_Id f \<and> zone_Name y = zone_Name f"
    using z0F id nm by blast
  have c4: "\<forall>z' \<in> set (fst (PartitionZones (client p) zs)).
              zoneMatches n z' \<longrightarrow> length (zone_Name z') \<le> length (zone_Name y)"
  proof (intro ballI impI)
    fix z' assume a: "z' \<in> set (fst (PartitionZones (client p) zs))" "zoneMatches n z'"
    then have "z' \<in> set (pre @ z0 # post)" "z' \<notin> set pre"
      using F_set dec pre by auto
    from sorted_first_longest[OF F_sorted[unfolded dec] this] nm
    show "length (zone_Name z') \<le> length (zone_Name y)" by simp
  qed
  have c5: "\<forall>y' \<in> set zoneList. \<forall>r' \<in> set (zone_Rrsets y').
              rr_Name r' = n \<longrightarrow> zone_Id y' = zone_Id y \<and> zone_Name y' = zone_Name y"
  proof (intro ballI impI)
    fix y' r' assume a: "y' \<in> set zoneList" "r' \<in> set (zone_Rrsets y')" "rr_Name r' = n"
    from filteredZones_loop_sound_Nil[OF loop a(1,2)]
    obtain pre' z1 post' e' where
      dec': "F = pre' @ z1 # post'"
      and y': "zone_Id y' = zone_Id z1" "zone_Name y' = zone_Name z1"
      and e': "e' \<in> set E"
      and rr': "endpointRrset EnsureTrailingDot changetype z1 e' = Inr r'"
      and m1: "zoneMatches (EnsureTrailingDot (DNSName e')) z1"
      and pre': "\<forall>u \<in> set pre'. \<not> zoneMatches (EnsureTrailingDot (DNSName e')) u"
      by blast
    from endpointRrset_Name[OF rr'] a(3) have ne: "EnsureTrailingDot (DNSName e') = n"
      by simp
    from first_match_unique[OF dec m0 pre dec' m1[unfolded ne] pre'[unfolded ne]]
    have "z0 = z1" .
    with y' id nm show "zone_Id y' = zone_Id y \<and> zone_Name y' = zone_Name y"
      by simp
  qed
  from c1 c2 c3 c4 c5 have
    "(\<exists>r \<in> set (zone_Rrsets y). endpointRrset EnsureTrailingDot changetype y ep = Inr r)
           \<and> zoneMatches n y
           \<and> (\<exists>f \<in> set (fst (PartitionZones (client p) zs)).
                 zone_Id y = zone_Id f \<and> zone_Name y = zone_Name f)
           \<and> (\<forall>z' \<in> set (fst (PartitionZones (client p) zs)).
                 zoneMatches n z' \<longrightarrow> length (zone_Name z') \<le> length (zone_Name y))
           \<and> (\<forall>y' \<in> set zoneList. \<forall>r' \<in> set (zone_Rrsets y').
                 rr_Name r' = n \<longrightarrow> zone_Id y' = zone_Id y \<and> zone_Name y' = zone_Name y)"
    by (intro conjI)
  with y show ?thesis
    unfolding n_def by (rule bexI[rotated])
qed

lemma residualEndpoints_loop_eq:
  "residualEndpoints_loop etd zone eps i =
     take i eps @ filter (\<lambda>e. \<not> zoneMatches (etd (DNSName e)) zone) (drop i eps)"
proof (induction etd zone eps i rule: residualEndpoints_loop.induct)
  case (1 etd zone eps i)
  show ?case
  proof (cases "i < length eps")
    case False
    then show ?thesis
      by (simp add: residualEndpoints_loop.simps)
  next
    case lt: True
    have dr: "drop i eps = eps ! i # drop (Suc i) eps"
      using lt by (simp add: Cons_nth_drop_Suc)
    show ?thesis
    proof (cases "zoneMatches (etd (DNSName (eps ! i))) zone")
      case m: True
      have "residualEndpoints_loop etd zone eps i =
          residualEndpoints_loop etd zone (take i eps @ drop (i + 1) eps) i"
        using lt m by (subst residualEndpoints_loop.simps) simp
      also have "\<dots> = take i eps @
          filter (\<lambda>e. \<not> zoneMatches (etd (DNSName e)) zone) (drop (Suc i) eps)"
        using "1.IH"(1)[OF lt m] lt by simp
      finally show ?thesis using m by (simp add: dr)
    next
      case nm: False
      have "residualEndpoints_loop etd zone eps i = residualEndpoints_loop etd zone eps (i + 1)"
        using lt nm by (subst residualEndpoints_loop.simps) simp
      with "1.IH"(2)[OF lt nm] lt nm show ?thesis
        by (simp add: dr take_Suc_conv_app_nth)
    qed
  qed
qed

lemma residualZones_loop_eq:
  "residualZones_loop etd zs eps =
     filter (\<lambda>e. \<forall>z \<in> set zs. \<not> zoneMatches (etd (DNSName e)) z) eps"
proof (induction zs arbitrary: eps)
  case Nil
  then show ?case by simp
next
  case (Cons z zs)
  then show ?case
    by (auto simp: residualEndpoints_loop_eq intro: filter_cong)
qed

lemma ConvertEndpointsToZones_warn_Inr:
  assumes "ConvertEndpointsToZones_warn etd p eps ct tr = (Inr (zl, left), tr2)"
  shows "\<exists>zs left0. ListZones (client p) tr = (Inr zs, tr2) \<and>
    filteredZones_loop etd ct (SliceStable zoneLonger (fst (PartitionZones (client p) zs)))
       (SliceStable endpointLess eps) [] = Inr (zl, left0) \<and>
    left = residualZones_loop etd (snd (PartitionZones (client p) zs)) left0"
  using assms
  by (auto simp: ConvertEndpointsToZones_warn_def Let_def split: prod.splits sum.splits)

lemma ConvertEndpointsToZones_of_warn:
  "ConvertEndpointsToZones etd p eps ct tr =
     (map_sum id fst (fst (ConvertEndpointsToZones_warn etd p eps ct tr)),
      snd (ConvertEndpointsToZones_warn etd p eps ct tr))"
  by (auto simp: ConvertEndpointsToZones_def split: prod.splits sum.splits)

lemma endpointRrset_Inl_iff:
  "endpointRrset etd ct z e = Inl err \<longleftrightarrow>
     ct = PdnsReplace \<and> sint (RecordTTL e) > MaxInt32 \<and>
     err = SoftError ''value of record TTL overflows, limited to int32''"
  by (auto simp: endpointRrset_def Let_def)

lemma endpointRrset_Inr_fields:
  assumes "endpointRrset etd ct z e = Inr r"
  shows "rr_Name r = etd (DNSName e)"
    and "rr_Changetype r = ct"
    and "rr_Records r = endpointRecords etd e"
    and "rr_Type r = (if etd (DNSName e) = zone_Name z \<and> RecordType e = ''CNAME''
                      then ''ALIAS'' else RecordType e)"
    and "rr_Ttl r = (if ct = PdnsReplace
                     then (if RecordTTL e = 0 then word_of_int defaultTTL
                           else word_of_int (sint (RecordTTL e)))
                     else 0)"
  using assms by (auto simp: endpointRrset_def Let_def split: if_splits)

lemma ConvertEndpointsToZones_warn_succeeds:
  assumes lz: "ListZones (client p) tr = (Inr zs, tr')"
      and ok: "\<forall>e \<in> set eps. \<forall>z \<in> set (fst (PartitionZones (client p) zs)).
                 zoneMatches (etd (DNSName e)) z \<longrightarrow>
                 \<not> (ct = PdnsReplace \<and> sint (RecordTTL e) > MaxInt32)"
  shows "\<exists>zl left. ConvertEndpointsToZones_warn etd p eps ct tr = (Inr (zl, left), tr')"
proof (cases "filteredZones_loop etd ct (SliceStable zoneLonger (fst (PartitionZones (client p) zs)))
       (SliceStable endpointLess eps) []")
  case (Inl err)
  from filteredZones_loop_Inl[OF Inl] obtain e z where
    "e \<in> set eps" "z \<in> set (fst (PartitionZones (client p) zs))"
    "zoneMatches (etd (DNSName e)) z" "endpointRrset etd ct z e = Inl err"
    by auto
  with ok show ?thesis
    by (auto simp: endpointRrset_Inl_iff)
next
  case (Inr b)
  then show ?thesis
    using lz
    by (cases b) (auto simp: ConvertEndpointsToZones_warn_def Let_def split: prod.splits)
qed

lemma zoneMatches_length:
  "zoneMatches n z \<Longrightarrow> length (zone_Name z) \<le> length n"
  by (auto simp: zoneMatches_def HasSuffix_def)

lemma zoneMatches_same_length:
  "zoneMatches n z \<Longrightarrow> length (zone_Name z) = length n \<Longrightarrow> n = zone_Name z"
  by (auto simp: zoneMatches_def HasSuffix_def)

lemma convertRRSetToEndpoints_ALIAS:
  "rr_Type rr = ''ALIAS'' \<Longrightarrow>
     \<exists>e. convertRRSetToEndpoints rr = Inr [e] \<and> RecordType e = ''CNAME''"
  by (simp add: convertRRSetToEndpoints_def NewEndpointWithTTL_def Let_def)

lemma ConvertEndpointsToZones_apex:
  assumes lz: "ListZones (client p) tr = (Inr zs, tr')"
      and conv: "ConvertEndpointsToZones EnsureTrailingDot p eps changetype tr = (Inr zoneList, tr'')"
      and ep: "ep \<in> set eps"
      and z: "z \<in> set (fst (PartitionZones (client p) zs))"
      and apex: "EnsureTrailingDot (DNSName ep) = zone_Name z"
  shows "\<exists>y \<in> set zoneList. zone_Name y = EnsureTrailingDot (DNSName ep) \<and>
           (\<exists>r \<in> set (zone_Rrsets y). endpointRrset EnsureTrailingDot changetype y ep = Inr r)"
proof -
  have m: "zoneMatches (EnsureTrailingDot (DNSName ep)) z"
    using apex by (simp add: zoneMatches_def)
  from ConvertEndpointsToZones_assigns[OF lz conv ep z m] obtain y where
    y: "y \<in> set zoneList"
    and r: "\<exists>r \<in> set (zone_Rrsets y). endpointRrset EnsureTrailingDot changetype y ep = Inr r"
    and my: "zoneMatches (EnsureTrailingDot (DNSName ep)) y"
    and long: "\<forall>z' \<in> set (fst (PartitionZones (client p) zs)).
                 zoneMatches (EnsureTrailingDot (DNSName ep)) z'
                 \<longrightarrow> length (zone_Name z') \<le> length (zone_Name y)"
    by blast
  from long z m have "length (zone_Name z) \<le> length (zone_Name y)" by blast
  with zoneMatches_length[OF my] apex
  have "length (zone_Name y) = length (EnsureTrailingDot (DNSName ep))" by simp
  from zoneMatches_same_length[OF my this] y r show ?thesis by auto
qed

lemma int32_of_int64:
  assumes "- 2147483648 \<le> (k::int)" "k \<le> 2147483647"
  shows "sint (word_of_int k :: 32 word) = k"
  using assms by (simp add: sint_sbintrunc' signed_take_bit_int_eq_self)

lemma ConvertEndpointsToZones_overflow:
  assumes lz: "ListZones (client p) tr = (Inr zs, tr')"
      and ep: "ep \<in> set eps"
      and z: "z \<in> set (fst (PartitionZones (client p) zs))"
      and m: "zoneMatches (etd (DNSName ep)) z"
      and big: "sint (RecordTTL ep) > MaxInt32"
  shows "ConvertEndpointsToZones etd p eps PdnsReplace tr =
           (Inl (SoftError ''value of record TTL overflows, limited to int32''), tr')"
proof (cases "filteredZones_loop etd PdnsReplace
       (SliceStable zoneLonger (fst (PartitionZones (client p) zs)))
       (SliceStable endpointLess eps) []")
  case (Inl err)
  from filteredZones_loop_Inl[OF Inl] have
    "err = SoftError ''value of record TTL overflows, limited to int32''"
    by (auto simp: endpointRrset_Inl_iff)
  with Inl lz show ?thesis
    by (simp add: ConvertEndpointsToZones_def ConvertEndpointsToZones_warn_def Let_def
        split_beta)
next
  case (Inr b)
  obtain zl left where b: "b = (zl, left)" by (cases b)
  from z m have "\<exists>u \<in> set (SliceStable zoneLonger (fst (PartitionZones (client p) zs))).
      zoneMatches (etd (DNSName ep)) u"
    by auto
  from split_list_first_prop[OF this] obtain pre z0 post where
    dec: "SliceStable zoneLonger (fst (PartitionZones (client p) zs)) = pre @ z0 # post"
    and m0: "zoneMatches (etd (DNSName ep)) z0"
    and pre: "\<forall>u \<in> set pre. \<not> zoneMatches (etd (DNSName ep)) u"
    by blast
  have epE: "ep \<in> set (SliceStable endpointLess eps)" using ep by simp
  from filteredZones_loop_complete[OF Inr[unfolded b] epE dec m0 pre]
  obtain r where "endpointRrset etd PdnsReplace z0 ep = Inr r" by blast
  moreover have "endpointRrset etd PdnsReplace z0 ep =
      Inl (SoftError ''value of record TTL overflows, limited to int32'')"
    using big by (simp add: endpointRrset_Inl_iff)
  ultimately show ?thesis by simp
qed

lemma ConvertEndpointsToZones_ttl:
  assumes lz: "ListZones (client p) tr = (Inr zs, tr')"
      and conv: "ConvertEndpointsToZones etd p eps PdnsReplace tr = (Inr zoneList, tr'')"
      and ep: "ep \<in> set eps"
      and z: "z \<in> set (fst (PartitionZones (client p) zs))"
      and m: "zoneMatches (etd (DNSName ep)) z"
  shows "\<exists>y \<in> set zoneList. \<exists>r \<in> set (zone_Rrsets y).
           endpointRrset etd PdnsReplace y ep = Inr r \<and>
           rr_Name r = etd (DNSName ep) \<and>
           rr_Ttl r = (if RecordTTL ep = 0 then 300 else word_of_int (sint (RecordTTL ep))) \<and>
           (- 2147483648 \<le> sint (RecordTTL ep) \<longrightarrow>
              sint (rr_Ttl r) = (if RecordTTL ep = 0 then 300 else sint (RecordTTL ep)))"
proof -
  from ConvertEndpointsToZones_assigns[OF lz conv ep z m] obtain y r where
    y: "y \<in> set zoneList" and r: "r \<in> set (zone_Rrsets y)"
    and rr: "endpointRrset etd PdnsReplace y ep = Inr r"
    by blast
  from rr have small: "sint (RecordTTL ep) \<le> 2147483647"
    by (auto simp: endpointRrset_def Let_def MaxInt32_def split: if_splits)
  have ttl: "rr_Ttl r = (if RecordTTL ep = 0 then 300 else word_of_int (sint (RecordTTL ep)))"
    using endpointRrset_Inr_fields(5)[OF rr] by (simp add: defaultTTL_def)
  have val: "- 2147483648 \<le> sint (RecordTTL ep) \<longrightarrow>
              sint (rr_Ttl r) = (if RecordTTL ep = 0 then 300 else sint (RecordTTL ep))"
  proof (cases "RecordTTL ep = 0")
    case True
    then show ?thesis by (simp add: ttl)
  next
    case False
    have "- 2147483648 \<le> sint (RecordTTL ep) \<Longrightarrow>
        sint (word_of_int (sint (RecordTTL ep)) :: 32 word) = sint (RecordTTL ep)"
      using small by (intro int32_of_int64) simp_all
    with False show ?thesis by (simp only: ttl if_False) blast
  qed
  from y r rr endpointRrset_Inr_fields(1)[OF rr] ttl val show ?thesis
    by blast
qed

lemma ConvertEndpointsToZones_delete_no_ttl:
  assumes conv: "ConvertEndpointsToZones etd p eps PdnsDelete tr = (Inr zoneList, tr'')"
      and y: "y \<in> set zoneList" and r: "r \<in> set (zone_Rrsets y)"
  shows "rr_Ttl r = 0 \<and> rr_Changetype r = PdnsDelete"
proof -
  from ConvertEndpointsToZones_Inr[OF conv] obtain zs left where
    loop: "filteredZones_loop etd PdnsDelete
       (SliceStable zoneLonger (fst (PartitionZones (client p) zs)))
       (SliceStable endpointLess eps) [] = Inr (zoneList, left)"
    by blast
  from filteredZones_loop_sound_Nil[OF loop y r] obtain z e where
    "e \<in> set (SliceStable endpointLess eps)" "endpointRrset etd PdnsDelete z e = Inr r"
    by blast
  from endpointRrset_Inr_fields(2,5)[OF this(2)] show ?thesis
    by (simp add: PdnsDelete_def PdnsReplace_def)
qed

lemma ConvertEndpointsToZones_unmatched:
  assumes lz: "ListZones (client p) tr = (Inr zs, tr')"
      and conv: "ConvertEndpointsToZones_warn etd p eps ct tr = (Inr (zoneList, left), tr'')"
      and ep: "ep \<in> set eps"
      and un: "\<forall>z \<in> set (fst (PartitionZones (client p) zs)). \<not> zoneMatches (etd (DNSName ep)) z"
  shows "(\<forall>y \<in> set zoneList. \<forall>r \<in> set (zone_Rrsets y). rr_Name r \<noteq> etd (DNSName ep))
       \<and> ((\<forall>z \<in> set (snd (PartitionZones (client p) zs)). \<not> zoneMatches (etd (DNSName ep)) z)
            \<longrightarrow> ep \<in> set left)"
proof -
  from ConvertEndpointsToZones_warn_Inr[OF conv] lz obtain left0 where
    loop: "filteredZones_loop etd ct
       (SliceStable zoneLonger (fst (PartitionZones (client p) zs)))
       (SliceStable endpointLess eps) [] = Inr (zoneList, left0)"
    and left: "left = residualZones_loop etd (snd (PartitionZones (client p) zs)) left0"
    by auto
  have a: "\<forall>y \<in> set zoneList. \<forall>r \<in> set (zone_Rrsets y). rr_Name r \<noteq> etd (DNSName ep)"
  proof (intro ballI notI)
    fix y r assume y: "y \<in> set zoneList" and r: "r \<in> set (zone_Rrsets y)"
      and n: "rr_Name r = etd (DNSName ep)"
    from filteredZones_loop_sound_Nil[OF loop y r] obtain pre z post e where
      dec: "SliceStable zoneLonger (fst (PartitionZones (client p) zs)) = pre @ z # post"
      and "e \<in> set (SliceStable endpointLess eps)"
      and rr: "endpointRrset etd ct z e = Inr r"
      and mz: "zoneMatches (etd (DNSName e)) z"
      by blast
    have "z \<in> set (SliceStable zoneLonger (fst (PartitionZones (client p) zs)))"
      by (simp only: dec) simp
    then have "z \<in> set (fst (PartitionZones (client p) zs))" by simp
    moreover from endpointRrset_Inr_fields(1)[OF rr] n mz
    have "zoneMatches (etd (DNSName ep)) z" by simp
    ultimately show False using un by blast
  qed
  have b: "(\<forall>z \<in> set (snd (PartitionZones (client p) zs)). \<not> zoneMatches (etd (DNSName ep)) z)
            \<longrightarrow> ep \<in> set left"
    using ep un filteredZones_loop_rest[OF loop]
    by (simp add: left residualZones_loop_eq)
  from a b show ?thesis by blast
qed

section \<open>Azure Private DNS: mapping and applying changes\<close>

lemma newRecordSet_ttl:
  "newRecordSet pkg ep = Inr rs \<Longrightarrow>
     \<exists>props. rs_Properties rs = Some props \<and>
       props_TTL props = Some (if TTL_IsConfigured pkg (RecordTTL ep) then RecordTTL ep
                               else azure_defaultTTL pkg)"
  by (auto simp: newRecordSet_def Let_def recordSetOf_def emptyProperties_def
      split: if_splits list.splits sum.splits)

lemma FindZone_step:
  "foldl (\<lambda>best zoneName.
              if suffixMatch name zoneName \<and> length zoneName > length best
              then zoneName else best) b names = b
   \<or> suffixMatch name (foldl (\<lambda>best zoneName.
              if suffixMatch name zoneName \<and> length zoneName > length best
              then zoneName else best) b names)"
proof (induction names arbitrary: b)
  case Nil
  then show ?case by simp
next
  case (Cons a names)
  show ?case
    using Cons.IH[of "if suffixMatch name a \<and> length a > length b then a else b"]
    by (auto split: if_splits)
qed

lemma suffixMatch_length: "suffixMatch name z \<Longrightarrow> length z \<le> length name"
  by (auto simp: suffixMatch_def HasSuffix_def)

lemma FindZone_length: "length (FindZone names name) \<le> length name"
  using FindZone_step[of name "[]" names]
  by (auto simp: FindZone_def dest: suffixMatch_length)

lemma mapChange_unroutable:
  "FindZone names (DNSName e) = [] \<Longrightarrow> mapChange names m e = m"
  by (simp add: mapChange_def)

lemma foldl_mapChange_filter:
  "foldl (mapChange names) m (filter (\<lambda>e. FindZone names (DNSName e) \<noteq> []) es)
     = foldl (mapChange names) m es"
  by (induction es arbitrary: m) (auto simp: mapChange_unroutable)

lemma mapChange_buckets:
  assumes "\<forall>zone es. m zone = Some es \<longrightarrow> (\<forall>e \<in> set es. FindZone names (DNSName e) = zone)"
  shows "\<forall>zone es. mapChange names m c zone = Some es \<longrightarrow>
           (\<forall>e \<in> set es. FindZone names (DNSName e) = zone)"
proof (intro allI impI ballI)
  fix zone es e
  assume a: "mapChange names m c zone = Some es" and e: "e \<in> set es"
  show "FindZone names (DNSName e) = zone"
  proof (cases "FindZone names (DNSName c) = [] \<or> zone \<noteq> FindZone names (DNSName c)")
    case True
    with a have "m zone = Some es"
      by (auto simp: mapChange_def Let_def split: if_splits)
    with assms e show ?thesis by blast
  next
    case False
    with a have es: "es = (case m zone of None \<Rightarrow> [] | Some eps \<Rightarrow> eps) @ [c]"
      by (auto simp: mapChange_def Let_def)
    show ?thesis
    proof (cases "m zone")
      case None
      with es e False show ?thesis by simp
    next
      case (Some old)
      with es e have "e \<in> set old \<or> e = c" by auto
      with Some assms False show ?thesis by blast
    qed
  qed
qed

lemma foldl_mapChange_buckets:
  assumes "\<forall>zone es. m zone = Some es \<longrightarrow> (\<forall>e \<in> set es. FindZone names (DNSName e) = zone)"
  shows "\<forall>zone es. foldl (mapChange names) m cs zone = Some es \<longrightarrow>
           (\<forall>e \<in> set es. FindZone names (DNSName e) = zone)"
  using assms
proof (induction cs arbitrary: m)
  case Nil
  then show ?case by simp
next
  case (Cons c cs)
  from Cons.IH[OF mapChange_buckets[OF Cons.prems]] show ?case by simp
qed

lemma mapChange_dom:
  assumes "[] \<notin> dom m"
  shows "[] \<notin> dom (mapChange names m c)"
  using assms by (auto simp: mapChange_def Let_def)

lemma foldl_mapChange_dom:
  assumes "[] \<notin> dom m"
  shows "[] \<notin> dom (foldl (mapChange names) m cs)"
  using assms
  by (induction cs arbitrary: m) (auto simp: mapChange_dom simp del: dom_eq_empty_conv)

lemma mapChanges_buckets:
  assumes "mapChanges zs changes = (deleted, updated)"
  shows "(\<forall>zone es. deleted zone = Some es \<longrightarrow>
            zone \<noteq> [] \<and>
            (\<forall>e \<in> set es. FindZone (List.map_filter pz_Name zs) (DNSName e) = zone))
       \<and> (\<forall>zone es. updated zone = Some es \<longrightarrow>
            zone \<noteq> [] \<and>
            (\<forall>e \<in> set es. FindZone (List.map_filter pz_Name zs) (DNSName e) = zone))"
proof -
  let ?n = "List.map_filter pz_Name zs"
  have d: "deleted = foldl (mapChange ?n) Map.empty (Delete changes)"
    and u: "updated = foldl (mapChange ?n)
            (foldl (mapChange ?n) Map.empty (Create changes)) (UpdateNew changes)"
    using assms by (simp_all add: mapChanges_def Let_def)
  have e: "\<forall>zone es. (Map.empty :: string \<rightharpoonup> 'a Endpoint list) zone = Some es \<longrightarrow>
      (\<forall>e \<in> set es. FindZone ?n (DNSName e) = zone)"
    by simp
  have d1: "\<forall>zone es. deleted zone = Some es \<longrightarrow> (\<forall>e \<in> set es. FindZone ?n (DNSName e) = zone)"
    unfolding d by (rule foldl_mapChange_buckets[OF e])
  have u1: "\<forall>zone es. updated zone = Some es \<longrightarrow> (\<forall>e \<in> set es. FindZone ?n (DNSName e) = zone)"
    unfolding u by (rule foldl_mapChange_buckets[OF foldl_mapChange_buckets[OF e]])
  have d2: "[] \<notin> dom deleted"
    unfolding d by (rule foldl_mapChange_dom) simp
  have u2: "[] \<notin> dom updated"
    unfolding u by (intro foldl_mapChange_dom) simp
  from d1 u1 d2 u2 show ?thesis
    by (auto simp: dom_def)
qed

lemma recordSetNameForZone_ok:
  "length zone \<le> length (DNSName ep) \<Longrightarrow> \<exists>name. recordSetNameForZone zone ep = Inr name"
  by (simp add: recordSetNameForZone_def Let_def)

lemma deleteRecords_zone_calls:
  "deleteRecords_zone p zone eps calls = (err, calls') \<Longrightarrow>
     \<exists>ds. calls' = calls @ ds \<and> (\<forall>c \<in> set ds. isDeleteCall c) \<and> (az_dryRun p \<longrightarrow> ds = [])"
proof (induction eps arbitrary: calls)
  case Nil
  then show ?case by simp
next
  case (Cons e eps)
  show ?case
  proof (cases "recordSetNameForZone zone e")
    case (Inl a)
    with Cons.prems show ?thesis by simp
  next
    case (Inr name)
    show ?thesis
    proof (cases "\<not> Match (az_domainFilter p) (DNSName e) \<or> az_dryRun p")
      case True
      with Inr Cons.prems have "deleteRecords_zone p zone eps calls = (err, calls')"
        by (auto split: if_splits)
      from Cons.IH[OF this] show ?thesis .
    next
      case False
      with Inr Cons.prems have "deleteRecords_zone p zone eps
          (calls @ [RecordSets_Delete (az_resourceGroup p) zone (RecordType e) name])
            = (err, calls')"
        by auto
      from Cons.IH[OF this] False show ?thesis by auto
    qed
  qed
qed

lemma deleteRecords_zone_no_panic:
  "\<forall>e \<in> set eps. length zone \<le> length (DNSName e) \<Longrightarrow>
     fst (deleteRecords_zone p zone eps calls) = None"
proof (induction eps arbitrary: calls)
  case Nil
  then show ?case by simp
next
  case (Cons e eps)
  from Cons.prems recordSetNameForZone_ok[of zone e] obtain name where
    "recordSetNameForZone zone e = Inr name" by auto
  with Cons show ?case by simp
qed

lemma deleteRecords_calls:
  "deleteRecords p deleted order calls = (err, calls') \<Longrightarrow>
     \<exists>ds. calls' = calls @ ds \<and> (\<forall>c \<in> set ds. isDeleteCall c) \<and> (az_dryRun p \<longrightarrow> ds = [])"
proof (induction order arbitrary: calls)
  case Nil
  then show ?case by simp
next
  case (Cons zone order)
  obtain e1 c1 where z: "deleteRecords_zone p zone
      (case deleted zone of None \<Rightarrow> [] | Some endpoints \<Rightarrow> endpoints) calls = (e1, c1)"
    by (cases "deleteRecords_zone p zone
      (case deleted zone of None \<Rightarrow> [] | Some endpoints \<Rightarrow> endpoints) calls")
  from deleteRecords_zone_calls[OF z] obtain ds1 where
    ds1: "c1 = calls @ ds1" "\<forall>c \<in> set ds1. isDeleteCall c" "az_dryRun p \<longrightarrow> ds1 = []"
    by blast
  show ?case
  proof (cases e1)
    case None
    with z Cons.prems have "deleteRecords p deleted order c1 = (err, calls')" by simp
    from Cons.IH[OF this] obtain ds2 where
      "calls' = c1 @ ds2" "\<forall>c \<in> set ds2. isDeleteCall c" "az_dryRun p \<longrightarrow> ds2 = []"
      by blast
    with ds1 have "calls' = calls @ (ds1 @ ds2) \<and> (\<forall>c \<in> set (ds1 @ ds2). isDeleteCall c)
        \<and> (az_dryRun p \<longrightarrow> ds1 @ ds2 = [])"
      by auto
    then show ?thesis by blast
  next
    case (Some a)
    with z Cons.prems have "calls' = c1" by simp
    with ds1 show ?thesis by blast
  qed
qed

lemma deleteRecords_no_panic:
  assumes "\<forall>zone es. deleted zone = Some es \<longrightarrow> (\<forall>e \<in> set es. length zone \<le> length (DNSName e))"
  shows "fst (deleteRecords p deleted order calls) = None"
proof (induction order arbitrary: calls)
  case Nil
  then show ?case by simp
next
  case (Cons zone order)
  have "\<forall>e \<in> set (case deleted zone of None \<Rightarrow> [] | Some endpoints \<Rightarrow> endpoints).
      length zone \<le> length (DNSName e)"
  proof (cases "deleted zone")
    case None
    then show ?thesis by simp
  next
    case (Some es)
    with assms show ?thesis by auto
  qed
  from deleteRecords_zone_no_panic[OF this, of p calls] Cons.IH show ?case
    by (auto split: prod.splits option.splits)
qed

lemma updateRecords_zone_calls:
  "updateRecords_zone pkg p zone eps calls = (err, calls') \<Longrightarrow>
     \<exists>us. calls' = calls @ us \<and> (\<forall>c \<in> set us. isCreateOrUpdateCall c)
       \<and> (az_dryRun p \<longrightarrow> us = [])"
proof (induction eps arbitrary: calls)
  case Nil
  then show ?case by simp
next
  case (Cons e eps)
  show ?case
  proof (cases "recordSetNameForZone zone e")
    case (Inl a)
    with Cons.prems show ?thesis by simp
  next
    case (Inr name)
    show ?thesis
    proof (cases "\<not> Match (az_domainFilter p) (DNSName e) \<or> az_dryRun p")
      case True
      with Inr Cons.prems have "updateRecords_zone pkg p zone eps calls = (err, calls')"
        by (auto split: if_splits)
      from Cons.IH[OF this] show ?thesis .
    next
      case live: False
      show ?thesis
      proof (cases "newRecordSet pkg e")
        case (Inl b)
        show ?thesis
        proof (cases "isPanic b")
          case True
          with Inl Inr live Cons.prems show ?thesis by simp
        next
          case False
          with Inl Inr live Cons.prems
          have "updateRecords_zone pkg p zone eps calls = (err, calls')" by simp
          from Cons.IH[OF this] show ?thesis .
        qed
      next
        case (Inr recordSet)
        with \<open>recordSetNameForZone zone e = Inr name\<close> live Cons.prems
        have "updateRecords_zone pkg p zone eps
           (calls @ [RecordSets_CreateOrUpdate (az_resourceGroup p) zone (RecordType e)
                       name recordSet]) = (err, calls')"
          by simp
        from Cons.IH[OF this] live show ?thesis by auto
      qed
    qed
  qed
qed

lemma updateRecords_zone_dryRun_no_panic:
  "az_dryRun p \<Longrightarrow> \<forall>e \<in> set eps. length zone \<le> length (DNSName e) \<Longrightarrow>
     fst (updateRecords_zone pkg p zone eps calls) = None"
proof (induction eps arbitrary: calls)
  case Nil
  then show ?case by simp
next
  case (Cons e eps)
  from Cons.prems recordSetNameForZone_ok[of zone e] obtain name where
    "recordSetNameForZone zone e = Inr name" by auto
  with Cons show ?case by simp
qed

lemma updateRecords_calls:
  "updateRecords pkg p updated order calls = (err, calls') \<Longrightarrow>
     \<exists>us. calls' = calls @ us \<and> (\<forall>c \<in> set us. isCreateOrUpdateCall c)
       \<and> (az_dryRun p \<longrightarrow> us = [])"
proof (induction order arbitrary: calls)
  case Nil
  then show ?case by simp
next
  case (Cons zone order)
  obtain e1 c1 where z: "updateRecords_zone pkg p zone
      (case updated zone of None \<Rightarrow> [] | Some endpoints \<Rightarrow> endpoints) calls = (e1, c1)"
    by (cases "updateRecords_zone pkg p zone
      (case updated zone of None \<Rightarrow> [] | Some endpoints \<Rightarrow> endpoints) calls")
  from updateRecords_zone_calls[OF z] obtain us1 where
    us1: "c1 = calls @ us1" "\<forall>c \<in> set us1. isCreateOrUpdateCall c" "az_dryRun p \<longrightarrow> us1 = []"
    by blast
  show ?case
  proof (cases e1)
    case None
    with z Cons.prems have "updateRecords pkg p updated order c1 = (err, calls')" by simp
    from Cons.IH[OF this] obtain us2 where
      "calls' = c1 @ us2" "\<forall>c \<in> set us2. isCreateOrUpdateCall c" "az_dryRun p \<longrightarrow> us2 = []"
      by blast
    with us1 have "calls' = calls @ (us1 @ us2)
        \<and> (\<forall>c \<in> set (us1 @ us2). isCreateOrUpdateCall c)
        \<and> (az_dryRun p \<longrightarrow> us1 @ us2 = [])"
      by auto
    then show ?thesis by blast
  next
    case (Some a)
    with z Cons.prems have "calls' = c1" by simp
    with us1 show ?thesis by blast
  qed
qed

lemma updateRecords_dryRun_no_panic:
  assumes "az_dryRun p"
      and "\<forall>zone es. updated zone = Some es \<longrightarrow> (\<forall>e \<in> set es. length zone \<le> length (DNSName e))"
  shows "fst (updateRecords pkg p updated order calls) = None"
proof (induction order arbitrary: calls)
  case Nil
  then show ?case by simp
next
  case (Cons zone order)
  have "\<forall>e \<in> set (case updated zone of None \<Rightarrow> [] | Some endpoints \<Rightarrow> endpoints).
      length zone \<le> length (DNSName e)"
  proof (cases "updated zone")
    case None
    then show ?thesis by simp
  next
    case (Some es)
    with assms(2) show ?thesis by auto
  qed
  from updateRecords_zone_dryRun_no_panic[OF assms(1) this, of pkg calls] Cons.IH show ?case
    by (auto split: prod.splits option.splits)
qed

lemma zones_calls: "st_calls (snd (zones p now st)) = st_calls st"
  by (simp add: zones_def split: sum.splits)

lemma azure_ApplyChanges_calls:
  assumes "AzurePrivateDNSProvider_ApplyChanges pkg p changes dord uord now st = (err, st')"
  shows "\<exists>ds us. st_calls st' = st_calls st @ ds @ us
           \<and> (\<forall>c \<in> set ds. isDeleteCall c) \<and> (\<forall>c \<in> set us. isCreateOrUpdateCall c)
           \<and> (az_dryRun p \<longrightarrow> ds = [] \<and> us = [])"
proof (cases "zones p now st")
  case (Pair res st1)
  have c1: "st_calls st1 = st_calls st"
    using zones_calls[of p now st] Pair by simp
  show ?thesis
  proof (cases res)
    case (Inl e)
    with Pair assms have "st' = st1"
      by (simp add: AzurePrivateDNSProvider_ApplyChanges_def)
    with c1 show ?thesis by simp
  next
    case (Inr zs)
    obtain deleted updated where mc: "mapChanges zs changes = (deleted, updated)"
      by (cases "mapChanges zs changes")
    obtain e1 calls1 where d: "deleteRecords p deleted dord (st_calls st1) = (e1, calls1)"
      by (cases "deleteRecords p deleted dord (st_calls st1)")
    from deleteRecords_calls[OF d] c1 obtain ds where
      ds: "calls1 = st_calls st @ ds" "\<forall>c \<in> set ds. isDeleteCall c" "az_dryRun p \<longrightarrow> ds = []"
      by auto
    show ?thesis
    proof (cases e1)
      case (Some a)
      with Pair Inr mc d assms have "st_calls st' = calls1"
        by (auto simp: AzurePrivateDNSProvider_ApplyChanges_def)
      with ds have "st_calls st' = st_calls st @ ds @ []
           \<and> (\<forall>c \<in> set ds. isDeleteCall c) \<and> (\<forall>c \<in> set []. isCreateOrUpdateCall c)
           \<and> (az_dryRun p \<longrightarrow> ds = [] \<and> [] = [])"
        by simp
      then show ?thesis by blast
    next
      case None
      obtain e2 calls2 where u: "updateRecords pkg p updated uord calls1 = (e2, calls2)"
        by (cases "updateRecords pkg p updated uord calls1")
      from updateRecords_calls[OF u] obtain us where
        us: "calls2 = calls1 @ us" "\<forall>c \<in> set us. isCreateOrUpdateCall c" "az_dryRun p \<longrightarrow> us = []"
        by blast
      from None Pair Inr mc d u assms have "st_calls st' = calls2"
        by (auto simp: AzurePrivateDNSProvider_ApplyChanges_def)
      with ds us have "st_calls st' = st_calls st @ ds @ us
           \<and> (\<forall>c \<in> set ds. isDeleteCall c) \<and> (\<forall>c \<in> set us. isCreateOrUpdateCall c)
           \<and> (az_dryRun p \<longrightarrow> ds = [] \<and> us = [])"
        by simp
      then show ?thesis by blast
    qed
  qed
qed

lemma azure_ApplyChanges_zones_error:
  assumes "zones p now st = (Inl e, st1)"
  shows "AzurePrivateDNSProvider_ApplyChanges pkg p changes dord uord now st = (Some e, st1)"
  using assms by (simp add: AzurePrivateDNSProvider_ApplyChanges_def)

lemma azure_ApplyChanges_dryRun:
  assumes dry: "az_dryRun p" and z: "zones p now st = (Inr zs, st1)"
  shows "fst (AzurePrivateDNSProvider_ApplyChanges pkg p changes dord uord now st) = None"
proof -
  obtain deleted updated where mc: "mapChanges zs changes = (deleted, updated)"
    by (cases "mapChanges zs changes")
  from mapChanges_buckets[OF mc] have
    dl: "\<forall>zone es. deleted zone = Some es \<longrightarrow> (\<forall>e \<in> set es. length zone \<le> length (DNSName e))"
    and ul: "\<forall>zone es. updated zone = Some es \<longrightarrow> (\<forall>e \<in> set es. length zone \<le> length (DNSName e))"
    using FindZone_length by metis+
  obtain calls1 where d: "deleteRecords p deleted dord (st_calls st1) = (None, calls1)"
    using deleteRecords_no_panic[OF dl, of p dord "st_calls st1"]
    by (cases "deleteRecords p deleted dord (st_calls st1)") auto
  obtain calls2 where u: "updateRecords pkg p updated uord calls1 = (None, calls2)"
    using updateRecords_dryRun_no_panic[OF dry ul, of pkg uord calls1]
    by (cases "updateRecords pkg p updated uord calls1") auto
  show ?thesis
    using z mc d u
    by (simp add: AzurePrivateDNSProvider_ApplyChanges_def)
qed

lemma UpdateNew_filter:
  "UpdateNew (changes\<lparr>Create := c, Update := filter (\<lambda>u. P (New u)) (Update changes), Delete := d\<rparr>)
     = filter P (UpdateNew changes)"
  by (simp add: UpdateNew_def filter_map comp_def)

lemma mapChanges_routable:
  "mapChanges zs
     (changes\<lparr>Create := filter (\<lambda>e. FindZone (List.map_filter pz_Name zs) (DNSName e) \<noteq> [])
                           (Create changes),
              Update := filter (\<lambda>u. FindZone (List.map_filter pz_Name zs) (DNSName (New u)) \<noteq> [])
                           (Update changes),
              Delete := filter (\<lambda>e. FindZone (List.map_filter pz_Name zs) (DNSName e) \<noteq> [])
                           (Delete changes)\<rparr>)
   = mapChanges zs changes"
  by (simp add: mapChanges_def Let_def UpdateNew_filter[where P = "\<lambda>e. FindZone (List.map_filter pz_Name zs) (DNSName e) \<noteq> []"]
      foldl_mapChange_filter)

lemma azure_ApplyChanges_routable:
  assumes z: "zones p now st = (Inr zs, st1)"
  shows "AzurePrivateDNSProvider_ApplyChanges pkg p
     (changes\<lparr>Create := filter (\<lambda>e. FindZone (List.map_filter pz_Name zs) (DNSName e) \<noteq> [])
                           (Create changes),
              Update := filter (\<lambda>u. FindZone (List.map_filter pz_Name zs) (DNSName (New u)) \<noteq> [])
                           (Update changes),
              Delete := filter (\<lambda>e. FindZone (List.map_filter pz_Name zs) (DNSName e) \<noteq> [])
                           (Delete changes)\<rparr>) dord uord now st
   = AzurePrivateDNSProvider_ApplyChanges pkg p changes dord uord now st"
  unfolding AzurePrivateDNSProvider_ApplyChanges_def z
  by (simp only: mapChanges_routable prod.case sum.case)

lemma mapChanges_unroutable:
  assumes "mapChanges zs changes = (deleted, updated)"
      and "FindZone (List.map_filter pz_Name zs) (DNSName ep) = []"
  shows "(\<forall>zone es. deleted zone = Some es \<longrightarrow> ep \<notin> set es)
       \<and> (\<forall>zone es. updated zone = Some es \<longrightarrow> ep \<notin> set es)"
  using mapChanges_buckets[OF assms(1)] assms(2) by metis

lemma derefAll_Inl: "derefAll ps = Inl err \<Longrightarrow> err = nilDereference"
  by (induction ps rule: derefAll.induct) (auto split: sum.splits)

lemma extractAzurePrivateDNSTargets_Inl:
  "extractAzurePrivateDNSTargets recordSet = Inl err \<Longrightarrow> err = nilDereference"
  by (auto simp: extractAzurePrivateDNSTargets_def split: option.splits if_splits
      dest: derefAll_Inl)

lemma recordSetEndpoint_Inl:
  "recordSetEndpoint pkg p zoneName recordSet = Inl err \<Longrightarrow> isPanic err"
  by (auto simp: recordSetEndpoint_def Let_def nilDereference_def
      split: option.splits if_splits sum.splits dest: extractAzurePrivateDNSTargets_Inl)

lemma records_page_Inl:
  "records_page pkg p zoneName recordSets eps = Inl err \<Longrightarrow> isPanic err"
  by (induction recordSets arbitrary: eps)
     (auto split: sum.splits option.splits dest: recordSetEndpoint_Inl)

lemma records_pager_Inl:
  "records_pager pkg p zoneName pager eps = Inl err \<Longrightarrow> isSoft err \<or> isPanic err"
  by (induction pkg p zoneName pager eps rule: records_pager.induct)
     (auto split: sum.splits dest: records_page_Inl)

lemma records_pager_Inr:
  "records_pager pkg p zoneName pager eps = Inr eps' \<Longrightarrow> \<forall>page \<in> set pager. \<not> isl page"
  by (induction pkg p zoneName pager eps rule: records_pager.induct)
     (auto split: sum.splits)

lemma records_zones_Inl:
  "records_zones pkg p zs eps = Inl err \<Longrightarrow> isSoft err \<or> isPanic err"
  by (induction zs arbitrary: eps)
     (auto simp: nilDereference_def split: sum.splits option.splits dest: records_pager_Inl)

lemma records_zones_Inr:
  "records_zones pkg p zs eps = Inr eps' \<Longrightarrow>
     \<forall>zone \<in> set zs. \<exists>zoneName. pz_Name zone = Some zoneName \<and>
       (\<forall>page \<in> set (NewListPager (az_recordSetsClient p) (az_resourceGroup p) zoneName).
          \<not> isl page)"
proof (induction zs arbitrary: eps)
  case Nil
  then show ?case by simp
next
  case (Cons zone zs)
  from Cons.prems obtain zoneName eps1 where
    n: "pz_Name zone = Some zoneName"
    and pg: "records_pager pkg p zoneName
        (NewListPager (az_recordSetsClient p) (az_resourceGroup p) zoneName) eps = Inr eps1"
    and rest: "records_zones pkg p zs eps1 = Inr eps'"
    by (auto split: option.splits sum.splits)
  from records_pager_Inr[OF pg] n Cons.IH[OF rest] show ?case by simp
qed

lemma azure_Records_errors:
  assumes z: "zones p now st = (Inr zs, st1)"
  shows "(\<forall>err st'. AzurePrivateDNSProvider_Records pkg p now st = (Inl err, st')
            \<longrightarrow> isSoft err \<or> isPanic err)
       \<and> (\<forall>eps st'. AzurePrivateDNSProvider_Records pkg p now st = (Inr eps, st')
            \<longrightarrow> (\<forall>zone \<in> set zs. \<exists>zoneName. pz_Name zone = Some zoneName \<and>
                   (\<forall>page \<in> set (NewListPager (az_recordSetsClient p) (az_resourceGroup p)
                                    zoneName).
                      \<not> isl page)))"
  using z records_zones_Inl[of pkg p zs "[]"] records_zones_Inr[of pkg p zs "[]"]
  by (auto simp: AzurePrivateDNSProvider_Records_def)

lemma ListZones_unrolled:
  "ListZones c tr =
     (case api_ListZones (pdns_client c) tr of
        Inr zs \<Rightarrow> (Inr zs, tr @ failedAttempts RawListZones 0 @ [RawListZones])
      | Inl e1 \<Rightarrow>
          (case api_ListZones (pdns_client c) (tr @ failedAttempts RawListZones 1) of
             Inr zs \<Rightarrow> (Inr zs, tr @ failedAttempts RawListZones 1 @ [RawListZones])
           | Inl e2 \<Rightarrow>
               (case api_ListZones (pdns_client c) (tr @ failedAttempts RawListZones 2) of
                  Inr zs \<Rightarrow> (Inr zs, tr @ failedAttempts RawListZones 2 @ [RawListZones])
                | Inl e3 \<Rightarrow>
                    (Inl (SoftError (''unable to list zones: '' @ errText e3)),
                     tr @ failedAttempts RawListZones 3))))"
  by (simp add: ListZones_def ListZones_loop.simps retryLimit_def failedAttempts_def
      retryAfterTime_def upt_rec numeral_2_eq_2 numeral_3_eq_3 split: sum.splits)

lemma failedAttempts_values:
  "failedAttempts ev 0 = []"
  "failedAttempts ev 1 = [ev, Sleep 250]"
  "failedAttempts ev 2 = [ev, Sleep 250, ev, Sleep 500]"
  "failedAttempts ev 3 = [ev, Sleep 250, ev, Sleep 500, ev, Sleep 1000]"
  by (simp_all add: failedAttempts_def retryAfterTime_def upt_rec numeral_2_eq_2 numeral_3_eq_3)

section \<open>PowerDNS: the trace of ApplyChanges\<close>

lemma failedAttempts_events:
  "ev \<in> set (failedAttempts ev0 k) \<Longrightarrow> ev = ev0 \<or> (\<exists>d. ev = Sleep d)"
  by (induction k) (auto simp: failedAttempts_def)

lemma attempts_trace:
  assumes "tr' = tr @ failedAttempts ev0 k \<or> tr' = tr @ failedAttempts ev0 k @ [ev0]"
  shows "\<exists>T. tr' = tr @ T \<and> (\<forall>ev \<in> set T. ev = ev0 \<or> (\<exists>d. ev = Sleep d))"
proof -
  from assms obtain T where T: "tr' = tr @ T"
    and "T = failedAttempts ev0 k \<or> T = failedAttempts ev0 k @ [ev0]"
    by auto
  then have "\<forall>ev \<in> set T. ev = ev0 \<or> (\<exists>d. ev = Sleep d)"
    using failedAttempts_events[of _ ev0 k] by (elim disjE) fastforce+
  with T show ?thesis by blast
qed

lemma ListZones_trace:
  assumes "ListZones c tr = (res, tr')"
  shows "\<exists>T. tr' = tr @ T \<and> (\<forall>ev \<in> set T. sentChangetypes ev = [])"
proof -
  have "tr' = tr @ failedAttempts RawListZones 0 @ [RawListZones]
      \<or> tr' = tr @ failedAttempts RawListZones 1 @ [RawListZones]
      \<or> tr' = tr @ failedAttempts RawListZones 2 @ [RawListZones]
      \<or> tr' = tr @ failedAttempts RawListZones 3"
    using assms unfolding ListZones_unrolled
    by (auto split: sum.splits)
  then have "\<exists>T. tr' = tr @ T \<and> (\<forall>ev \<in> set T. ev = RawListZones \<or> (\<exists>d. ev = Sleep d))"
    using attempts_trace[of tr' tr RawListZones] by blast
  then show ?thesis by fastforce
qed

lemma PatchZone_unrolled:
  "PatchZone c zid z tr =
     (case api_PatchZone (pdns_client c) tr zid z of
        None \<Rightarrow> (None, tr @ failedAttempts (RawPatchZone zid z) 0 @ [RawPatchZone zid z])
      | Some e1 \<Rightarrow>
          (case api_PatchZone (pdns_client c) (tr @ failedAttempts (RawPatchZone zid z) 1) zid z of
             None \<Rightarrow> (None, tr @ failedAttempts (RawPatchZone zid z) 1 @ [RawPatchZone zid z])
           | Some e2 \<Rightarrow>
               (case api_PatchZone (pdns_client c) (tr @ failedAttempts (RawPatchZone zid z) 2)
                       zid z of
                  None \<Rightarrow> (None, tr @ failedAttempts (RawPatchZone zid z) 2 @ [RawPatchZone zid z])
                | Some e3 \<Rightarrow>
                    (Some (SoftError (''unable to patch zone: '' @ errText e3)),
                     tr @ failedAttempts (RawPatchZone zid z) 3))))"
  by (simp add: PatchZone_def PatchZone_loop.simps retryLimit_def failedAttempts_def
      retryAfterTime_def upt_rec numeral_2_eq_2 numeral_3_eq_3 split: option.splits)

lemma PatchZone_trace:
  assumes "PatchZone c zid z tr = (res, tr')"
  shows "\<exists>T. tr' = tr @ T \<and>
           (\<forall>ev \<in> set T. \<forall>ct \<in> set (sentChangetypes ev).
              \<exists>r \<in> set (zone_Rrsets z). ct = rr_Changetype r)"
proof -
  have "tr' = tr @ failedAttempts (RawPatchZone zid z) 0 @ [RawPatchZone zid z]
      \<or> tr' = tr @ failedAttempts (RawPatchZone zid z) 1 @ [RawPatchZone zid z]
      \<or> tr' = tr @ failedAttempts (RawPatchZone zid z) 2 @ [RawPatchZone zid z]
      \<or> tr' = tr @ failedAttempts (RawPatchZone zid z) 3"
    using assms unfolding PatchZone_unrolled
    by (auto split: option.splits)
  then have "\<exists>T. tr' = tr @ T
      \<and> (\<forall>ev \<in> set T. ev = RawPatchZone zid z \<or> (\<exists>d. ev = Sleep d))"
    using attempts_trace[of tr' tr "RawPatchZone zid z"] by blast
  then show ?thesis by fastforce
qed

lemma patchZones_loop_trace:
  "patchZones_loop p zl tr = (res, tr') \<Longrightarrow>
     \<exists>T. tr' = tr @ T \<and>
       (\<forall>ev \<in> set T. \<forall>c \<in> set (sentChangetypes ev).
          \<exists>z \<in> set zl. \<exists>r \<in> set (zone_Rrsets z). c = rr_Changetype r)"
proof (induction zl arbitrary: tr)
  case Nil
  then show ?case by simp
next
  case (Cons z zl)
  obtain e1 tr1 where pz: "PatchZone (client p) (zone_Id z) z tr = (e1, tr1)"
    by (cases "PatchZone (client p) (zone_Id z) z tr")
  from PatchZone_trace[OF pz] obtain T1 where
    T1: "tr1 = tr @ T1"
    "\<forall>ev \<in> set T1. \<forall>ct \<in> set (sentChangetypes ev).
       \<exists>r \<in> set (zone_Rrsets z). ct = rr_Changetype r"
    by blast
  show ?case
  proof (cases e1)
    case (Some a)
    with pz Cons.prems have "tr' = tr1" by simp
    with T1 have "tr' = tr @ T1 \<and>
       (\<forall>ev \<in> set T1. \<forall>c \<in> set (sentChangetypes ev).
          \<exists>z' \<in> set (z # zl). \<exists>r \<in> set (zone_Rrsets z'). c = rr_Changetype r)"
      by auto
    then show ?thesis by blast
  next
    case None
    with pz Cons.prems have "patchZones_loop p zl tr1 = (res, tr')" by simp
    from Cons.IH[OF this] obtain T2 where
      T2: "tr' = tr1 @ T2"
      "\<forall>ev \<in> set T2. \<forall>c \<in> set (sentChangetypes ev).
          \<exists>z \<in> set zl. \<exists>r \<in> set (zone_Rrsets z). c = rr_Changetype r"
      by blast
    with T1 have "tr' = tr @ (T1 @ T2) \<and>
       (\<forall>ev \<in> set (T1 @ T2). \<forall>c \<in> set (sentChangetypes ev).
          \<exists>z' \<in> set (z # zl). \<exists>r \<in> set (zone_Rrsets z'). c = rr_Changetype r)"
      by auto
    then show ?thesis by blast
  qed
qed

lemma ConvertEndpointsToZones_changetype:
  assumes conv: "ConvertEndpointsToZones etd p eps ct tr = (Inr zl, tr')"
      and y: "y \<in> set zl" and r: "r \<in> set (zone_Rrsets y)"
  shows "rr_Changetype r = ct"
proof -
  from ConvertEndpointsToZones_Inr[OF conv] obtain zs left where
    loop: "filteredZones_loop etd ct
       (SliceStable zoneLonger (fst (PartitionZones (client p) zs)))
       (SliceStable endpointLess eps) [] = Inr (zl, left)"
    by blast
  from filteredZones_loop_sound_Nil[OF loop y r] obtain z e where
    "e \<in> set (SliceStable endpointLess eps)" "endpointRrset etd ct z e = Inr r"
    by blast
  from endpointRrset_Inr_fields(2)[OF this(2)] show ?thesis .
qed

lemma ConvertEndpointsToZones_trace:
  "snd (ConvertEndpointsToZones etd p eps ct tr) = snd (ListZones (client p) tr)"
  by (auto simp: ConvertEndpointsToZones_def ConvertEndpointsToZones_warn_def Let_def
      split: prod.splits sum.splits)

lemma mutateRecords_trace:
  assumes "mutateRecords etd p eps ct tr = (res, tr')"
  shows "\<exists>T. tr' = tr @ T \<and> (\<forall>ev \<in> set T. \<forall>c \<in> set (sentChangetypes ev). c = ct)"
proof -
  obtain cres tr1 where conv: "ConvertEndpointsToZones etd p eps ct tr = (cres, tr1)"
    by (cases "ConvertEndpointsToZones etd p eps ct tr")
  with ConvertEndpointsToZones_trace[of etd p eps ct tr]
  have "ListZones (client p) tr = (fst (ListZones (client p) tr), tr1)"
    by (cases "ListZones (client p) tr") simp
  from ListZones_trace[OF this] obtain T1 where
    T1: "tr1 = tr @ T1" "\<forall>ev \<in> set T1. sentChangetypes ev = []"
    by blast
  show ?thesis
  proof (cases cres)
    case (Inl e)
    with conv assms have "tr' = tr1" by (simp add: mutateRecords_def)
    with T1 have "tr' = tr @ T1 \<and> (\<forall>ev \<in> set T1. \<forall>c \<in> set (sentChangetypes ev). c = ct)"
      by simp
    then show ?thesis by blast
  next
    case (Inr zl)
    with conv assms have "patchZones_loop p zl tr1 = (res, tr')"
      by (simp add: mutateRecords_def)
    from patchZones_loop_trace[OF this] obtain T2 where
      T2: "tr' = tr1 @ T2"
      "\<forall>ev \<in> set T2. \<forall>c \<in> set (sentChangetypes ev).
          \<exists>z \<in> set zl. \<exists>r \<in> set (zone_Rrsets z). c = rr_Changetype r"
      by blast
    have "\<forall>ev \<in> set T2. \<forall>c \<in> set (sentChangetypes ev). c = ct"
      using T2(2) ConvertEndpointsToZones_changetype[OF conv[unfolded Inr]] by blast
    with T1 T2(1) have "tr' = tr @ (T1 @ T2)
        \<and> (\<forall>ev \<in> set (T1 @ T2). \<forall>c \<in> set (sentChangetypes ev). c = ct)"
      by auto
    then show ?thesis by blast
  qed
qed

lemma mutateRecords_if_trace:
  assumes "(if b then mutateRecords etd p eps ct tr else (None, tr)) = (res, tr')"
  shows "\<exists>T. tr' = tr @ T \<and> (\<forall>ev \<in> set T. \<forall>c \<in> set (sentChangetypes ev). c = ct)"
proof (cases b)
  case True
  with assms mutateRecords_trace show ?thesis by simp
next
  case False
  with assms have "tr' = tr @ [] \<and> (\<forall>ev \<in> set []. \<forall>c \<in> set (sentChangetypes ev). c = ct)"
    by simp
  then show ?thesis by blast
qed

lemma pdns_ApplyChanges_trace:
  assumes "PDNSProvider_ApplyChanges etd p changes tr = (res, tr')"
  shows "\<exists>A B. tr' = tr @ A @ B
           \<and> (\<forall>ev \<in> set A. \<forall>c \<in> set (sentChangetypes ev). c = PdnsReplace)
           \<and> (\<forall>ev \<in> set B. \<forall>c \<in> set (sentChangetypes ev). c = PdnsDelete)"
proof -
  obtain r1 tr1 where s1: "(if length (Create changes) > 0
            then mutateRecords etd p (Create changes) PdnsReplace tr
            else (None, tr)) = (r1, tr1)"
    by (cases "(if length (Create changes) > 0
            then mutateRecords etd p (Create changes) PdnsReplace tr
            else (None, tr))")
  from mutateRecords_if_trace[OF s1] obtain T1 where
    T1: "tr1 = tr @ T1" "\<forall>ev \<in> set T1. \<forall>c \<in> set (sentChangetypes ev). c = PdnsReplace"
    by blast
  obtain r2 tr2 where s2: "(if length (UpdateNew changes) > 0
                 then mutateRecords etd p (UpdateNew changes) PdnsReplace tr1
                 else (None, tr1)) = (r2, tr2)"
    by (cases "(if length (UpdateNew changes) > 0
                 then mutateRecords etd p (UpdateNew changes) PdnsReplace tr1
                 else (None, tr1))")
  from mutateRecords_if_trace[OF s2] obtain T2 where
    T2: "tr2 = tr1 @ T2" "\<forall>ev \<in> set T2. \<forall>c \<in> set (sentChangetypes ev). c = PdnsReplace"
    by blast
  obtain r3 tr3 where s3: "(if length (Delete changes) > 0
                then mutateRecords etd p (Delete changes) PdnsDelete tr2
                else (None, tr2)) = (r3, tr3)"
    by (cases "(if length (Delete changes) > 0
                then mutateRecords etd p (Delete changes) PdnsDelete tr2
                else (None, tr2))")
  from mutateRecords_if_trace[OF s3] obtain T3 where
    T3: "tr3 = tr2 @ T3" "\<forall>ev \<in> set T3. \<forall>c \<in> set (sentChangetypes ev). c = PdnsDelete"
    by blast
  have "tr' = tr1 \<or> tr' = tr2 \<or> tr' = tr3"
    using assms s1 s2 s3
    by (auto simp: PDNSProvider_ApplyChanges_def split: option.splits)
  then consider "tr' = tr @ T1 @ []" | "tr' = tr @ (T1 @ T2) @ []" | "tr' = tr @ (T1 @ T2) @ T3"
    using T1(1) T2(1) T3(1) by auto
  then show ?thesis
  proof cases
    case 1
    with T1(2) have "tr' = tr @ T1 @ []
           \<and> (\<forall>ev \<in> set T1. \<forall>c \<in> set (sentChangetypes ev). c = PdnsReplace)
           \<and> (\<forall>ev \<in> set []. \<forall>c \<in> set (sentChangetypes ev). c = PdnsDelete)"
      by simp
    then show ?thesis by blast
  next
    case 2
    with T1(2) T2(2) have "tr' = tr @ (T1 @ T2) @ []
           \<and> (\<forall>ev \<in> set (T1 @ T2). \<forall>c \<in> set (sentChangetypes ev). c = PdnsReplace)
           \<and> (\<forall>ev \<in> set []. \<forall>c \<in> set (sentChangetypes ev). c = PdnsDelete)"
      by auto
    then show ?thesis by blast
  next
    case 3
    with T1(2) T2(2) T3(2) have "tr' = tr @ (T1 @ T2) @ T3
           \<and> (\<forall>ev \<in> set (T1 @ T2). \<forall>c \<in> set (sentChangetypes ev). c = PdnsReplace)
           \<and> (\<forall>ev \<in> set T3. \<forall>c \<in> set (sentChangetypes ev). c = PdnsDelete)"
      by auto
    then show ?thesis by blast
  qed
qed

section \<open>CoreDNS: dry run and the labels of an update\<close>

lemma labelSet_Inr_calls: "labelSet w ep k v = Inr w' \<Longrightarrow> w_calls w' = w_calls w"
  by (auto simp: labelSet_def split: option.splits)

lemma labelSet_Inl: "labelSet w ep k v = Inl err \<Longrightarrow> isPanic err"
  by (auto simp: labelSet_def nilMapWrite_def split: option.splits)

lemma randomPrefix_calls: "w_calls (snd (randomPrefix env w)) = w_calls w"
  by (simp add: randomPrefix_def)

lemma createServices_targets_calls:
  "createServices_targets env p dnsName ep targets services w = (res, w') \<Longrightarrow>
     w_calls w' = w_calls w \<and> (\<forall>err. res = Inl err \<longrightarrow> isPanic err)"
proof (induction targets arbitrary: services w)
  case Nil
  then show ?case by auto
next
  case (Cons target targets)
  obtain prefix w1 where pr: "(if labelGet w ep target = [] then randomPrefix env w
            else (labelGet w ep target, w)) = (prefix, w1)"
    by (cases "(if labelGet w ep target = [] then randomPrefix env w
            else (labelGet w ep target, w))")
  then have c1: "w_calls w1 = w_calls w"
    using randomPrefix_calls[of env w] by (auto split: if_splits)
  show ?case
  proof (cases "labelSet w1 ep target prefix")
    case (Inl err)
    with pr Cons.prems c1 labelSet_Inl[OF Inl] show ?thesis by auto
  next
    case (Inr w2)
    with pr Cons.prems obtain services' where
      "createServices_targets env p dnsName ep targets services' w2 = (res, w')"
      by auto
    from Cons.IH[OF this] labelSet_Inr_calls[OF Inr] c1 show ?thesis by simp
  qed
qed

lemma createServices_labels_dryRun:
  "cd_dryRun p \<Longrightarrow> createServices_labels env p dnsName ep labels w = (None, w)"
  by (induction labels) auto

lemma createServicesForEndpoint_dryRun:
  assumes "cd_dryRun p"
      and "createServicesForEndpoint env p dnsName ep w = (res, w')"
  shows "w_calls w' = w_calls w \<and> (\<forall>err. res = Inl err \<longrightarrow> isPanic err)"
proof -
  obtain r1 w1 where t: "createServices_targets env p dnsName ep
      (Targets (w_endpoints w ep)) [] w = (r1, w1)"
    by (cases "createServices_targets env p dnsName ep (Targets (w_endpoints w ep)) [] w")
  from createServices_targets_calls[OF t] have
    c1: "w_calls w1 = w_calls w" and p1: "\<forall>err. r1 = Inl err \<longrightarrow> isPanic err"
    by auto
  show ?thesis
  proof (cases r1)
    case (Inl err)
    with t assms(2) c1 p1 show ?thesis
      by (auto simp: createServicesForEndpoint_def)
  next
    case (Inr services)
    with t assms c1 show ?thesis
      by (auto simp: createServicesForEndpoint_def createServices_labels_dryRun)
  qed
qed

lemma updateTXTRecords_loop_calls:
  "updateTXTRecords_loop env p dnsName grp services index w = (res, w') \<Longrightarrow>
     w_calls w' = w_calls w \<and> (\<forall>err. res = Inl err \<longrightarrow> isPanic err)"
proof (induction grp arbitrary: services index w)
  case Nil
  then show ?case by auto
next
  case (Cons ep grp)
  show ?case
  proof (cases "RecordType (w_endpoints w ep) \<noteq> RecordTypeTXT")
    case True
    with Cons.prems have "updateTXTRecords_loop env p dnsName grp services index w = (res, w')"
      by simp
    from Cons.IH[OF this] show ?thesis .
  next
    case isText: False
    obtain services1 w1 where a: "(if index \<ge> length services then
                 (case (if labelGet w ep randomPrefixLabel = [] then randomPrefix env w
                        else (labelGet w ep randomPrefixLabel, w)) of
                    (prefix, w1) \<Rightarrow>
                      (services @
                         [zeroService
                            \<lparr>Key := etcdKeyFor p (prefix @ ''.'' @ dnsName),
                             TargetStrip := int (Count prefix CHR ''.'') + 1,
                             svc_TTL := ucast (RecordTTL (w_endpoints w ep))\<rparr>],
                       w1))
               else (services, w)) = (services1, w1)"
      by (cases "(if index \<ge> length services then
                 (case (if labelGet w ep randomPrefixLabel = [] then randomPrefix env w
                        else (labelGet w ep randomPrefixLabel, w)) of
                    (prefix, w1) \<Rightarrow>
                      (services @
                         [zeroService
                            \<lparr>Key := etcdKeyFor p (prefix @ ''.'' @ dnsName),
                             TargetStrip := int (Count prefix CHR ''.'') + 1,
                             svc_TTL := ucast (RecordTTL (w_endpoints w ep))\<rparr>],
                       w1))
               else (services, w))")
    then have c1: "w_calls w1 = w_calls w"
      using randomPrefix_calls[of env w]
      by (auto split: if_splits prod.splits)
    show ?thesis
    proof (cases "Targets (w_endpoints w1 ep)")
      case Nil
      with isText a Cons.prems c1 show ?thesis
        by (auto simp: indexOutOfRange_def)
    next
      case (Cons target rest)
      with isText a Cons.prems obtain services2 where
        "updateTXTRecords_loop env p dnsName grp services2 (index + 1) w1 = (res, w')"
        by auto
      from Cons.IH[OF this] c1 show ?thesis by simp
    qed
  qed
qed

lemma updateTXTRecords_calls:
  "updateTXTRecords env p dnsName grp services w = (res, w') \<Longrightarrow>
     w_calls w' = w_calls w \<and> (\<forall>err. res = Inl err \<longrightarrow> isPanic err)"
  using updateTXTRecords_loop_calls[of env p dnsName grp services 0 w]
  by (auto simp: updateTXTRecords_def split: prod.splits sum.splits)

lemma applyGroup_create_dryRun:
  "cd_dryRun p \<Longrightarrow> applyGroup_create env p dnsName grp services w = (res, w') \<Longrightarrow>
     w_calls w' = w_calls w \<and> (\<forall>err. res = Inl err \<longrightarrow> isPanic err)"
proof (induction grp arbitrary: services w)
  case Nil
  then show ?case by auto
next
  case (Cons ep grp)
  show ?case
  proof (cases "RecordType (w_endpoints w ep) \<noteq> RecordTypeTXT")
    case False
    with Cons.prems have "applyGroup_create env p dnsName grp services w = (res, w')"
      by simp
    from Cons.IH[OF Cons.prems(1) this] show ?thesis .
  next
    case True
    obtain r1 w1 where c: "createServicesForEndpoint env p dnsName ep w = (r1, w1)"
      by (cases "createServicesForEndpoint env p dnsName ep w")
    from createServicesForEndpoint_dryRun[OF Cons.prems(1) c] have
      c1: "w_calls w1 = w_calls w" and p1: "\<forall>err. r1 = Inl err \<longrightarrow> isPanic err"
      by auto
    show ?thesis
    proof (cases r1)
      case (Inl err)
      with True c Cons.prems(2) c1 p1 show ?thesis by auto
    next
      case (Inr srvs)
      with True c Cons.prems(2) have
        "applyGroup_create env p dnsName grp (services @ srvs) w1 = (res, w')"
        by simp
      from Cons.IH[OF Cons.prems(1) this] c1 show ?thesis by simp
    qed
  qed
qed

lemma applyGroup_save_dryRun:
  "cd_dryRun p \<Longrightarrow> applyGroup_save env p services w = (None, w)"
  by (induction services) auto

lemma applyGroup_dryRun:
  assumes "cd_dryRun p" and "applyGroup env p dnsName grp w = (res, w')"
  shows "w_calls w' = w_calls w \<and> (\<forall>err. res = Some err \<longrightarrow> isPanic err)"
proof -
  obtain r1 w1 where c: "applyGroup_create env p dnsName grp [] w = (r1, w1)"
    by (cases "applyGroup_create env p dnsName grp [] w")
  from applyGroup_create_dryRun[OF assms(1) c] have
    c1: "w_calls w1 = w_calls w" and p1: "\<forall>err. r1 = Inl err \<longrightarrow> isPanic err"
    by auto
  show ?thesis
  proof (cases r1)
    case (Inl err)
    with c assms(2) c1 p1 show ?thesis by (auto simp: applyGroup_def)
  next
    case (Inr services)
    obtain r2 w2 where u: "updateTXTRecords env p dnsName grp services w1 = (r2, w2)"
      by (cases "updateTXTRecords env p dnsName grp services w1")
    from updateTXTRecords_calls[OF u] have
      c2: "w_calls w2 = w_calls w1" and p2: "\<forall>err. r2 = Inl err \<longrightarrow> isPanic err"
      by auto
    show ?thesis
    proof (cases r2)
      case (Inl err)
      with Inr c u assms(2) c1 c2 p2 show ?thesis by (auto simp: applyGroup_def)
    next
      case inr2: (Inr services1)
      with Inr c u assms c1 c2 show ?thesis
        by (auto simp: applyGroup_def applyGroup_save_dryRun)
    qed
  qed
qed

lemma groupEndpoints_update_calls:
  "w_calls (snd (groupEndpoints_update pairs grouped w)) = w_calls w"
  by (induction pairs grouped w rule: groupEndpoints_update.induct) auto

lemma groupEndpoints_calls: "w_calls (snd (groupEndpoints changes w)) = w_calls w"
  by (simp add: groupEndpoints_def groupEndpoints_update_calls)

lemma ApplyChanges_groups_dryRun:
  "cd_dryRun p \<Longrightarrow> ApplyChanges_groups env p grouped names w = (res, w') \<Longrightarrow>
     w_calls w' = w_calls w \<and> (\<forall>err. res = Some err \<longrightarrow> isPanic err)"
proof (induction names arbitrary: w)
  case Nil
  then show ?case by simp
next
  case (Cons dnsName names)
  show ?case
  proof (cases "Match (cd_domainFilter p) dnsName")
    case False
    with Cons.prems have "ApplyChanges_groups env p grouped names w = (res, w')" by simp
    from Cons.IH[OF Cons.prems(1) this] show ?thesis .
  next
    case True
    obtain r1 w1 where a: "applyGroup env p dnsName
        (case map_of grouped dnsName of None \<Rightarrow> [] | Some g \<Rightarrow> g) w = (r1, w1)"
      by (cases "applyGroup env p dnsName
        (case map_of grouped dnsName of None \<Rightarrow> [] | Some g \<Rightarrow> g) w")
    from applyGroup_dryRun[OF Cons.prems(1) a] have
      c1: "w_calls w1 = w_calls w" and p1: "\<forall>err. r1 = Some err \<longrightarrow> isPanic err"
      by auto
    show ?thesis
    proof (cases r1)
      case (Some err)
      with True a Cons.prems(2) c1 p1 show ?thesis by auto
    next
      case None
      with True a Cons.prems(2) have "ApplyChanges_groups env p grouped names w1 = (res, w')"
        by simp
      from Cons.IH[OF Cons.prems(1) this] c1 show ?thesis by simp
    qed
  qed
qed

lemma deleteEndpoints_dryRun:
  "cd_dryRun p \<Longrightarrow> deleteEndpoints env p endpoints w = (None, w)"
  by (induction endpoints) auto

lemma coredns_ApplyChanges_dryRun:
  assumes "cd_dryRun p" and "coreDNSProvider_ApplyChanges env p changes w = (res, w')"
  shows "w_calls w' = w_calls w \<and> (\<forall>err. res = Some err \<longrightarrow> isPanic err)"
proof -
  obtain grouped w1 where g: "groupEndpoints changes w = (grouped, w1)"
    by (cases "groupEndpoints changes w")
  with groupEndpoints_calls[of changes w] have c1: "w_calls w1 = w_calls w" by simp
  obtain r2 w2 where a: "ApplyChanges_groups env p grouped
      (rangeOrder env (w_rangeCount w1) (map fst grouped))
      (w1\<lparr>w_rangeCount := Suc (w_rangeCount w1)\<rparr>) = (r2, w2)"
    by (cases "ApplyChanges_groups env p grouped
      (rangeOrder env (w_rangeCount w1) (map fst grouped))
      (w1\<lparr>w_rangeCount := Suc (w_rangeCount w1)\<rparr>)")
  from ApplyChanges_groups_dryRun[OF assms(1) a] c1 have
    c2: "w_calls w2 = w_calls w" and p2: "\<forall>err. r2 = Some err \<longrightarrow> isPanic err"
    by auto
  show ?thesis
  proof (cases r2)
    case (Some err)
    with g a assms(2) c2 p2 show ?thesis
      by (auto simp: coreDNSProvider_ApplyChanges_def)
  next
    case None
    with g a assms c2 show ?thesis
      by (auto simp: coreDNSProvider_ApplyChanges_def deleteEndpoints_dryRun)
  qed
qed

lemma mapGet_mapSet: "mapGet (mapSet m k v) k = v"
  by (induction m) (auto simp: mapGet_def)

lemma groupEndpoints_update_labels:
  assumes "groupEndpoints_update pairs grouped w = (g', w')"
      and "distinct (map fst pairs)"
      and "set (map fst pairs) \<inter> set (map snd pairs) = {}"
  shows "w_labels w' = w_labels w
       \<and> (\<forall>(new, old) \<in> set pairs. Labels (w_endpoints w' new) = Labels (w_endpoints w old))
       \<and> (\<forall>a. a \<notin> set (map fst pairs) \<longrightarrow> w_endpoints w' a = w_endpoints w a)"
  using assms
proof (induction pairs arbitrary: grouped w)
  case Nil
  then show ?case by simp
next
  case (Cons pr pairs)
  obtain ep old where pr: "pr = (ep, old)" by (cases pr)
  define w1 where "w1 = w\<lparr>w_endpoints := (w_endpoints w)
             (ep := (w_endpoints w ep)\<lparr>Labels := Labels (w_endpoints w old)\<rparr>)\<rparr>"
  from Cons.prems(1) pr obtain g1 where
    rec: "groupEndpoints_update pairs g1 w1 = (g', w')"
    by (simp add: w1_def)
  from Cons.prems(2,3) pr have d: "distinct (map fst pairs)"
    and i: "set (map fst pairs) \<inter> set (map snd pairs) = {}"
    and ep1: "ep \<notin> set (map fst pairs)"
    and ep2: "ep \<notin> set (map snd pairs)" and ep3: "ep \<noteq> old"
    and old1: "old \<notin> set (map fst pairs)"
    by auto
  from Cons.IH[OF rec d i] have
    l: "w_labels w' = w_labels w1"
    and n: "\<forall>(new, old) \<in> set pairs. Labels (w_endpoints w' new) = Labels (w_endpoints w1 old)"
    and u: "\<forall>a. a \<notin> set (map fst pairs) \<longrightarrow> w_endpoints w' a = w_endpoints w1 a"
    by auto
  have a: "w_labels w' = w_labels w" using l by (simp add: w1_def)
  have b: "\<forall>(new, old') \<in> set (pr # pairs).
      Labels (w_endpoints w' new) = Labels (w_endpoints w old')"
  proof (intro ballI, clarify)
    fix new old' assume m: "(new, old') \<in> set (pr # pairs)"
    show "Labels (w_endpoints w' new) = Labels (w_endpoints w old')"
    proof (cases "(new, old') = pr")
      case True
      with pr have "new = ep" "old' = old" by auto
      with u ep1 show ?thesis by (simp add: w1_def)
    next
      case False
      with m have m': "(new, old') \<in> set pairs" by simp
      then have "old' \<in> set (map snd pairs)" by force
      with ep2 have "old' \<noteq> ep" by auto
      with n m' show ?thesis by (auto simp: w1_def)
    qed
  qed
  have c: "\<forall>a. a \<notin> set (map fst (pr # pairs)) \<longrightarrow> w_endpoints w' a = w_endpoints w a"
    using u pr by (auto simp: w1_def)
  from a b c show ?case by blast
qed

lemma zip_UpdateNew_UpdateOld:
  "zip (UpdateNew changes) (UpdateOld changes) = map (\<lambda>u. (New u, Old u)) (Update changes)"
  by (simp add: UpdateNew_def UpdateOld_def zip_map_map zip_same_conv_map)

lemma groupEndpoints_labels:
  assumes g: "groupEndpoints changes w = (grouped, w')"
      and d: "distinct (UpdateNew changes)"
      and i: "set (UpdateNew changes) \<inter> set (UpdateOld changes) = {}"
      and u: "u \<in> set (Update changes)"
  shows "Labels (w_endpoints w' (New u)) = Labels (w_endpoints w (Old u))"
    and "Labels (w_endpoints w' (Old u)) = Labels (w_endpoints w (Old u))"
    and "w_labels w' = w_labels w"
proof -
  let ?pairs = "map (\<lambda>u. (New u, Old u)) (Update changes)"
  have f: "map fst ?pairs = UpdateNew changes" and s: "map snd ?pairs = UpdateOld changes"
    by (simp_all add: UpdateNew_def UpdateOld_def comp_def)
  from g have g': "groupEndpoints_update ?pairs
      (groupEndpoints_create (Create changes) [] w) w = (grouped, w')"
    by (simp add: groupEndpoints_def zip_UpdateNew_UpdateOld)
  from groupEndpoints_update_labels[OF g' d[folded f] i[folded f s]] have
    l: "w_labels w' = w_labels w"
    and n: "\<forall>(new, old) \<in> set ?pairs. Labels (w_endpoints w' new) = Labels (w_endpoints w old)"
    and k: "\<forall>a. a \<notin> set (map fst ?pairs) \<longrightarrow> w_endpoints w' a = w_endpoints w a"
    by auto
  from n u show "Labels (w_endpoints w' (New u)) = Labels (w_endpoints w (Old u))"
    by auto
  from u have "Old u \<in> set (UpdateOld changes)" by (simp add: UpdateOld_def)
  with i have "Old u \<notin> set (map fst ?pairs)" unfolding f by auto
  with k show "Labels (w_endpoints w' (Old u)) = Labels (w_endpoints w (Old u))" by simp
  from l show "w_labels w' = w_labels w" .
qed

lemma shared_labels_write:
  assumes "Labels (w_endpoints w a) = Labels (w_endpoints w b)"
      and "labelSet w a k v = Inr w'"
  shows "labelGet w' b k = v \<and> labelGet w' a k = v"
  using assms
  by (auto simp: labelSet_def labelGet_def mapGet_mapSet split: option.splits)

section \<open>Azure Private DNS: the calls of a run that is not dry, and the errors of Records\<close>

lemma mapChange_bucket_set:
  "set (case mapChange names m c zone of None \<Rightarrow> [] | Some es \<Rightarrow> es)
     = set (case m zone of None \<Rightarrow> [] | Some es \<Rightarrow> es)
       \<union> (if FindZone names (DNSName c) = zone \<and> zone \<noteq> [] then {c} else {})"
  by (auto simp: mapChange_def Let_def split: option.splits if_splits)

lemma foldl_mapChange_bucket_set:
  "set (case foldl (mapChange names) m cs zone of None \<Rightarrow> [] | Some es \<Rightarrow> es)
     = set (case m zone of None \<Rightarrow> [] | Some es \<Rightarrow> es)
       \<union> {c \<in> set cs. FindZone names (DNSName c) = zone \<and> zone \<noteq> []}"
proof (induction cs arbitrary: m)
  case Nil
  then show ?case by simp
next
  case (Cons c cs)
  show ?case
    unfolding foldl_Cons Cons.IH mapChange_bucket_set
    by auto
qed

lemma mapChanges_bucket_sets:
  "set (case fst (mapChanges zs changes) zone of None \<Rightarrow> [] | Some es \<Rightarrow> es)
     = {c \<in> set (Delete changes).
          FindZone (List.map_filter pz_Name zs) (DNSName c) = zone \<and> zone \<noteq> []}"
  "set (case snd (mapChanges zs changes) zone of None \<Rightarrow> [] | Some es \<Rightarrow> es)
     = {c \<in> set (Create changes @ UpdateNew changes).
          FindZone (List.map_filter pz_Name zs) (DNSName c) = zone \<and> zone \<noteq> []}"
  by (auto simp: mapChanges_def Let_def foldl_mapChange_bucket_set)

lemma mapChanges_bucket_mem:
  assumes "FindZone (List.map_filter pz_Name zs) (DNSName c) \<noteq> []"
  shows "c \<in> set (Delete changes) \<Longrightarrow>
           \<exists>es. fst (mapChanges zs changes) (FindZone (List.map_filter pz_Name zs) (DNSName c))
                   = Some es \<and> c \<in> set es"
    and "c \<in> set (Create changes @ UpdateNew changes) \<Longrightarrow>
           \<exists>es. snd (mapChanges zs changes) (FindZone (List.map_filter pz_Name zs) (DNSName c))
                   = Some es \<and> c \<in> set es"
proof -
  let ?z = "FindZone (List.map_filter pz_Name zs) (DNSName c)"
  show "\<exists>es. fst (mapChanges zs changes) ?z = Some es \<and> c \<in> set es"
    if "c \<in> set (Delete changes)"
  proof (cases "fst (mapChanges zs changes) ?z")
    case None
    with mapChanges_bucket_sets(1)[of zs changes ?z] assms that show ?thesis
      by auto
  next
    case (Some es)
    with mapChanges_bucket_sets(1)[of zs changes ?z] assms that show ?thesis
      by auto
  qed
  show "\<exists>es. snd (mapChanges zs changes) ?z = Some es \<and> c \<in> set es"
    if "c \<in> set (Create changes @ UpdateNew changes)"
  proof (cases "snd (mapChanges zs changes) ?z")
    case None
    with mapChanges_bucket_sets(2)[of zs changes ?z] assms that show ?thesis
      by auto
  next
    case (Some es)
    with mapChanges_bucket_sets(2)[of zs changes ?z] assms that show ?thesis
      by auto
  qed
qed

lemma deleteRecords_zone_live:
  assumes "\<not> az_dryRun p" and "\<forall>e \<in> set eps. length zone \<le> length (DNSName e)"
  shows "deleteRecords_zone p zone eps calls =
           (None, calls @ map (\<lambda>e. RecordSets_Delete (az_resourceGroup p) zone (RecordType e)
                                     (projr (recordSetNameForZone zone e)))
                            (filter (\<lambda>e. Match (az_domainFilter p) (DNSName e)) eps))"
  using assms(2)
proof (induction eps arbitrary: calls)
  case Nil
  then show ?case by simp
next
  case (Cons e eps)
  from Cons.prems recordSetNameForZone_ok[of zone e] obtain name where
    "recordSetNameForZone zone e = Inr name" by auto
  with Cons assms(1) show ?case by simp
qed

lemma deleteRecords_live:
  assumes "\<not> az_dryRun p"
      and "\<forall>zone es. deleted zone = Some es \<longrightarrow> (\<forall>e \<in> set es. length zone \<le> length (DNSName e))"
  shows "deleteRecords p deleted order calls =
           (None, calls @ concat (map (\<lambda>zone.
              map (\<lambda>e. RecordSets_Delete (az_resourceGroup p) zone (RecordType e)
                         (projr (recordSetNameForZone zone e)))
                (filter (\<lambda>e. Match (az_domainFilter p) (DNSName e))
                   (case deleted zone of None \<Rightarrow> [] | Some es \<Rightarrow> es))) order))"
proof (induction order arbitrary: calls)
  case Nil
  then show ?case by simp
next
  case (Cons zone order)
  have "\<forall>e \<in> set (case deleted zone of None \<Rightarrow> [] | Some endpoints \<Rightarrow> endpoints).
      length zone \<le> length (DNSName e)"
  proof (cases "deleted zone")
    case None
    then show ?thesis by simp
  next
    case (Some es)
    with assms(2) show ?thesis by auto
  qed
  from deleteRecords_zone_live[OF assms(1) this, of calls] Cons.IH show ?case
    by simp
qed

lemma updateRecords_zone_live:
  assumes "\<not> az_dryRun p" and "\<forall>e \<in> set eps. length zone \<le> length (DNSName e)"
      and "\<forall>e \<in> set eps. case newRecordSet pkg e of Inl err \<Rightarrow> \<not> isPanic err | Inr rs \<Rightarrow> True"
  shows "updateRecords_zone pkg p zone eps calls =
           (None, calls @ concat (map
              (\<lambda>e. case newRecordSet pkg e of
                      Inl err \<Rightarrow> []
                    | Inr rs \<Rightarrow> [RecordSets_CreateOrUpdate (az_resourceGroup p) zone
                                   (RecordType e) (projr (recordSetNameForZone zone e)) rs])
              (filter (\<lambda>e. Match (az_domainFilter p) (DNSName e)) eps)))"
  using assms(2,3)
proof (induction eps arbitrary: calls)
  case Nil
  then show ?case by simp
next
  case (Cons e eps)
  from Cons.prems recordSetNameForZone_ok[of zone e] obtain name where
    n: "recordSetNameForZone zone e = Inr name" by auto
  from Cons.prems have ih: "\<And>calls. updateRecords_zone pkg p zone eps calls =
           (None, calls @ concat (map
              (\<lambda>e. case newRecordSet pkg e of
                      Inl err \<Rightarrow> []
                    | Inr rs \<Rightarrow> [RecordSets_CreateOrUpdate (az_resourceGroup p) zone
                                   (RecordType e) (projr (recordSetNameForZone zone e)) rs])
              (filter (\<lambda>e. Match (az_domainFilter p) (DNSName e)) eps)))"
    using Cons.IH by simp
  from Cons.prems have np: "case newRecordSet pkg e of Inl err \<Rightarrow> \<not> isPanic err | Inr rs \<Rightarrow> True"
    by simp
  show ?case
  proof (cases "newRecordSet pkg e")
    case (Inl err)
    with np n assms(1) ih show ?thesis by simp
  next
    case (Inr rs)
    with n assms(1) ih show ?thesis by simp
  qed
qed

lemma updateRecords_live:
  assumes "\<not> az_dryRun p"
      and "\<forall>zone es. updated zone = Some es \<longrightarrow> (\<forall>e \<in> set es. length zone \<le> length (DNSName e))"
      and "\<forall>zone es. updated zone = Some es \<longrightarrow>
             (\<forall>e \<in> set es. case newRecordSet pkg e of Inl err \<Rightarrow> \<not> isPanic err | Inr rs \<Rightarrow> True)"
  shows "updateRecords pkg p updated order calls =
           (None, calls @ concat (map (\<lambda>zone. concat (map
              (\<lambda>e. case newRecordSet pkg e of
                      Inl err \<Rightarrow> []
                    | Inr rs \<Rightarrow> [RecordSets_CreateOrUpdate (az_resourceGroup p) zone
                                   (RecordType e) (projr (recordSetNameForZone zone e)) rs])
              (filter (\<lambda>e. Match (az_domainFilter p) (DNSName e))
                 (case updated zone of None \<Rightarrow> [] | Some es \<Rightarrow> es)))) order))"
proof (induction order arbitrary: calls)
  case Nil
  then show ?case by simp
next
  case (Cons zone order)
  have a: "\<forall>e \<in> set (case updated zone of None \<Rightarrow> [] | Some endpoints \<Rightarrow> endpoints).
      length zone \<le> length (DNSName e)"
  proof (cases "updated zone")
    case None
    then show ?thesis by simp
  next
    case (Some es)
    with assms(2) show ?thesis by auto
  qed
  have b: "\<forall>e \<in> set (case updated zone of None \<Rightarrow> [] | Some endpoints \<Rightarrow> endpoints).
      case newRecordSet pkg e of Inl err \<Rightarrow> \<not> isPanic err | Inr rs \<Rightarrow> True"
  proof (cases "updated zone")
    case None
    then show ?thesis by simp
  next
    case (Some es)
    with assms(3) show ?thesis by auto
  qed
  from updateRecords_zone_live[OF assms(1) a b, of calls] Cons.IH show ?case
    by simp
qed

lemma azure_ApplyChanges_live:
  assumes z: "zones p now st = (Inr zs, st1)"
      and live: "\<not> az_dryRun p"
      and np: "\<forall>e \<in> set (Create changes @ UpdateNew changes).
                 case newRecordSet pkg e of Inl err \<Rightarrow> \<not> isPanic err | Inr rs \<Rightarrow> True"
  shows "AzurePrivateDNSProvider_ApplyChanges pkg p changes dord uord now st =
           (None, st1\<lparr>st_calls := st_calls st
              @ concat (map (\<lambda>zone.
                  map (\<lambda>e. RecordSets_Delete (az_resourceGroup p) zone (RecordType e)
                             (projr (recordSetNameForZone zone e)))
                    (filter (\<lambda>e. Match (az_domainFilter p) (DNSName e))
                       (case fst (mapChanges zs changes) zone of None \<Rightarrow> [] | Some es \<Rightarrow> es)))
                  dord)
              @ concat (map (\<lambda>zone. concat (map
                  (\<lambda>e. case newRecordSet pkg e of
                          Inl err \<Rightarrow> []
                        | Inr rs \<Rightarrow> [RecordSets_CreateOrUpdate (az_resourceGroup p) zone
                                       (RecordType e) (projr (recordSetNameForZone zone e)) rs])
                  (filter (\<lambda>e. Match (az_domainFilter p) (DNSName e))
                     (case snd (mapChanges zs changes) zone of None \<Rightarrow> [] | Some es \<Rightarrow> es))))
                  uord)\<rparr>)"
proof -
  obtain deleted updated where mc: "mapChanges zs changes = (deleted, updated)"
    by (cases "mapChanges zs changes")
  from mapChanges_buckets[OF mc] have
    dl: "\<forall>zone es. deleted zone = Some es \<longrightarrow> (\<forall>e \<in> set es. length zone \<le> length (DNSName e))"
    and ul: "\<forall>zone es. updated zone = Some es \<longrightarrow> (\<forall>e \<in> set es. length zone \<le> length (DNSName e))"
    using FindZone_length by metis+
  have un: "\<forall>zone es. updated zone = Some es \<longrightarrow>
             (\<forall>e \<in> set es. case newRecordSet pkg e of Inl err \<Rightarrow> \<not> isPanic err | Inr rs \<Rightarrow> True)"
  proof (intro allI impI ballI)
    fix zone es e
    assume s: "updated zone = Some es" and e: "e \<in> set es"
    from mapChanges_bucket_sets(2)[of zs changes zone] mc s e
    have "e \<in> set (Create changes @ UpdateNew changes)"
      by auto
    with np show "case newRecordSet pkg e of Inl err \<Rightarrow> \<not> isPanic err | Inr rs \<Rightarrow> True"
      by blast
  qed
  have c1: "st_calls st1 = st_calls st"
    using zones_calls[of p now st] z by simp
  show ?thesis
    unfolding AzurePrivateDNSProvider_ApplyChanges_def z
    by (simp add: mc deleteRecords_live[OF live dl] updateRecords_live[OF live ul un] c1)
qed

lemma records_page_fails:
  "records_page pkg p zoneName recordSets eps = Inl err \<Longrightarrow>
     \<exists>rs \<in> set recordSets. recordSetEndpoint pkg p zoneName rs = Inl err"
  by (induction recordSets arbitrary: eps) (auto split: sum.splits option.splits)

lemma records_pager_fails:
  "records_pager pkg p zoneName pager eps = Inl err \<Longrightarrow>
     (\<exists>rss. Inr rss \<in> set pager \<and>
        (\<exists>rs \<in> set rss. recordSetEndpoint pkg p zoneName rs = Inl err))
     \<or> (\<exists>e. Inl e \<in> set pager \<and>
           err = SoftError (''failed to fetch dns records: '' @ errText e))"
proof (induction pkg p zoneName pager eps rule: records_pager.induct)
  case (1 pkg p zoneName endpoints)
  then show ?case by simp
next
  case (2 pkg p zoneName e pager endpoints)
  then show ?case by auto
next
  case (3 pkg p zoneName nextResult pager endpoints)
  show ?case
  proof (cases "records_page pkg p zoneName nextResult endpoints")
    case (Inl a)
    with 3(2) have "a = err" by simp
    with Inl records_page_fails[of pkg p zoneName nextResult endpoints err]
    show ?thesis by auto
  next
    case (Inr eps')
    with 3(2) have "records_pager pkg p zoneName pager eps' = Inl err" by simp
    from 3(1)[OF Inr this] show ?thesis by auto
  qed
qed

lemma records_zones_fails:
  "records_zones pkg p zs eps = Inl err \<Longrightarrow>
     (\<exists>zone \<in> set zs. pz_Name zone = None)
     \<or> (\<exists>zone \<in> set zs. \<exists>zoneName. pz_Name zone = Some zoneName \<and>
          ((\<exists>rss. Inr rss \<in> set (NewListPager (az_recordSetsClient p) (az_resourceGroup p)
                                    zoneName) \<and>
              (\<exists>rs \<in> set rss. recordSetEndpoint pkg p zoneName rs = Inl err))
           \<or> (\<exists>e. Inl e \<in> set (NewListPager (az_recordSetsClient p) (az_resourceGroup p)
                                   zoneName) \<and>
                 err = SoftError (''failed to fetch dns records: '' @ errText e))))"
proof (induction zs arbitrary: eps)
  case Nil
  then show ?case by simp
next
  case (Cons zone zs)
  show ?case
  proof (cases "pz_Name zone")
    case None
    then show ?thesis by simp
  next
    case (Some zoneName)
    show ?thesis
    proof (cases "records_pager pkg p zoneName
        (NewListPager (az_recordSetsClient p) (az_resourceGroup p) zoneName) eps")
      case (Inl a)
      with Some Cons.prems have "a = err" by simp
      with Inl records_pager_fails[of pkg p zoneName _ eps err] Some
      show ?thesis by auto
    next
      case (Inr eps')
      with Some Cons.prems have "records_zones pkg p zs eps' = Inl err" by simp
      from Cons.IH[OF this] show ?thesis by auto
    qed
  qed
qed

lemma azure_Records_soft:
  assumes z: "zones p now st = (Inr zs, st1)"
      and wf: "\<forall>zone \<in> set zs. \<exists>zoneName. pz_Name zone = Some zoneName \<and>
                 (\<forall>rss. Inr rss \<in> set (NewListPager (az_recordSetsClient p) (az_resourceGroup p)
                                         zoneName) \<longrightarrow>
                    (\<forall>rs \<in> set rss. \<not> isl (recordSetEndpoint pkg p zoneName rs)))"
      and fails: "\<exists>zone \<in> set zs. \<exists>zoneName. pz_Name zone = Some zoneName \<and>
                 (\<exists>page \<in> set (NewListPager (az_recordSetsClient p) (az_resourceGroup p)
                                  zoneName). isl page)"
  shows "\<exists>zone \<in> set zs. \<exists>zoneName e. pz_Name zone = Some zoneName \<and>
           Inl e \<in> set (NewListPager (az_recordSetsClient p) (az_resourceGroup p) zoneName) \<and>
           AzurePrivateDNSProvider_Records pkg p now st =
             (Inl (SoftError (''failed to fetch dns records: '' @ errText e)), st1)"
proof (cases "records_zones pkg p zs []")
  case (Inr eps')
  from records_zones_Inr[OF Inr] fails show ?thesis
    by fastforce
next
  case (Inl err)
  from records_zones_fails[OF Inl] wf
  have "\<exists>zone \<in> set zs. \<exists>zoneName e. pz_Name zone = Some zoneName \<and>
           Inl e \<in> set (NewListPager (az_recordSetsClient p) (az_resourceGroup p) zoneName) \<and>
           err = SoftError (''failed to fetch dns records: '' @ errText e)"
    by (elim disjE bexE exE conjE) (force, force, blast)
  with Inl z show ?thesis
    by (auto simp: AzurePrivateDNSProvider_Records_def)
qed

section \<open>The claims\<close>

text \<open>
  C1. In dry run \<open>ApplyChanges\<close> makes no mutating call. For every Changes value, the
  Azure Private DNS provider in dry run adds no call (\<open>Delete\<close>, \<open>CreateOrUpdate\<close>) to
  the calls made on the record sets client, and returns no error whenever its zones can
  be listed; the CoreDNS provider in dry run adds no call (\<open>SaveService\<close>,
  \<open>DeleteService\<close>) to the calls made on its client, and returns no error: a run that
  does not return \<open>nil\<close> there is a run that panics.
\<close>

theorem dry_run_makes_no_mutating_call:
  assumes az: "az_dryRun azp" and cd: "cd_dryRun cdp"
  shows "st_calls (snd (AzurePrivateDNSProvider_ApplyChanges pkg azp changes dord uord now st))
           = st_calls st
       \<and> (\<forall>zs st1. zones azp now st = (Inr zs, st1) \<longrightarrow>
             fst (AzurePrivateDNSProvider_ApplyChanges pkg azp changes dord uord now st) = None)
       \<and> w_calls (snd (coreDNSProvider_ApplyChanges env cdp cchanges w)) = w_calls w
       \<and> (\<forall>err. fst (coreDNSProvider_ApplyChanges env cdp cchanges w) = Some err \<longrightarrow>
             isPanic err)"
proof -
  from azure_ApplyChanges_calls[OF surjective_pairing] az
  have a1: "st_calls (snd (AzurePrivateDNSProvider_ApplyChanges pkg azp changes dord uord now st))
              = st_calls st"
    by fastforce
  from azure_ApplyChanges_dryRun[OF az]
  have a2: "\<forall>zs st1. zones azp now st = (Inr zs, st1) \<longrightarrow>
              fst (AzurePrivateDNSProvider_ApplyChanges pkg azp changes dord uord now st) = None"
    by blast
  from coredns_ApplyChanges_dryRun[OF cd surjective_pairing]
  have c: "w_calls (snd (coreDNSProvider_ApplyChanges env cdp cchanges w)) = w_calls w
         \<and> (\<forall>err. fst (coreDNSProvider_ApplyChanges env cdp cchanges w) = Some err \<longrightarrow>
               isPanic err)" .
  from a1 a2 c show ?thesis
    by blast
qed

theorem dry_run_makes_no_mutating_call_witness:
  "st_calls (snd (AzurePrivateDNSProvider_ApplyChanges example_azure_package example_azure
                    example_azure_changes [''example.com''] [''example.com''] 0
                    example_azure_state))
     = st_calls example_azure_state
   \<and> fst (AzurePrivateDNSProvider_ApplyChanges example_azure_package example_azure
            example_azure_changes [''example.com''] [''example.com''] 0 example_azure_state)
     = None
   \<and> w_calls (snd (coreDNSProvider_ApplyChanges example_coredns_env example_coredns
                     example_update update_world))
     = w_calls update_world
   \<and> fst (coreDNSProvider_ApplyChanges example_coredns_env example_coredns example_update
            update_world)
     = None"
proof -
  have az: "az_dryRun example_azure"
    by code_simp
  have cd: "cd_dryRun example_coredns"
    by code_simp
  have z: "zones example_azure 0 example_azure_state
             = (Inr example_private_zones, snd (zones example_azure 0 example_azure_state))"
    by code_simp
  have ok: "fst (coreDNSProvider_ApplyChanges example_coredns_env example_coredns
                   example_update update_world) = None"
    by code_simp
  from dry_run_makes_no_mutating_call[OF az cd,
         of example_azure_package example_azure_changes "[''example.com'']"
            "[''example.com'']" 0 example_azure_state example_coredns_env example_update
            update_world] z ok
  show ?thesis
    by blast
qed

text \<open>
  C2, as the claim states it, at the PowerDNS provider. The changes create an A record
  at \<open>a.example.com\<close> and delete the CNAME record at the same name. \<open>ApplyChanges\<close>
  patches the zone with the \<open>REPLACE\<close> of the created record first, and with the
  \<open>DELETE\<close> after it.
\<close>

theorem pdns_create_precedes_delete:
  "PDNSProvider_ApplyChanges trailingDot example_pdns example_switch [] =
     (None,
      [RawListZones,
       RawPatchZone ''example.com.''
         \<lparr>zone_Id = ''example.com.'', zone_Name = ''example.com.'',
          zone_Rrsets =
            [\<lparr>rr_Name = ''a.example.com.'', rr_Type = ''A'', rr_Ttl = 300,
              rr_Changetype = ''REPLACE'',
              rr_Records = [\<lparr>Content = ''1.2.3.4'', Disabled = False\<rparr>]\<rparr>]\<rparr>,
       RawListZones,
       RawPatchZone ''example.com.''
         \<lparr>zone_Id = ''example.com.'', zone_Name = ''example.com.'',
          zone_Rrsets =
            [\<lparr>rr_Name = ''a.example.com.'', rr_Type = ''CNAME'', rr_Ttl = 0,
              rr_Changetype = ''DELETE'',
              rr_Records = [\<lparr>Content = ''other.org.'', Disabled = False\<rparr>]\<rparr>]\<rparr>])"
  by code_simp

text \<open>
  C2, amended. The Azure Private DNS provider applies all mapped deletions before any
  creation or update: the calls that \<open>ApplyChanges\<close> adds are \<open>Delete\<close> calls followed
  by \<open>CreateOrUpdate\<close> calls. The PowerDNS provider applies them the other way round:
  what \<open>ApplyChanges\<close> adds to the trace is first the calls for \<open>Create\<close> and for the
  new side of \<open>Update\<close>, whose patches send \<open>REPLACE\<close> rrsets only, and after them the
  calls for \<open>Delete\<close>, whose patches send \<open>DELETE\<close> rrsets only.
\<close>

theorem azure_deletes_first_pdns_deletes_last:
  "(\<exists>ds us. st_calls (snd (AzurePrivateDNSProvider_ApplyChanges pkg azp changes dord uord now st))
              = st_calls st @ ds @ us
            \<and> (\<forall>c \<in> set ds. isDeleteCall c) \<and> (\<forall>c \<in> set us. isCreateOrUpdateCall c))
   \<and> (\<exists>A B. snd (PDNSProvider_ApplyChanges etd p pchanges tr) = tr @ A @ B
           \<and> (\<forall>ev \<in> set A. \<forall>c \<in> set (sentChangetypes ev). c = PdnsReplace)
           \<and> (\<forall>ev \<in> set B. \<forall>c \<in> set (sentChangetypes ev). c = PdnsDelete))"
proof -
  from azure_ApplyChanges_calls[OF surjective_pairing]
  have a: "\<exists>ds us. st_calls (snd (AzurePrivateDNSProvider_ApplyChanges pkg azp changes dord uord now st))
              = st_calls st @ ds @ us
            \<and> (\<forall>c \<in> set ds. isDeleteCall c) \<and> (\<forall>c \<in> set us. isCreateOrUpdateCall c)"
    by blast
  from pdns_ApplyChanges_trace[OF surjective_pairing]
  have b: "\<exists>A B. snd (PDNSProvider_ApplyChanges etd p pchanges tr) = tr @ A @ B
           \<and> (\<forall>ev \<in> set A. \<forall>c \<in> set (sentChangetypes ev). c = PdnsReplace)
           \<and> (\<forall>ev \<in> set B. \<forall>c \<in> set (sentChangetypes ev). c = PdnsDelete)" .
  from a b show ?thesis
    by (rule conjI)
qed

theorem azure_deletes_first_pdns_deletes_last_witness:
  "(\<exists>ds us. st_calls (snd (AzurePrivateDNSProvider_ApplyChanges example_azure_package
                            example_azure_live example_azure_changes [''example.com'']
                            [''example.com''] 0 example_azure_state))
              = st_calls example_azure_state @ ds @ us
            \<and> (\<forall>c \<in> set ds. isDeleteCall c) \<and> (\<forall>c \<in> set us. isCreateOrUpdateCall c))
   \<and> (\<exists>A B. snd (PDNSProvider_ApplyChanges trailingDot example_pdns example_switch [])
              = [] @ A @ B
           \<and> (\<forall>ev \<in> set A. \<forall>c \<in> set (sentChangetypes ev). c = PdnsReplace)
           \<and> (\<forall>ev \<in> set B. \<forall>c \<in> set (sentChangetypes ev). c = PdnsDelete))
   \<and> map isDeleteCall
        (st_calls (snd (AzurePrivateDNSProvider_ApplyChanges example_azure_package
                          example_azure_live example_azure_changes [''example.com'']
                          [''example.com''] 0 example_azure_state)))
      = [True, False]
   \<and> map sentChangetypes
        (snd (PDNSProvider_ApplyChanges trailingDot example_pdns example_switch []))
      = [[], [''REPLACE''], [], [''DELETE'']]"
proof -
  have run_azure: "map isDeleteCall
        (st_calls (snd (AzurePrivateDNSProvider_ApplyChanges example_azure_package
                          example_azure_live example_azure_changes [''example.com'']
                          [''example.com''] 0 example_azure_state)))
      = [True, False]"
    by code_simp
  have run_pdns: "map sentChangetypes
        (snd (PDNSProvider_ApplyChanges trailingDot example_pdns example_switch []))
      = [[], [''REPLACE''], [], [''DELETE'']]"
    by code_simp
  from azure_deletes_first_pdns_deletes_last[of example_azure_package example_azure_live
         example_azure_changes "[''example.com'']" "[''example.com'']" 0 example_azure_state
         trailingDot example_pdns example_switch "[]"] run_azure run_pdns
  show ?thesis
    by blast
qed

text \<open>
  C3, at a backend that holds two services for \<open>www.example.com\<close>. \<open>Records\<close> of the
  CoreDNS provider finds the endpoint of the first service when it reads the second,
  adds the second host to its targets, and appends the endpoint to the result again:
  the list it returns holds the same endpoint twice.
\<close>

theorem coredns_records_repeats_endpoint:
  "fst (coreDNSProvider_Records example_coredns_env example_coredns empty_world) = Inr [0, 0]
   \<and> w_endpoints (snd (coreDNSProvider_Records example_coredns_env example_coredns
                         empty_world)) 0
     = NewEndpointWithTTL ''www.example.com'' ''A'' 0 [''1.1.1.1'', ''2.2.2.2''] (Some 0)"
  by code_simp

text \<open>
  C4. \<open>ConvertEndpointsToZones\<close> assigns an endpoint to the longest matching zone. When
  the zones are listed and the conversion succeeds, every endpoint whose name (with its
  trailing dot) matches a filtered zone has its rrset in a zone of the result that
  matches the name at a label boundary (\<open>zoneMatches\<close>: the name equals the zone name,
  or ends with a dot followed by the zone name), that is one of the filtered zones, and
  whose name is at least as long as the name of every filtered zone that matches; and
  every rrset of that name in the result is in that zone.
\<close>

theorem pdns_longest_zone_wins:
  assumes lz: "ListZones (client p) tr = (Inr zs, tr')"
      and conv: "ConvertEndpointsToZones EnsureTrailingDot p eps changetype tr = (Inr zoneList, tr'')"
      and ep: "ep \<in> set eps"
      and z: "z \<in> set (fst (PartitionZones (client p) zs))"
      and m: "zoneMatches (EnsureTrailingDot (DNSName ep)) z"
  shows "\<exists>y \<in> set zoneList.
           (\<exists>r \<in> set (zone_Rrsets y). endpointRrset EnsureTrailingDot changetype y ep = Inr r)
           \<and> zoneMatches (EnsureTrailingDot (DNSName ep)) y
           \<and> (\<exists>f \<in> set (fst (PartitionZones (client p) zs)).
                 zone_Id y = zone_Id f \<and> zone_Name y = zone_Name f)
           \<and> (\<forall>z' \<in> set (fst (PartitionZones (client p) zs)).
                 zoneMatches (EnsureTrailingDot (DNSName ep)) z'
                 \<longrightarrow> length (zone_Name z') \<le> length (zone_Name y))
           \<and> (\<forall>y' \<in> set zoneList. \<forall>r' \<in> set (zone_Rrsets y').
                 rr_Name r' = EnsureTrailingDot (DNSName ep)
                 \<longrightarrow> zone_Id y' = zone_Id y \<and> zone_Name y' = zone_Name y)"
  using assms by (rule ConvertEndpointsToZones_assigns)

theorem pdns_longest_zone_wins_witness:
  "\<exists>y \<in> set example_foo_zones.
     (\<exists>r \<in> set (zone_Rrsets y). endpointRrset trailingDot PdnsReplace y example_foo = Inr r)
     \<and> zoneMatches (trailingDot (DNSName example_foo)) y
     \<and> (\<exists>f \<in> set (fst (PartitionZones (client example_pdns) example_zones)).
           zone_Id y = zone_Id f \<and> zone_Name y = zone_Name f)
     \<and> (\<forall>z' \<in> set (fst (PartitionZones (client example_pdns) example_zones)).
           zoneMatches (trailingDot (DNSName example_foo)) z'
           \<longrightarrow> length (zone_Name z') \<le> length (zone_Name y))
     \<and> (\<forall>y' \<in> set example_foo_zones. \<forall>r' \<in> set (zone_Rrsets y').
           rr_Name r' = trailingDot (DNSName example_foo)
           \<longrightarrow> zone_Id y' = zone_Id y \<and> zone_Name y' = zone_Name y)"
proof -
  have lz: "ListZones (client example_pdns) [] = (Inr example_zones, [RawListZones])"
    by code_simp
  have conv: "ConvertEndpointsToZones trailingDot example_pdns [example_foo] PdnsReplace []
      = (Inr example_foo_zones, [RawListZones])"
    by code_simp
  have ep: "example_foo \<in> set [example_foo]"
    by simp
  have z: "hd example_zones \<in> set (fst (PartitionZones (client example_pdns) example_zones))"
    by code_simp
  have m: "zoneMatches (trailingDot (DNSName example_foo)) (hd example_zones)"
    by code_simp
  from pdns_longest_zone_wins[OF lz conv ep z m] show ?thesis .
qed

text \<open>
  C5, as the claim states it, at an update of \<open>www.example.com\<close> from the target
  \<open>1.1.1.1\<close> to the target \<open>2.2.2.2\<close>. After \<open>groupEndpoints\<close> the new endpoint has the
  map of the old one, the same instance; \<open>ApplyChanges\<close> then records the prefix of the
  new target in the labels of the new endpoint, and the labels of the old endpoint
  have it too.
\<close>

theorem coredns_update_shares_labels:
  "Labels (w_endpoints (snd (groupEndpoints example_update update_world)) 1)
     = Labels (w_endpoints (snd (groupEndpoints example_update update_world)) 0)
   \<and> Labels (w_endpoints (snd (groupEndpoints example_update update_world)) 0) = Some 0
   \<and> labelGet update_world 0 ''2.2.2.2'' = []
   \<and> labelGet (snd (coreDNSProvider_ApplyChanges example_coredns_env example_coredns
                      example_update update_world)) 0 ''2.2.2.2'' = ''00000000''"
  by code_simp

text \<open>
  C5, amended. When the new endpoints of the updates are distinct and none of them is
  also the old endpoint of an update, \<open>groupEndpoints\<close> gives the new endpoint of every
  update the Labels map of the old endpoint, the same instance and not a copy: the old
  endpoint keeps its map, no map changes, the labels of the new endpoint read as the
  labels of the old endpoint did, and a label written through the new endpoint
  afterwards is a label of the old endpoint too.
\<close>

theorem coredns_update_takes_labels_of_old:
  assumes g: "groupEndpoints changes w = (grouped, w')"
      and d: "distinct (UpdateNew changes)"
      and i: "set (UpdateNew changes) \<inter> set (UpdateOld changes) = {}"
      and u: "u \<in> set (Update changes)"
  shows "Labels (w_endpoints w' (New u)) = Labels (w_endpoints w (Old u))
       \<and> Labels (w_endpoints w' (Old u)) = Labels (w_endpoints w (Old u))
       \<and> w_labels w' = w_labels w
       \<and> (\<forall>k. labelGet w' (New u) k = labelGet w (Old u) k)
       \<and> (\<forall>k v w''. labelSet w' (New u) k v = Inr w'' \<longrightarrow>
             labelGet w'' (Old u) k = v \<and> labelGet w'' (New u) k = v)"
proof -
  note l = groupEndpoints_labels[OF g d i u]
  from l have same: "Labels (w_endpoints w' (New u)) = Labels (w_endpoints w' (Old u))"
    by simp
  from l have reads: "\<forall>k. labelGet w' (New u) k = labelGet w (Old u) k"
    by (simp add: labelGet_def split: option.splits)
  from shared_labels_write[OF same]
  have writes: "\<forall>k v w''. labelSet w' (New u) k v = Inr w'' \<longrightarrow>
             labelGet w'' (Old u) k = v \<and> labelGet w'' (New u) k = v"
    by blast
  from l reads writes show ?thesis
    by (intro conjI)
qed

theorem coredns_update_takes_labels_of_old_witness:
  "Labels (w_endpoints (snd (groupEndpoints example_update update_world)) 1) = Some 0
   \<and> Labels (w_endpoints (snd (groupEndpoints example_update update_world)) 0) = Some 0
   \<and> labelGet (snd (groupEndpoints example_update update_world)) 1 ''prefix'' = ''aaaa''
   \<and> labelGet (projr (labelSet (snd (groupEndpoints example_update update_world)) 1
                         ''2.2.2.2'' ''bbbb'')) 0 ''2.2.2.2'' = ''bbbb''"
proof -
  have g: "groupEndpoints example_update update_world
             = (fst (groupEndpoints example_update update_world),
                snd (groupEndpoints example_update update_world))"
    by simp
  have d: "distinct (UpdateNew example_update)"
    by code_simp
  have i: "set (UpdateNew example_update) \<inter> set (UpdateOld example_update) = {}"
    by code_simp
  have u: "\<lparr>Old = 0, New = 1\<rparr> \<in> set (Update example_update)"
    by code_simp
  have old: "Labels (w_endpoints update_world 0) = Some 0"
    by code_simp
  have rd: "labelGet update_world 0 ''prefix'' = ''aaaa''"
    by code_simp
  from coredns_update_takes_labels_of_old[OF g d i u] old
  have lab: "Labels (w_endpoints (snd (groupEndpoints example_update update_world)) 1) = Some 0"
    by simp
  from lab
  have wr: "labelSet (snd (groupEndpoints example_update update_world)) 1 ''2.2.2.2'' ''bbbb''
              = Inr (projr (labelSet (snd (groupEndpoints example_update update_world)) 1
                              ''2.2.2.2'' ''bbbb''))"
    by (simp add: labelSet_def)
  from coredns_update_takes_labels_of_old[OF g d i u] old rd wr
  show ?thesis
    by (simp del: One_nat_def)
qed

text \<open>
  C6. A failure of the backend comes back as a soft error. \<open>PDNSAPIClient.ListZones\<close>
  makes at most three calls, with a sleep of 250, 500 and 1000 ms after the first, the
  second and the third failure; it returns the zones of the first call that succeeds,
  and when all three fail it returns a soft error. \<open>AzurePrivateDNSProvider.Records\<close>,
  when the zones are listed, returns an error whenever a page of the record sets of one
  of the zones cannot be fetched, and an error it returns is a soft error (a run that
  panics apart); when every zone has a name and no record set of a fetched page
  panics, what it returns is the soft error made of the error of a page that failed.
\<close>

theorem backend_failure_is_soft_error:
  "(\<forall>e1 e2 e3.
      api_ListZones (pdns_client c) tr = Inl e1 \<and>
      api_ListZones (pdns_client c) (tr @ [RawListZones, Sleep 250]) = Inl e2 \<and>
      api_ListZones (pdns_client c) (tr @ [RawListZones, Sleep 250, RawListZones, Sleep 500])
        = Inl e3
      \<longrightarrow> ListZones c tr =
            (Inl (SoftError (''unable to list zones: '' @ errText e3)),
             tr @ [RawListZones, Sleep 250, RawListZones, Sleep 500, RawListZones, Sleep 1000]))
   \<and> ((\<exists>zs. fst (ListZones c tr) = Inr zs \<and>
             snd (ListZones c tr) \<in>
               {tr @ [RawListZones],
                tr @ [RawListZones, Sleep 250, RawListZones],
                tr @ [RawListZones, Sleep 250, RawListZones, Sleep 500, RawListZones]})
       \<or> (\<exists>msg. ListZones c tr =
             (Inl (SoftError msg),
              tr @ [RawListZones, Sleep 250, RawListZones, Sleep 500, RawListZones,
                    Sleep 1000])))
   \<and> (\<forall>zs st1. zones azp now st = (Inr zs, st1) \<longrightarrow>
         (\<forall>err. fst (AzurePrivateDNSProvider_Records pkg azp now st) = Inl err \<longrightarrow>
            isSoft err \<or> isPanic err)
       \<and> (\<forall>zone zoneName.
            zone \<in> set zs \<and> pz_Name zone = Some zoneName \<and>
            (\<exists>page \<in> set (NewListPager (az_recordSetsClient azp) (az_resourceGroup azp)
                             zoneName). isl page)
            \<longrightarrow> (\<exists>err. fst (AzurePrivateDNSProvider_Records pkg azp now st) = Inl err \<and>
                       (isSoft err \<or> isPanic err))))
   \<and> (\<forall>zs st1.
         zones azp now st = (Inr zs, st1) \<and>
         (\<forall>zone \<in> set zs. \<exists>zoneName. pz_Name zone = Some zoneName \<and>
            (\<forall>rss. Inr rss \<in> set (NewListPager (az_recordSetsClient azp) (az_resourceGroup azp)
                                    zoneName) \<longrightarrow>
               (\<forall>rs \<in> set rss. \<not> isl (recordSetEndpoint pkg azp zoneName rs)))) \<and>
         (\<exists>zone \<in> set zs. \<exists>zoneName. pz_Name zone = Some zoneName \<and>
            (\<exists>page \<in> set (NewListPager (az_recordSetsClient azp) (az_resourceGroup azp)
                             zoneName). isl page))
         \<longrightarrow> (\<exists>zone \<in> set zs. \<exists>zoneName e. pz_Name zone = Some zoneName \<and>
                Inl e \<in> set (NewListPager (az_recordSetsClient azp) (az_resourceGroup azp)
                               zoneName) \<and>
                AzurePrivateDNSProvider_Records pkg azp now st =
                  (Inl (SoftError (''failed to fetch dns records: '' @ errText e)), st1)))"
proof -
  have p1: "\<forall>e1 e2 e3.
      api_ListZones (pdns_client c) tr = Inl e1 \<and>
      api_ListZones (pdns_client c) (tr @ [RawListZones, Sleep 250]) = Inl e2 \<and>
      api_ListZones (pdns_client c) (tr @ [RawListZones, Sleep 250, RawListZones, Sleep 500])
        = Inl e3
      \<longrightarrow> ListZones c tr =
            (Inl (SoftError (''unable to list zones: '' @ errText e3)),
             tr @ [RawListZones, Sleep 250, RawListZones, Sleep 500, RawListZones, Sleep 1000])"
    unfolding ListZones_unrolled [of c tr] failedAttempts_values
    by simp
  have p2: "(\<exists>zs. fst (ListZones c tr) = Inr zs \<and>
             snd (ListZones c tr) \<in>
               {tr @ [RawListZones],
                tr @ [RawListZones, Sleep 250, RawListZones],
                tr @ [RawListZones, Sleep 250, RawListZones, Sleep 500, RawListZones]})
       \<or> (\<exists>msg. ListZones c tr =
             (Inl (SoftError msg),
              tr @ [RawListZones, Sleep 250, RawListZones, Sleep 500, RawListZones,
                    Sleep 1000]))"
    unfolding ListZones_unrolled [of c tr] failedAttempts_values
    by (simp split: sum.splits)
  have p3: "\<forall>zs st1. zones azp now st = (Inr zs, st1) \<longrightarrow>
         (\<forall>err. fst (AzurePrivateDNSProvider_Records pkg azp now st) = Inl err \<longrightarrow>
            isSoft err \<or> isPanic err)
       \<and> (\<forall>zone zoneName.
            zone \<in> set zs \<and> pz_Name zone = Some zoneName \<and>
            (\<exists>page \<in> set (NewListPager (az_recordSetsClient azp) (az_resourceGroup azp)
                             zoneName). isl page)
            \<longrightarrow> (\<exists>err. fst (AzurePrivateDNSProvider_Records pkg azp now st) = Inl err \<and>
                       (isSoft err \<or> isPanic err)))"
  proof (intro allI impI)
    fix zs st1
    assume z: "zones azp now st = (Inr zs, st1)"
    note r = azure_Records_errors[OF z, of pkg]
    obtain res st' where run: "AzurePrivateDNSProvider_Records pkg azp now st = (res, st')"
      by (cases "AzurePrivateDNSProvider_Records pkg azp now st")
    from r run
    have soft: "\<forall>err. fst (AzurePrivateDNSProvider_Records pkg azp now st) = Inl err \<longrightarrow>
                  isSoft err \<or> isPanic err"
      by simp
    have fails: "\<forall>zone zoneName.
            zone \<in> set zs \<and> pz_Name zone = Some zoneName \<and>
            (\<exists>page \<in> set (NewListPager (az_recordSetsClient azp) (az_resourceGroup azp)
                             zoneName). isl page)
            \<longrightarrow> (\<exists>err. fst (AzurePrivateDNSProvider_Records pkg azp now st) = Inl err \<and>
                       (isSoft err \<or> isPanic err))"
    proof (intro allI impI)
      fix zone zoneName
      assume h: "zone \<in> set zs \<and> pz_Name zone = Some zoneName \<and>
            (\<exists>page \<in> set (NewListPager (az_recordSetsClient azp) (az_resourceGroup azp)
                             zoneName). isl page)"
      show "\<exists>err. fst (AzurePrivateDNSProvider_Records pkg azp now st) = Inl err \<and>
                       (isSoft err \<or> isPanic err)"
      proof (cases res)
        case (Inl err)
        with run soft show ?thesis
          by simp
      next
        case (Inr eps)
        with r run h show ?thesis
          by fastforce
      qed
    qed
    from soft fails
    show "(\<forall>err. fst (AzurePrivateDNSProvider_Records pkg azp now st) = Inl err \<longrightarrow>
            isSoft err \<or> isPanic err)
       \<and> (\<forall>zone zoneName.
            zone \<in> set zs \<and> pz_Name zone = Some zoneName \<and>
            (\<exists>page \<in> set (NewListPager (az_recordSetsClient azp) (az_resourceGroup azp)
                             zoneName). isl page)
            \<longrightarrow> (\<exists>err. fst (AzurePrivateDNSProvider_Records pkg azp now st) = Inl err \<and>
                       (isSoft err \<or> isPanic err)))"
      by (rule conjI)
  qed
  have p4: "(\<forall>zs st1.
         zones azp now st = (Inr zs, st1) \<and>
         (\<forall>zone \<in> set zs. \<exists>zoneName. pz_Name zone = Some zoneName \<and>
            (\<forall>rss. Inr rss \<in> set (NewListPager (az_recordSetsClient azp) (az_resourceGroup azp)
                                    zoneName) \<longrightarrow>
               (\<forall>rs \<in> set rss. \<not> isl (recordSetEndpoint pkg azp zoneName rs)))) \<and>
         (\<exists>zone \<in> set zs. \<exists>zoneName. pz_Name zone = Some zoneName \<and>
            (\<exists>page \<in> set (NewListPager (az_recordSetsClient azp) (az_resourceGroup azp)
                             zoneName). isl page))
         \<longrightarrow> (\<exists>zone \<in> set zs. \<exists>zoneName e. pz_Name zone = Some zoneName \<and>
                Inl e \<in> set (NewListPager (az_recordSetsClient azp) (az_resourceGroup azp)
                               zoneName) \<and>
                AzurePrivateDNSProvider_Records pkg azp now st =
                  (Inl (SoftError (''failed to fetch dns records: '' @ errText e)), st1)))"
  proof (intro allI impI, elim conjE)
    fix zs st1
    assume z: "zones azp now st = (Inr zs, st1)"
       and wf: "\<forall>zone \<in> set zs. \<exists>zoneName. pz_Name zone = Some zoneName \<and>
            (\<forall>rss. Inr rss \<in> set (NewListPager (az_recordSetsClient azp) (az_resourceGroup azp)
                                    zoneName) \<longrightarrow>
               (\<forall>rs \<in> set rss. \<not> isl (recordSetEndpoint pkg azp zoneName rs)))"
       and fails: "\<exists>zone \<in> set zs. \<exists>zoneName. pz_Name zone = Some zoneName \<and>
            (\<exists>page \<in> set (NewListPager (az_recordSetsClient azp) (az_resourceGroup azp)
                             zoneName). isl page)"
    from z wf fails
    show "\<exists>zone \<in> set zs. \<exists>zoneName e. pz_Name zone = Some zoneName \<and>
                Inl e \<in> set (NewListPager (az_recordSetsClient azp) (az_resourceGroup azp)
                               zoneName) \<and>
                AzurePrivateDNSProvider_Records pkg azp now st =
                  (Inl (SoftError (''failed to fetch dns records: '' @ errText e)), st1)"
      by (rule azure_Records_soft)
  qed
  from p1 p2 p3 p4 show ?thesis
    by (intro conjI)
qed

theorem backend_failure_is_soft_error_witness:
  "ListZones (client failing_pdns) [] =
     (Inl (SoftError ''unable to list zones: connection refused''),
      [RawListZones, Sleep 250, RawListZones, Sleep 500, RawListZones, Sleep 1000])
   \<and> (\<exists>err. fst (AzurePrivateDNSProvider_Records example_azure_package failing_azure 0
                    example_azure_state) = Inl err
            \<and> (isSoft err \<or> isPanic err))
   \<and> fst (AzurePrivateDNSProvider_Records example_azure_package failing_azure 0
            example_azure_state)
     = Inl (SoftError ''failed to fetch dns records: timeout'')"
proof -
  have f1: "api_ListZones (pdns_client (client failing_pdns)) []
              = Inl (PlainError ''connection refused'')"
    by code_simp
  have f2: "api_ListZones (pdns_client (client failing_pdns)) ([] @ [RawListZones, Sleep 250])
              = Inl (PlainError ''connection refused'')"
    by code_simp
  have f3: "api_ListZones (pdns_client (client failing_pdns))
              ([] @ [RawListZones, Sleep 250, RawListZones, Sleep 500])
              = Inl (PlainError ''connection refused'')"
    by code_simp
  have z: "zones failing_azure 0 example_azure_state
             = (Inr example_private_zones, snd (zones failing_azure 0 example_azure_state))"
    by code_simp
  have zone: "hd example_private_zones \<in> set example_private_zones
              \<and> pz_Name (hd example_private_zones) = Some ''example.com''
              \<and> (\<exists>page \<in> set (NewListPager (az_recordSetsClient failing_azure)
                                 (az_resourceGroup failing_azure) ''example.com''). isl page)"
    by code_simp
  have pages: "NewListPager (az_recordSetsClient failing_azure) (az_resourceGroup failing_azure)
                 zoneName = [Inl (PlainError ''timeout'')]" for zoneName
    by (simp add: failing_azure_def)
  have wf: "\<forall>zone \<in> set example_private_zones. \<exists>zoneName. pz_Name zone = Some zoneName \<and>
            (\<forall>rss. Inr rss \<in> set (NewListPager (az_recordSetsClient failing_azure)
                                    (az_resourceGroup failing_azure) zoneName) \<longrightarrow>
               (\<forall>rs \<in> set rss.
                  \<not> isl (recordSetEndpoint example_azure_package failing_azure zoneName rs)))"
    by (simp add: pages example_private_zones_def)
  have fails: "\<exists>zone \<in> set example_private_zones. \<exists>zoneName. pz_Name zone = Some zoneName \<and>
            (\<exists>page \<in> set (NewListPager (az_recordSetsClient failing_azure)
                             (az_resourceGroup failing_azure) zoneName). isl page)"
    by (simp add: pages example_private_zones_def)
  note t = backend_failure_is_soft_error[of "client failing_pdns" "[]" failing_azure 0
             example_azure_state example_azure_package]
  from t f1 f2 f3
  have a: "ListZones (client failing_pdns) [] =
     (Inl (SoftError (''unable to list zones: '' @ errText (PlainError ''connection refused''))),
      [] @ [RawListZones, Sleep 250, RawListZones, Sleep 500, RawListZones, Sleep 1000])"
    by blast
  from t z zone
  have b: "\<exists>err. fst (AzurePrivateDNSProvider_Records example_azure_package failing_azure 0
                    example_azure_state) = Inl err
            \<and> (isSoft err \<or> isPanic err)"
    by blast
  from t z wf fails
  have "\<exists>zone \<in> set example_private_zones. \<exists>zoneName e. pz_Name zone = Some zoneName \<and>
          Inl e \<in> set (NewListPager (az_recordSetsClient failing_azure)
                         (az_resourceGroup failing_azure) zoneName) \<and>
          AzurePrivateDNSProvider_Records example_azure_package failing_azure 0
            example_azure_state =
            (Inl (SoftError (''failed to fetch dns records: '' @ errText e)),
             snd (zones failing_azure 0 example_azure_state))"
    by blast
  then have run: "fst (AzurePrivateDNSProvider_Records example_azure_package failing_azure 0
                         example_azure_state)
                    = Inl (SoftError ''failed to fetch dns records: timeout'')"
    by (auto simp: pages)
  from a b run show ?thesis
    by simp
qed

text \<open>
  C7. An endpoint that no known zone matches is dropped and the rest goes through.
  \<open>PDNSProvider.ConvertEndpointsToZones\<close>, when the zones are listed and no TTL of a
  matched endpoint overflows, returns the zone list and no error; an endpoint that
  matches none of the filtered zones has no rrset of its name in any zone of the
  result, and when it matches no residual zone either it is among the leftover
  endpoints that are only warned about; an endpoint that matches a filtered zone has
  its rrset in a zone of the result that matches it. In the Azure Private DNS provider,
  when the zones are listed, \<open>ApplyChanges\<close> does with the changes what it does with the
  changes whose names find a zone; an endpoint whose name finds no zone is in no bucket
  of \<open>mapChanges\<close>, and an endpoint whose name finds a zone is in the bucket of that
  zone. When the provider is not in dry run and \<open>newRecordSet\<close> panics for no endpoint
  to create or update, \<open>ApplyChanges\<close> returns no error, and it has called \<open>Delete\<close>
  for every endpoint to delete, and \<open>CreateOrUpdate\<close> with the record set of every
  endpoint to create or update that has one, whose name finds a zone that the loop
  visits and passes the domain filter.
\<close>

theorem unroutable_endpoint_is_dropped:
  assumes lz: "ListZones (client p) tr = (Inr zs, tr')"
      and ok: "\<forall>e \<in> set eps. \<forall>z \<in> set (fst (PartitionZones (client p) zs)).
                 zoneMatches (etd (DNSName e)) z \<longrightarrow>
                 \<not> (ct = PdnsReplace \<and> sint (RecordTTL e) > MaxInt32)"
      and az: "zones azp now st = (Inr azs, st1)"
  shows "(\<exists>zoneList left.
            ConvertEndpointsToZones_warn etd p eps ct tr = (Inr (zoneList, left), tr')
          \<and> ConvertEndpointsToZones etd p eps ct tr = (Inr zoneList, tr')
          \<and> (\<forall>ep \<in> set eps.
                (\<forall>z \<in> set (fst (PartitionZones (client p) zs)).
                   \<not> zoneMatches (etd (DNSName ep)) z) \<longrightarrow>
                (\<forall>y \<in> set zoneList. \<forall>r \<in> set (zone_Rrsets y). rr_Name r \<noteq> etd (DNSName ep))
                \<and> ((\<forall>z \<in> set (snd (PartitionZones (client p) zs)).
                       \<not> zoneMatches (etd (DNSName ep)) z) \<longrightarrow> ep \<in> set left))
          \<and> (\<forall>ep \<in> set eps. \<forall>z \<in> set (fst (PartitionZones (client p) zs)).
                zoneMatches (etd (DNSName ep)) z \<longrightarrow>
                (\<exists>y \<in> set zoneList. \<exists>r \<in> set (zone_Rrsets y).
                   endpointRrset etd ct y ep = Inr r \<and> rr_Name r = etd (DNSName ep) \<and>
                   zoneMatches (etd (DNSName ep)) y)))
       \<and> AzurePrivateDNSProvider_ApplyChanges pkg azp
            (changes\<lparr>Create := filter (\<lambda>e. FindZone (List.map_filter pz_Name azs) (DNSName e) \<noteq> [])
                                  (Create changes),
                     Update := filter (\<lambda>u. FindZone (List.map_filter pz_Name azs)
                                              (DNSName (New u)) \<noteq> [])
                                  (Update changes),
                     Delete := filter (\<lambda>e. FindZone (List.map_filter pz_Name azs) (DNSName e) \<noteq> [])
                                  (Delete changes)\<rparr>) dord uord now st
          = AzurePrivateDNSProvider_ApplyChanges pkg azp changes dord uord now st
       \<and> (\<forall>aep. FindZone (List.map_filter pz_Name azs) (DNSName aep) = [] \<longrightarrow>
             (\<forall>zone es. fst (mapChanges azs changes) zone = Some es \<longrightarrow> aep \<notin> set es)
           \<and> (\<forall>zone es. snd (mapChanges azs changes) zone = Some es \<longrightarrow> aep \<notin> set es))
       \<and> (\<forall>aep. FindZone (List.map_filter pz_Name azs) (DNSName aep) \<noteq> [] \<longrightarrow>
             (aep \<in> set (Delete changes) \<longrightarrow>
                (\<exists>es. fst (mapChanges azs changes)
                         (FindZone (List.map_filter pz_Name azs) (DNSName aep)) = Some es
                      \<and> aep \<in> set es))
           \<and> (aep \<in> set (Create changes @ UpdateNew changes) \<longrightarrow>
                (\<exists>es. snd (mapChanges azs changes)
                         (FindZone (List.map_filter pz_Name azs) (DNSName aep)) = Some es
                      \<and> aep \<in> set es)))
       \<and> (\<not> az_dryRun azp \<and>
           (\<forall>e \<in> set (Create changes @ UpdateNew changes).
              case newRecordSet pkg e of Inl err \<Rightarrow> \<not> isPanic err | Inr rs \<Rightarrow> True) \<longrightarrow>
           fst (AzurePrivateDNSProvider_ApplyChanges pkg azp changes dord uord now st) = None
           \<and> (\<forall>aep \<in> set (Delete changes).
                 FindZone (List.map_filter pz_Name azs) (DNSName aep) \<noteq> [] \<and>
                 FindZone (List.map_filter pz_Name azs) (DNSName aep) \<in> set dord \<and>
                 Match (az_domainFilter azp) (DNSName aep) \<longrightarrow>
                 (\<exists>name. recordSetNameForZone
                            (FindZone (List.map_filter pz_Name azs) (DNSName aep)) aep = Inr name \<and>
                    RecordSets_Delete (az_resourceGroup azp)
                      (FindZone (List.map_filter pz_Name azs) (DNSName aep)) (RecordType aep) name
                    \<in> set (st_calls (snd (AzurePrivateDNSProvider_ApplyChanges pkg azp changes
                                             dord uord now st)))))
           \<and> (\<forall>aep \<in> set (Create changes @ UpdateNew changes). \<forall>rs.
                 FindZone (List.map_filter pz_Name azs) (DNSName aep) \<noteq> [] \<and>
                 FindZone (List.map_filter pz_Name azs) (DNSName aep) \<in> set uord \<and>
                 Match (az_domainFilter azp) (DNSName aep) \<and>
                 newRecordSet pkg aep = Inr rs \<longrightarrow>
                 (\<exists>name. recordSetNameForZone
                            (FindZone (List.map_filter pz_Name azs) (DNSName aep)) aep = Inr name \<and>
                    RecordSets_CreateOrUpdate (az_resourceGroup azp)
                      (FindZone (List.map_filter pz_Name azs) (DNSName aep)) (RecordType aep) name
                      rs
                    \<in> set (st_calls (snd (AzurePrivateDNSProvider_ApplyChanges pkg azp changes
                                             dord uord now st))))))"
proof -
  let ?n = "List.map_filter pz_Name azs"
  from ConvertEndpointsToZones_warn_succeeds[where etd = etd, OF lz ok] obtain zoneList left where
    w: "ConvertEndpointsToZones_warn etd p eps ct tr = (Inr (zoneList, left), tr')"
    by blast
  from w have c: "ConvertEndpointsToZones etd p eps ct tr = (Inr zoneList, tr')"
    by (simp add: ConvertEndpointsToZones_of_warn)
  have u: "\<forall>ep \<in> set eps.
                (\<forall>z \<in> set (fst (PartitionZones (client p) zs)).
                   \<not> zoneMatches (etd (DNSName ep)) z) \<longrightarrow>
                (\<forall>y \<in> set zoneList. \<forall>r \<in> set (zone_Rrsets y). rr_Name r \<noteq> etd (DNSName ep))
                \<and> ((\<forall>z \<in> set (snd (PartitionZones (client p) zs)).
                       \<not> zoneMatches (etd (DNSName ep)) z) \<longrightarrow> ep \<in> set left)"
  proof (intro ballI impI)
    fix ep
    assume ep: "ep \<in> set eps"
       and un: "\<forall>z \<in> set (fst (PartitionZones (client p) zs)).
                  \<not> zoneMatches (etd (DNSName ep)) z"
    from ConvertEndpointsToZones_unmatched[where etd = etd, OF lz w ep un]
    show "(\<forall>y \<in> set zoneList. \<forall>r \<in> set (zone_Rrsets y). rr_Name r \<noteq> etd (DNSName ep))
                \<and> ((\<forall>z \<in> set (snd (PartitionZones (client p) zs)).
                       \<not> zoneMatches (etd (DNSName ep)) z) \<longrightarrow> ep \<in> set left)" .
  qed
  have e: "\<forall>ep \<in> set eps. \<forall>z \<in> set (fst (PartitionZones (client p) zs)).
                zoneMatches (etd (DNSName ep)) z \<longrightarrow>
                (\<exists>y \<in> set zoneList. \<exists>r \<in> set (zone_Rrsets y).
                   endpointRrset etd ct y ep = Inr r \<and> rr_Name r = etd (DNSName ep) \<and>
                   zoneMatches (etd (DNSName ep)) y)"
  proof (intro ballI impI)
    fix ep z
    assume ep: "ep \<in> set eps"
       and z: "z \<in> set (fst (PartitionZones (client p) zs))"
       and m: "zoneMatches (etd (DNSName ep)) z"
    from ConvertEndpointsToZones_assigns[OF lz c ep z m] obtain y r where
      y: "y \<in> set zoneList" and r: "r \<in> set (zone_Rrsets y)"
      and rr: "endpointRrset etd ct y ep = Inr r"
      and my: "zoneMatches (etd (DNSName ep)) y"
      by blast
    from y r rr my endpointRrset_Inr_fields(1)[OF rr]
    show "\<exists>y \<in> set zoneList. \<exists>r \<in> set (zone_Rrsets y).
                   endpointRrset etd ct y ep = Inr r \<and> rr_Name r = etd (DNSName ep) \<and>
                   zoneMatches (etd (DNSName ep)) y"
      by blast
  qed
  from w c u e
  have pdns: "\<exists>zoneList left.
            ConvertEndpointsToZones_warn etd p eps ct tr = (Inr (zoneList, left), tr')
          \<and> ConvertEndpointsToZones etd p eps ct tr = (Inr zoneList, tr')
          \<and> (\<forall>ep \<in> set eps.
                (\<forall>z \<in> set (fst (PartitionZones (client p) zs)).
                   \<not> zoneMatches (etd (DNSName ep)) z) \<longrightarrow>
                (\<forall>y \<in> set zoneList. \<forall>r \<in> set (zone_Rrsets y). rr_Name r \<noteq> etd (DNSName ep))
                \<and> ((\<forall>z \<in> set (snd (PartitionZones (client p) zs)).
                       \<not> zoneMatches (etd (DNSName ep)) z) \<longrightarrow> ep \<in> set left))
          \<and> (\<forall>ep \<in> set eps. \<forall>z \<in> set (fst (PartitionZones (client p) zs)).
                zoneMatches (etd (DNSName ep)) z \<longrightarrow>
                (\<exists>y \<in> set zoneList. \<exists>r \<in> set (zone_Rrsets y).
                   endpointRrset etd ct y ep = Inr r \<and> rr_Name r = etd (DNSName ep) \<and>
                   zoneMatches (etd (DNSName ep)) y))"
    by blast
  note same = azure_ApplyChanges_routable[OF az, of pkg changes dord uord]
  have buckets: "\<forall>aep. FindZone ?n (DNSName aep) = [] \<longrightarrow>
             (\<forall>zone es. fst (mapChanges azs changes) zone = Some es \<longrightarrow> aep \<notin> set es)
           \<and> (\<forall>zone es. snd (mapChanges azs changes) zone = Some es \<longrightarrow> aep \<notin> set es)"
    using mapChanges_unroutable[OF surjective_pairing, of azs _ changes]
    by blast
  have member: "\<forall>aep. FindZone ?n (DNSName aep) \<noteq> [] \<longrightarrow>
             (aep \<in> set (Delete changes) \<longrightarrow>
                (\<exists>es. fst (mapChanges azs changes) (FindZone ?n (DNSName aep)) = Some es
                      \<and> aep \<in> set es))
           \<and> (aep \<in> set (Create changes @ UpdateNew changes) \<longrightarrow>
                (\<exists>es. snd (mapChanges azs changes) (FindZone ?n (DNSName aep)) = Some es
                      \<and> aep \<in> set es))"
    using mapChanges_bucket_mem[of azs _ changes]
    by blast
  have live: "\<not> az_dryRun azp \<and>
           (\<forall>e \<in> set (Create changes @ UpdateNew changes).
              case newRecordSet pkg e of Inl err \<Rightarrow> \<not> isPanic err | Inr rs \<Rightarrow> True) \<longrightarrow>
           fst (AzurePrivateDNSProvider_ApplyChanges pkg azp changes dord uord now st) = None
           \<and> (\<forall>aep \<in> set (Delete changes).
                 FindZone ?n (DNSName aep) \<noteq> [] \<and> FindZone ?n (DNSName aep) \<in> set dord \<and>
                 Match (az_domainFilter azp) (DNSName aep) \<longrightarrow>
                 (\<exists>name. recordSetNameForZone (FindZone ?n (DNSName aep)) aep = Inr name \<and>
                    RecordSets_Delete (az_resourceGroup azp)
                      (FindZone ?n (DNSName aep)) (RecordType aep) name
                    \<in> set (st_calls (snd (AzurePrivateDNSProvider_ApplyChanges pkg azp changes
                                             dord uord now st)))))
           \<and> (\<forall>aep \<in> set (Create changes @ UpdateNew changes). \<forall>rs.
                 FindZone ?n (DNSName aep) \<noteq> [] \<and> FindZone ?n (DNSName aep) \<in> set uord \<and>
                 Match (az_domainFilter azp) (DNSName aep) \<and>
                 newRecordSet pkg aep = Inr rs \<longrightarrow>
                 (\<exists>name. recordSetNameForZone (FindZone ?n (DNSName aep)) aep = Inr name \<and>
                    RecordSets_CreateOrUpdate (az_resourceGroup azp)
                      (FindZone ?n (DNSName aep)) (RecordType aep) name rs
                    \<in> set (st_calls (snd (AzurePrivateDNSProvider_ApplyChanges pkg azp changes
                                             dord uord now st)))))"
  proof (intro impI, elim conjE)
    assume nd: "\<not> az_dryRun azp"
       and np: "\<forall>e \<in> set (Create changes @ UpdateNew changes).
              case newRecordSet pkg e of Inl err \<Rightarrow> \<not> isPanic err | Inr rs \<Rightarrow> True"
    note run = azure_ApplyChanges_live[OF az nd np, of dord uord]
    from run have none: "fst (AzurePrivateDNSProvider_ApplyChanges pkg azp changes dord uord now st)
                           = None"
      by simp
    have dels: "\<forall>aep \<in> set (Delete changes).
                 FindZone ?n (DNSName aep) \<noteq> [] \<and> FindZone ?n (DNSName aep) \<in> set dord \<and>
                 Match (az_domainFilter azp) (DNSName aep) \<longrightarrow>
                 (\<exists>name. recordSetNameForZone (FindZone ?n (DNSName aep)) aep = Inr name \<and>
                    RecordSets_Delete (az_resourceGroup azp)
                      (FindZone ?n (DNSName aep)) (RecordType aep) name
                    \<in> set (st_calls (snd (AzurePrivateDNSProvider_ApplyChanges pkg azp changes
                                             dord uord now st))))"
    proof (intro ballI impI, elim conjE)
      fix aep
      assume d: "aep \<in> set (Delete changes)"
         and f: "FindZone ?n (DNSName aep) \<noteq> []"
         and o: "FindZone ?n (DNSName aep) \<in> set dord"
         and m: "Match (az_domainFilter azp) (DNSName aep)"
      from recordSetNameForZone_ok[OF FindZone_length, of ?n aep] obtain name where
        name: "recordSetNameForZone (FindZone ?n (DNSName aep)) aep = Inr name"
        by blast
      from mapChanges_bucket_sets(1)[of azs changes "FindZone ?n (DNSName aep)"] d f
      have b: "aep \<in> set (case fst (mapChanges azs changes) (FindZone ?n (DNSName aep)) of
                            None \<Rightarrow> [] | Some es \<Rightarrow> es)"
        by simp
      from b m o name
      have "RecordSets_Delete (az_resourceGroup azp)
              (FindZone ?n (DNSName aep)) (RecordType aep) name
            \<in> set (concat (map (\<lambda>zone.
                  map (\<lambda>e. RecordSets_Delete (az_resourceGroup azp) zone (RecordType e)
                             (projr (recordSetNameForZone zone e)))
                    (filter (\<lambda>e. Match (az_domainFilter azp) (DNSName e))
                       (case fst (mapChanges azs changes) zone of None \<Rightarrow> [] | Some es \<Rightarrow> es)))
                  dord))"
        by (force simp: image_iff)
      with run name
      show "\<exists>name. recordSetNameForZone (FindZone ?n (DNSName aep)) aep = Inr name \<and>
                    RecordSets_Delete (az_resourceGroup azp)
                      (FindZone ?n (DNSName aep)) (RecordType aep) name
                    \<in> set (st_calls (snd (AzurePrivateDNSProvider_ApplyChanges pkg azp changes
                                             dord uord now st)))"
        by simp
    qed
    have ups: "\<forall>aep \<in> set (Create changes @ UpdateNew changes). \<forall>rs.
                 FindZone ?n (DNSName aep) \<noteq> [] \<and> FindZone ?n (DNSName aep) \<in> set uord \<and>
                 Match (az_domainFilter azp) (DNSName aep) \<and>
                 newRecordSet pkg aep = Inr rs \<longrightarrow>
                 (\<exists>name. recordSetNameForZone (FindZone ?n (DNSName aep)) aep = Inr name \<and>
                    RecordSets_CreateOrUpdate (az_resourceGroup azp)
                      (FindZone ?n (DNSName aep)) (RecordType aep) name rs
                    \<in> set (st_calls (snd (AzurePrivateDNSProvider_ApplyChanges pkg azp changes
                                             dord uord now st))))"
    proof (intro ballI allI impI, elim conjE)
      fix aep rs
      assume d: "aep \<in> set (Create changes @ UpdateNew changes)"
         and f: "FindZone ?n (DNSName aep) \<noteq> []"
         and o: "FindZone ?n (DNSName aep) \<in> set uord"
         and m: "Match (az_domainFilter azp) (DNSName aep)"
         and rs: "newRecordSet pkg aep = Inr rs"
      from recordSetNameForZone_ok[OF FindZone_length, of ?n aep] obtain name where
        name: "recordSetNameForZone (FindZone ?n (DNSName aep)) aep = Inr name"
        by blast
      from mapChanges_bucket_sets(2)[of azs changes "FindZone ?n (DNSName aep)"] d f
      have b: "aep \<in> set (case snd (mapChanges azs changes) (FindZone ?n (DNSName aep)) of
                            None \<Rightarrow> [] | Some es \<Rightarrow> es)"
        by simp
      from b m o name rs
      have "RecordSets_CreateOrUpdate (az_resourceGroup azp)
              (FindZone ?n (DNSName aep)) (RecordType aep) name rs
            \<in> set (concat (map (\<lambda>zone. concat (map
                  (\<lambda>e. case newRecordSet pkg e of
                          Inl err \<Rightarrow> []
                        | Inr rs \<Rightarrow> [RecordSets_CreateOrUpdate (az_resourceGroup azp) zone
                                       (RecordType e) (projr (recordSetNameForZone zone e)) rs])
                  (filter (\<lambda>e. Match (az_domainFilter azp) (DNSName e))
                     (case snd (mapChanges azs changes) zone of None \<Rightarrow> [] | Some es \<Rightarrow> es))))
                  uord))"
        by (force simp: image_iff)
      with run name
      show "\<exists>name. recordSetNameForZone (FindZone ?n (DNSName aep)) aep = Inr name \<and>
                    RecordSets_CreateOrUpdate (az_resourceGroup azp)
                      (FindZone ?n (DNSName aep)) (RecordType aep) name rs
                    \<in> set (st_calls (snd (AzurePrivateDNSProvider_ApplyChanges pkg azp changes
                                             dord uord now st)))"
        by simp
    qed
    from none dels ups
    show "fst (AzurePrivateDNSProvider_ApplyChanges pkg azp changes dord uord now st) = None
           \<and> (\<forall>aep \<in> set (Delete changes).
                 FindZone ?n (DNSName aep) \<noteq> [] \<and> FindZone ?n (DNSName aep) \<in> set dord \<and>
                 Match (az_domainFilter azp) (DNSName aep) \<longrightarrow>
                 (\<exists>name. recordSetNameForZone (FindZone ?n (DNSName aep)) aep = Inr name \<and>
                    RecordSets_Delete (az_resourceGroup azp)
                      (FindZone ?n (DNSName aep)) (RecordType aep) name
                    \<in> set (st_calls (snd (AzurePrivateDNSProvider_ApplyChanges pkg azp changes
                                             dord uord now st)))))
           \<and> (\<forall>aep \<in> set (Create changes @ UpdateNew changes). \<forall>rs.
                 FindZone ?n (DNSName aep) \<noteq> [] \<and> FindZone ?n (DNSName aep) \<in> set uord \<and>
                 Match (az_domainFilter azp) (DNSName aep) \<and>
                 newRecordSet pkg aep = Inr rs \<longrightarrow>
                 (\<exists>name. recordSetNameForZone (FindZone ?n (DNSName aep)) aep = Inr name \<and>
                    RecordSets_CreateOrUpdate (az_resourceGroup azp)
                      (FindZone ?n (DNSName aep)) (RecordType aep) name rs
                    \<in> set (st_calls (snd (AzurePrivateDNSProvider_ApplyChanges pkg azp changes
                                             dord uord now st)))))"
      by (intro conjI)
  qed
  from pdns same buckets member live show ?thesis
    by (intro conjI)
qed

theorem unroutable_endpoint_is_dropped_witness:
  "(\<exists>zoneList left.
      ConvertEndpointsToZones_warn trailingDot example_pdns [example_foo, example_nope]
        PdnsReplace [] = (Inr (zoneList, left), [RawListZones])
    \<and> ConvertEndpointsToZones trailingDot example_pdns [example_foo, example_nope]
        PdnsReplace [] = (Inr zoneList, [RawListZones])
    \<and> (\<forall>y \<in> set zoneList. \<forall>r \<in> set (zone_Rrsets y).
          rr_Name r \<noteq> trailingDot (DNSName example_nope))
    \<and> example_nope \<in> set left
    \<and> (\<exists>y \<in> set zoneList. \<exists>r \<in> set (zone_Rrsets y).
          endpointRrset trailingDot PdnsReplace y example_foo = Inr r \<and>
          rr_Name r = trailingDot (DNSName example_foo)))
   \<and> AzurePrivateDNSProvider_ApplyChanges example_azure_package example_azure_live
        (example_azure_changes\<lparr>Create := [hd (Create example_azure_changes)]\<rparr>)
        [''example.com''] [''example.com''] 0 example_azure_state
      = AzurePrivateDNSProvider_ApplyChanges example_azure_package example_azure_live
          example_azure_changes [''example.com''] [''example.com''] 0 example_azure_state
   \<and> example_nope \<notin> set [hd (Create example_azure_changes)]
   \<and> example_nope \<in> set (Create example_azure_changes)
   \<and> fst (AzurePrivateDNSProvider_ApplyChanges example_azure_package example_azure_live
            example_azure_changes [''example.com''] [''example.com''] 0 example_azure_state)
      = None
   \<and> RecordSets_Delete ''group'' ''example.com'' ''CNAME'' ''a''
       \<in> set (st_calls (snd (AzurePrivateDNSProvider_ApplyChanges example_azure_package
                                example_azure_live example_azure_changes [''example.com'']
                                [''example.com''] 0 example_azure_state)))
   \<and> RecordSets_CreateOrUpdate ''group'' ''example.com'' ''A'' ''a''
         (projr (newRecordSet example_azure_package (hd (Create example_azure_changes))))
       \<in> set (st_calls (snd (AzurePrivateDNSProvider_ApplyChanges example_azure_package
                                example_azure_live example_azure_changes [''example.com'']
                                [''example.com''] 0 example_azure_state)))"
proof -
  let ?names = "List.map_filter pz_Name example_private_zones"
  let ?del = "hd (Delete example_azure_changes)"
  let ?cre = "hd (Create example_azure_changes)"
  have lz: "ListZones (client example_pdns) [] = (Inr example_zones, [RawListZones])"
    by code_simp
  have ok: "\<forall>e \<in> set [example_foo, example_nope].
              \<forall>z \<in> set (fst (PartitionZones (client example_pdns) example_zones)).
                 zoneMatches (trailingDot (DNSName e)) z \<longrightarrow>
                 \<not> (PdnsReplace = PdnsReplace \<and> sint (RecordTTL e) > MaxInt32)"
    by code_simp
  have az: "zones example_azure_live 0 example_azure_state
              = (Inr example_private_zones, snd (zones example_azure_live 0 example_azure_state))"
    by code_simp
  have ep: "example_nope \<in> set [example_foo, example_nope]"
    by simp
  have un1: "\<forall>z \<in> set (fst (PartitionZones (client example_pdns) example_zones)).
               \<not> zoneMatches (trailingDot (DNSName example_nope)) z"
    by code_simp
  have un2: "\<forall>z \<in> set (snd (PartitionZones (client example_pdns) example_zones)).
               \<not> zoneMatches (trailingDot (DNSName example_nope)) z"
    by code_simp
  have fz: "FindZone (List.map_filter pz_Name example_private_zones) (DNSName example_nope) = []"
    by code_simp
  have routable: "example_azure_changes
       \<lparr>Create := filter (\<lambda>e. FindZone (List.map_filter pz_Name example_private_zones)
                               (DNSName e) \<noteq> [])
                    (Create example_azure_changes),
        Update := filter (\<lambda>u. FindZone (List.map_filter pz_Name example_private_zones)
                               (DNSName (New u)) \<noteq> [])
                    (Update example_azure_changes),
        Delete := filter (\<lambda>e. FindZone (List.map_filter pz_Name example_private_zones)
                               (DNSName e) \<noteq> [])
                    (Delete example_azure_changes)\<rparr>
     = example_azure_changes\<lparr>Create := [hd (Create example_azure_changes)]\<rparr>"
    by code_simp
  have bucket: "snd (mapChanges example_private_zones example_azure_changes) ''example.com''
                  = Some [hd (Create example_azure_changes)]"
    by code_simp
  have there: "example_nope \<in> set (Create example_azure_changes)"
    by code_simp
  note t = unroutable_endpoint_is_dropped[where etd = trailingDot
               and pkg = example_azure_package and changes = example_azure_changes
               and dord = "[''example.com'']" and uord = "[''example.com'']", OF lz ok az]
  from t obtain zoneList left where
    w: "ConvertEndpointsToZones_warn trailingDot example_pdns [example_foo, example_nope]
          PdnsReplace [] = (Inr (zoneList, left), [RawListZones])"
    and c: "ConvertEndpointsToZones trailingDot example_pdns [example_foo, example_nope]
          PdnsReplace [] = (Inr zoneList, [RawListZones])"
    and u: "\<forall>ep \<in> set [example_foo, example_nope].
                (\<forall>z \<in> set (fst (PartitionZones (client example_pdns) example_zones)).
                   \<not> zoneMatches (trailingDot (DNSName ep)) z) \<longrightarrow>
                (\<forall>y \<in> set zoneList. \<forall>r \<in> set (zone_Rrsets y).
                   rr_Name r \<noteq> trailingDot (DNSName ep))
                \<and> ((\<forall>z \<in> set (snd (PartitionZones (client example_pdns) example_zones)).
                       \<not> zoneMatches (trailingDot (DNSName ep)) z) \<longrightarrow> ep \<in> set left)"
    and e: "\<forall>ep \<in> set [example_foo, example_nope].
              \<forall>z \<in> set (fst (PartitionZones (client example_pdns) example_zones)).
                zoneMatches (trailingDot (DNSName ep)) z \<longrightarrow>
                (\<exists>y \<in> set zoneList. \<exists>r \<in> set (zone_Rrsets y).
                   endpointRrset trailingDot PdnsReplace y ep = Inr r \<and>
                   rr_Name r = trailingDot (DNSName ep) \<and>
                   zoneMatches (trailingDot (DNSName ep)) y)"
    by blast
  have foo: "example_foo \<in> set [example_foo, example_nope]"
    by simp
  have fz1: "hd example_zones \<in> set (fst (PartitionZones (client example_pdns) example_zones))"
    by code_simp
  have fm: "zoneMatches (trailingDot (DNSName example_foo)) (hd example_zones)"
    by code_simp
  from e foo fz1 fm
  have emitted: "\<exists>y \<in> set zoneList. \<exists>r \<in> set (zone_Rrsets y).
          endpointRrset trailingDot PdnsReplace y example_foo = Inr r \<and>
          rr_Name r = trailingDot (DNSName example_foo)"
    by blast
  from u ep un1 un2
  have dropped: "(\<forall>y \<in> set zoneList. \<forall>r \<in> set (zone_Rrsets y).
                    rr_Name r \<noteq> trailingDot (DNSName example_nope))
                 \<and> example_nope \<in> set left"
    by blast
  from w c dropped emitted
  have pdns: "\<exists>zoneList left.
      ConvertEndpointsToZones_warn trailingDot example_pdns [example_foo, example_nope]
        PdnsReplace [] = (Inr (zoneList, left), [RawListZones])
    \<and> ConvertEndpointsToZones trailingDot example_pdns [example_foo, example_nope]
        PdnsReplace [] = (Inr zoneList, [RawListZones])
    \<and> (\<forall>y \<in> set zoneList. \<forall>r \<in> set (zone_Rrsets y).
          rr_Name r \<noteq> trailingDot (DNSName example_nope))
    \<and> example_nope \<in> set left
    \<and> (\<exists>y \<in> set zoneList. \<exists>r \<in> set (zone_Rrsets y).
          endpointRrset trailingDot PdnsReplace y example_foo = Inr r \<and>
          rr_Name r = trailingDot (DNSName example_foo))"
    by blast
  from t routable
  have same: "AzurePrivateDNSProvider_ApplyChanges example_azure_package example_azure_live
        (example_azure_changes\<lparr>Create := [hd (Create example_azure_changes)]\<rparr>)
        [''example.com''] [''example.com''] 0 example_azure_state
      = AzurePrivateDNSProvider_ApplyChanges example_azure_package example_azure_live
          example_azure_changes [''example.com''] [''example.com''] 0 example_azure_state"
    by simp
  from t fz bucket
  have out: "example_nope \<notin> set [hd (Create example_azure_changes)]"
    by blast
  have nd: "\<not> az_dryRun example_azure_live"
    by code_simp
  have np: "\<forall>e \<in> set (Create example_azure_changes @ UpdateNew example_azure_changes).
              case newRecordSet example_azure_package e of
                Inl err \<Rightarrow> \<not> isPanic err | Inr rs \<Rightarrow> True"
    by code_simp
  from t nd np
  have run: "fst (AzurePrivateDNSProvider_ApplyChanges example_azure_package example_azure_live
            example_azure_changes [''example.com''] [''example.com''] 0 example_azure_state)
      = None
    \<and> (\<forall>aep \<in> set (Delete example_azure_changes).
          FindZone ?names (DNSName aep) \<noteq> [] \<and>
          FindZone ?names (DNSName aep) \<in> set [''example.com''] \<and>
          Match (az_domainFilter example_azure_live) (DNSName aep) \<longrightarrow>
          (\<exists>name. recordSetNameForZone (FindZone ?names (DNSName aep)) aep = Inr name \<and>
             RecordSets_Delete (az_resourceGroup example_azure_live)
               (FindZone ?names (DNSName aep)) (RecordType aep) name
             \<in> set (st_calls (snd (AzurePrivateDNSProvider_ApplyChanges example_azure_package
                                      example_azure_live example_azure_changes [''example.com'']
                                      [''example.com''] 0 example_azure_state)))))
    \<and> (\<forall>aep \<in> set (Create example_azure_changes @ UpdateNew example_azure_changes). \<forall>rs.
          FindZone ?names (DNSName aep) \<noteq> [] \<and>
          FindZone ?names (DNSName aep) \<in> set [''example.com''] \<and>
          Match (az_domainFilter example_azure_live) (DNSName aep) \<and>
          newRecordSet example_azure_package aep = Inr rs \<longrightarrow>
          (\<exists>name. recordSetNameForZone (FindZone ?names (DNSName aep)) aep = Inr name \<and>
             RecordSets_CreateOrUpdate (az_resourceGroup example_azure_live)
               (FindZone ?names (DNSName aep)) (RecordType aep) name rs
             \<in> set (st_calls (snd (AzurePrivateDNSProvider_ApplyChanges example_azure_package
                                      example_azure_live example_azure_changes [''example.com'']
                                      [''example.com''] 0 example_azure_state)))))"
    by blast
  have rg: "az_resourceGroup example_azure_live = ''group''"
    by code_simp
  have d1: "?del \<in> set (Delete example_azure_changes)"
    by code_simp
  have d2: "FindZone ?names (DNSName ?del) = ''example.com''"
    by code_simp
  have d3: "Match (az_domainFilter example_azure_live) (DNSName ?del)"
    by code_simp
  have d4: "recordSetNameForZone ''example.com'' ?del = Inr ''a''"
    by code_simp
  have d5: "RecordType ?del = ''CNAME''"
    by code_simp
  from run[THEN conjunct2, THEN conjunct1, rule_format, OF d1] d2 d3 d4 d5 rg
  have deleted: "RecordSets_Delete ''group'' ''example.com'' ''CNAME'' ''a''
       \<in> set (st_calls (snd (AzurePrivateDNSProvider_ApplyChanges example_azure_package
                                example_azure_live example_azure_changes [''example.com'']
                                [''example.com''] 0 example_azure_state)))"
    by simp
  have c1: "?cre \<in> set (Create example_azure_changes @ UpdateNew example_azure_changes)"
    by code_simp
  have c2: "FindZone ?names (DNSName ?cre) = ''example.com''"
    by code_simp
  have c3: "Match (az_domainFilter example_azure_live) (DNSName ?cre)"
    by code_simp
  have c4: "recordSetNameForZone ''example.com'' ?cre = Inr ''a''"
    by code_simp
  have c5: "RecordType ?cre = ''A''"
    by code_simp
  have c6: "newRecordSet example_azure_package ?cre
              = Inr (projr (newRecordSet example_azure_package ?cre))"
    by code_simp
  from run[THEN conjunct2, THEN conjunct2, rule_format, OF c1, of
         "projr (newRecordSet example_azure_package ?cre)"] c2 c3 c4 c5 c6 rg
  have created: "RecordSets_CreateOrUpdate ''group'' ''example.com'' ''A'' ''a''
         (projr (newRecordSet example_azure_package ?cre))
       \<in> set (st_calls (snd (AzurePrivateDNSProvider_ApplyChanges example_azure_package
                                example_azure_live example_azure_changes [''example.com'']
                                [''example.com''] 0 example_azure_state)))"
    by simp
  from run have none: "fst (AzurePrivateDNSProvider_ApplyChanges example_azure_package
            example_azure_live example_azure_changes [''example.com''] [''example.com''] 0
            example_azure_state) = None"
    by (rule conjunct1)
  from pdns same out there none deleted created show ?thesis
    by (intro conjI)
qed

text \<open>
  C8. Configuration errors fail the construction. \<open>NewPDNSProvider\<close> returns an error,
  and no provider, whenever the API key is empty or dry run is requested.
  \<open>NewIngressSource\<close> returns an error, before the informer is started, whenever ingress
  class names are given and the annotation filter has a requirement on the key
  \<open>kubernetes.io/ingress.class\<close>; when the FQDN template parses, it is the error that
  says the two options are mutually exclusive.
\<close>

theorem configuration_errors_fail_construction:
  "(cfg_APIKey config = [] \<or> cfg_DryRun config \<longrightarrow>
      (\<exists>err. NewPDNSProvider setHTTPClient api config = Inl err))
   \<and> (ingressClassNames \<noteq> None \<and> annotationFilter \<noteq> [] \<and>
       getLabelSelector pkg annotationFilter = Inr requirements \<and>
       IngressClassAnnotationKey \<in> set requirements
       \<longrightarrow> (\<exists>err. NewIngressSource pkg namespace annotationFilter fqdnTemplate
                     combineFqdnAnnotation ignoreHostnameAnnotation ignoreIngressTLSSpec
                     ignoreIngressRulesSpec ingressClassNames = (Inl err, False)
                  \<and> (ParseTemplate pkg fqdnTemplate = None \<longrightarrow>
                       err = PlainError
                         ''--ingress-class is mutually exclusive with the kubernetes.io/ingress.class annotation filter'')))"
proof -
  have req: "hasIngressClassRequirement rs \<longleftrightarrow> IngressClassAnnotationKey \<in> set rs" for rs
    by (induction rs) (auto simp: IngressClassAnnotationKey_def)
  show ?thesis
    by (auto simp: NewPDNSProvider_def NewIngressSource_def req split: option.splits)
qed

theorem configuration_errors_fail_construction_witness:
  "(\<exists>err. NewPDNSProvider (\<lambda>tls. None) example_api dry_run_config = Inl err)
   \<and> (\<exists>err. NewPDNSProvider (\<lambda>tls. None) example_api no_key_config = Inl err)
   \<and> NewIngressSource example_ingress_package ''default'' ''kubernetes.io/ingress.class=nginx''
        [] False False False False (Some [''nginx''])
      = (Inl (PlainError
           ''--ingress-class is mutually exclusive with the kubernetes.io/ingress.class annotation filter''),
         False)"
proof -
  have sel: "Some [''nginx''] \<noteq> None \<and> ''kubernetes.io/ingress.class=nginx'' \<noteq> [] \<and>
       getLabelSelector example_ingress_package ''kubernetes.io/ingress.class=nginx''
         = Inr [''kubernetes.io/ingress.class''] \<and>
       IngressClassAnnotationKey \<in> set [''kubernetes.io/ingress.class'']"
    by code_simp
  have tpl: "ParseTemplate example_ingress_package [] = None"
    by code_simp
  note dry = configuration_errors_fail_construction[of dry_run_config
      "\<lambda>tls. None" example_api "Some [''nginx'']" "''kubernetes.io/ingress.class=nginx''"
      example_ingress_package "[''kubernetes.io/ingress.class'']" "''default''" "[]"
      False False False False]
  note nokey = configuration_errors_fail_construction[of no_key_config
      "\<lambda>tls. None" example_api "Some [''nginx'']" "''kubernetes.io/ingress.class=nginx''"
      example_ingress_package "[''kubernetes.io/ingress.class'']" "''default''" "[]"
      False False False False]
  have da: "cfg_DryRun dry_run_config"
    by code_simp
  have nk: "cfg_APIKey no_key_config = []"
    by code_simp
  from dry da have a: "\<exists>err. NewPDNSProvider (\<lambda>tls. None) example_api dry_run_config = Inl err"
    by simp
  from nokey nk have b: "\<exists>err. NewPDNSProvider (\<lambda>tls. None) example_api no_key_config = Inl err"
    by simp
  from dry sel tpl
  have c: "NewIngressSource example_ingress_package ''default''
             ''kubernetes.io/ingress.class=nginx'' [] False False False False (Some [''nginx''])
      = (Inl (PlainError
           ''--ingress-class is mutually exclusive with the kubernetes.io/ingress.class annotation filter''),
         False)"
    by blast
  from a b c show ?thesis
    by (intro conjI)
qed

text \<open>
  C9. A record TTL of zero means the default of the provider. When the zones are listed
  and an endpoint matches a filtered zone, \<open>ConvertEndpointsToZones\<close> for a \<open>REPLACE\<close>
  returns the soft error when the TTL of the endpoint is above the int32 maximum; when
  it succeeds, the rrset of the endpoint has the TTL 300 when the TTL of the endpoint
  is 0 and otherwise the TTL of the endpoint, converted to int32, which is the TTL of
  the endpoint itself when it is not below \<open>-2^31\<close>, and so for every TTL that is not
  negative. For a \<open>DELETE\<close> no rrset of the result
  is given a TTL: the field keeps its zero value. The record set that the Azure
  \<open>newRecordSet\<close> builds has the TTL of the endpoint when it is configured and the
  default TTL when it is not.
\<close>

theorem zero_ttl_means_default:
  assumes lz: "ListZones (client p) tr = (Inr zs, tr')"
      and ep: "ep \<in> set eps"
      and z: "z \<in> set (fst (PartitionZones (client p) zs))"
      and m: "zoneMatches (etd (DNSName ep)) z"
  shows "(sint (RecordTTL ep) > MaxInt32 \<longrightarrow>
            ConvertEndpointsToZones etd p eps PdnsReplace tr =
              (Inl (SoftError ''value of record TTL overflows, limited to int32''), tr'))
       \<and> (\<forall>zoneList tr''.
            ConvertEndpointsToZones etd p eps PdnsReplace tr = (Inr zoneList, tr'') \<longrightarrow>
            (\<exists>y \<in> set zoneList. \<exists>r \<in> set (zone_Rrsets y).
               endpointRrset etd PdnsReplace y ep = Inr r \<and>
               rr_Name r = etd (DNSName ep) \<and>
               rr_Ttl r = (if RecordTTL ep = 0 then 300 else word_of_int (sint (RecordTTL ep))) \<and>
               (- 2147483648 \<le> sint (RecordTTL ep) \<longrightarrow>
                  sint (rr_Ttl r) = (if RecordTTL ep = 0 then 300 else sint (RecordTTL ep)))))
       \<and> (\<forall>zoneList tr'' y r.
            ConvertEndpointsToZones etd p eps PdnsDelete tr = (Inr zoneList, tr'') \<and>
            y \<in> set zoneList \<and> r \<in> set (zone_Rrsets y) \<longrightarrow>
            rr_Ttl r = 0 \<and> rr_Changetype r = PdnsDelete)
       \<and> (\<forall>rs. newRecordSet pkg aep = Inr rs \<longrightarrow>
            (\<exists>props. rs_Properties rs = Some props \<and>
               props_TTL props =
                 Some (if TTL_IsConfigured pkg (RecordTTL aep) then RecordTTL aep
                       else azure_defaultTTL pkg)))"
proof -
  from ConvertEndpointsToZones_overflow[where etd = etd, OF lz ep z m]
  have big: "sint (RecordTTL ep) > MaxInt32 \<longrightarrow>
            ConvertEndpointsToZones etd p eps PdnsReplace tr =
              (Inl (SoftError ''value of record TTL overflows, limited to int32''), tr')"
    by blast
  from ConvertEndpointsToZones_ttl[where etd = etd, OF lz _ ep z m]
  have own: "\<forall>zoneList tr''.
            ConvertEndpointsToZones etd p eps PdnsReplace tr = (Inr zoneList, tr'') \<longrightarrow>
            (\<exists>y \<in> set zoneList. \<exists>r \<in> set (zone_Rrsets y).
               endpointRrset etd PdnsReplace y ep = Inr r \<and>
               rr_Name r = etd (DNSName ep) \<and>
               rr_Ttl r = (if RecordTTL ep = 0 then 300 else word_of_int (sint (RecordTTL ep))) \<and>
               (- 2147483648 \<le> sint (RecordTTL ep) \<longrightarrow>
                  sint (rr_Ttl r) = (if RecordTTL ep = 0 then 300 else sint (RecordTTL ep))))"
    by blast
  from ConvertEndpointsToZones_delete_no_ttl
  have del: "\<forall>zoneList tr'' y r.
            ConvertEndpointsToZones etd p eps PdnsDelete tr = (Inr zoneList, tr'') \<and>
            y \<in> set zoneList \<and> r \<in> set (zone_Rrsets y) \<longrightarrow>
            rr_Ttl r = 0 \<and> rr_Changetype r = PdnsDelete"
    by blast
  from newRecordSet_ttl
  have azure: "\<forall>rs. newRecordSet pkg aep = Inr rs \<longrightarrow>
            (\<exists>props. rs_Properties rs = Some props \<and>
               props_TTL props =
                 Some (if TTL_IsConfigured pkg (RecordTTL aep) then RecordTTL aep
                       else azure_defaultTTL pkg))"
    by blast
  from big own del azure show ?thesis
    by (intro conjI)
qed

theorem zero_ttl_means_default_witness:
  "(\<exists>y \<in> set example_foo_zones. \<exists>r \<in> set (zone_Rrsets y).
      endpointRrset trailingDot PdnsReplace y example_foo = Inr r \<and>
      rr_Name r = trailingDot (DNSName example_foo) \<and> rr_Ttl r = 300 \<and> sint (rr_Ttl r) = 300)
   \<and> ConvertEndpointsToZones trailingDot example_pdns [long_lived] PdnsReplace [] =
       (Inl (SoftError ''value of record TTL overflows, limited to int32''), [RawListZones])
   \<and> (\<exists>props. rs_Properties (projr (newRecordSet example_azure_package example_foo))
                = Some props \<and> props_TTL props = Some 300)"
proof -
  have lz: "ListZones (client example_pdns) [] = (Inr example_zones, [RawListZones])"
    by code_simp
  have conv: "ConvertEndpointsToZones trailingDot example_pdns [example_foo] PdnsReplace []
      = (Inr example_foo_zones, [RawListZones])"
    by code_simp
  have ep: "example_foo \<in> set [example_foo]"
    by simp
  have z: "hd example_zones \<in> set (fst (PartitionZones (client example_pdns) example_zones))"
    by code_simp
  have m: "zoneMatches (trailingDot (DNSName example_foo)) (hd example_zones)"
    by code_simp
  have ttl: "RecordTTL example_foo = 0"
    by code_simp
  have rs: "newRecordSet example_azure_package example_foo
              = Inr (projr (newRecordSet example_azure_package example_foo))"
    by code_simp
  have unset: "\<not> TTL_IsConfigured example_azure_package (RecordTTL example_foo)"
    by code_simp
  have dflt: "azure_defaultTTL example_azure_package = 300"
    by code_simp
  have ep': "long_lived \<in> set [long_lived]"
    by simp
  have m': "zoneMatches (trailingDot (DNSName long_lived)) (hd example_zones)"
    by code_simp
  have big: "sint (RecordTTL long_lived) > MaxInt32"
    by code_simp
  note t = zero_ttl_means_default[where etd = trailingDot and pkg = example_azure_package
             and aep = example_foo, OF lz ep z m]
  note t' = zero_ttl_means_default[where etd = trailingDot and pkg = example_azure_package
              and aep = example_foo, OF lz ep' z m']
  from t conv ttl
  have a: "\<exists>y \<in> set example_foo_zones. \<exists>r \<in> set (zone_Rrsets y).
      endpointRrset trailingDot PdnsReplace y example_foo = Inr r \<and>
      rr_Name r = trailingDot (DNSName example_foo) \<and> rr_Ttl r = 300 \<and> sint (rr_Ttl r) = 300"
    by fastforce
  from t' big
  have b: "ConvertEndpointsToZones trailingDot example_pdns [long_lived] PdnsReplace [] =
       (Inl (SoftError ''value of record TTL overflows, limited to int32''), [RawListZones])"
    by blast
  from t rs unset dflt
  have c: "\<exists>props. rs_Properties (projr (newRecordSet example_azure_package example_foo))
                = Some props \<and> props_TTL props = Some 300"
    by fastforce
  from a b c show ?thesis
    by (intro conjI)
qed

text \<open>
  C10. CNAME and ALIAS at the zone apex. When the zones are listed and the conversion
  succeeds, a CNAME endpoint whose name (with its trailing dot) is the name of a
  filtered zone has its rrset in the zone of that name, with the type ALIAS, and
  \<open>convertRRSetToEndpoints\<close> maps that rrset back to one endpoint of the record type of
  the endpoint; and \<open>convertRRSetToEndpoints\<close> maps every rrset of type ALIAS to one
  endpoint of record type CNAME.
\<close>

theorem pdns_apex_cname_alias_roundtrip:
  assumes lz: "ListZones (client p) tr = (Inr zs, tr')"
      and conv: "ConvertEndpointsToZones EnsureTrailingDot p eps changetype tr = (Inr zoneList, tr'')"
      and ep: "ep \<in> set eps"
      and cname: "RecordType ep = ''CNAME''"
      and z: "z \<in> set (fst (PartitionZones (client p) zs))"
      and apex: "EnsureTrailingDot (DNSName ep) = zone_Name z"
  shows "(\<exists>y \<in> set zoneList. zone_Name y = EnsureTrailingDot (DNSName ep) \<and>
            (\<exists>r \<in> set (zone_Rrsets y).
               endpointRrset EnsureTrailingDot changetype y ep = Inr r \<and>
               rr_Type r = ''ALIAS'' \<and>
               (\<exists>e. convertRRSetToEndpoints r = Inr [e] \<and> RecordType e = RecordType ep)))
         \<and> (rr_Type rr = ''ALIAS'' \<longrightarrow>
              (\<exists>e. convertRRSetToEndpoints rr = Inr [e] \<and> RecordType e = ''CNAME''))"
proof -
  from ConvertEndpointsToZones_apex[OF lz conv ep z apex] obtain y r where
    y: "y \<in> set zoneList" and ny: "zone_Name y = EnsureTrailingDot (DNSName ep)"
    and r: "r \<in> set (zone_Rrsets y)"
    and rr: "endpointRrset EnsureTrailingDot changetype y ep = Inr r"
    by blast
  from endpointRrset_Inr_fields(4)[OF rr] ny cname have al: "rr_Type r = ''ALIAS''"
    by simp
  from convertRRSetToEndpoints_ALIAS[OF al] cname
  have rb: "\<exists>e. convertRRSetToEndpoints r = Inr [e] \<and> RecordType e = RecordType ep"
    by simp
  from y ny r rr al rb
  have "\<exists>y \<in> set zoneList. zone_Name y = EnsureTrailingDot (DNSName ep) \<and>
            (\<exists>r \<in> set (zone_Rrsets y).
               endpointRrset EnsureTrailingDot changetype y ep = Inr r \<and>
               rr_Type r = ''ALIAS'' \<and>
               (\<exists>e. convertRRSetToEndpoints r = Inr [e] \<and> RecordType e = RecordType ep))"
    by blast
  then show ?thesis
    using convertRRSetToEndpoints_ALIAS by blast
qed

theorem pdns_apex_cname_alias_roundtrip_witness:
  "(\<exists>y \<in> set example_apex_zones. zone_Name y = trailingDot (DNSName example_apex) \<and>
      (\<exists>r \<in> set (zone_Rrsets y).
         endpointRrset trailingDot PdnsReplace y example_apex = Inr r \<and>
         rr_Type r = ''ALIAS'' \<and>
         (\<exists>e. convertRRSetToEndpoints r = Inr [e] \<and> RecordType e = RecordType example_apex)))
   \<and> (\<exists>e. convertRRSetToEndpoints (hd (zone_Rrsets (hd example_apex_zones))) = Inr [e]
           \<and> RecordType e = ''CNAME'')"
proof -
  have lz: "ListZones (client example_pdns) [] = (Inr example_zones, [RawListZones])"
    by code_simp
  have conv: "ConvertEndpointsToZones trailingDot example_pdns [example_apex] PdnsReplace []
      = (Inr example_apex_zones, [RawListZones])"
    by code_simp
  have ep: "example_apex \<in> set [example_apex]"
    by simp
  have cname: "RecordType example_apex = ''CNAME''"
    by code_simp
  have z: "hd example_zones \<in> set (fst (PartitionZones (client example_pdns) example_zones))"
    by code_simp
  have apex: "trailingDot (DNSName example_apex) = zone_Name (hd example_zones)"
    by code_simp
  have stored: "rr_Type (hd (zone_Rrsets (hd example_apex_zones))) = ''ALIAS''"
    by code_simp
  from pdns_apex_cname_alias_roundtrip[OF lz conv ep cname z apex,
         of "hd (zone_Rrsets (hd example_apex_zones))"] stored
  show ?thesis
    by blast
qed

end
